(* ===== verification/Prelude.thy ===== *)
theory Prelude
  imports
    "HOL-Library.State_Monad"
    "HOL-Library.Word"
    "HOL-Library.Sublist"
    "HOL-Library.Multiset"
begin

text \<open>
  Shared ground of the development: the names of the machine integer types, the result type
  of fallible Rust functions (an \<open>anyhow\<close> error is the chain of its context messages), the
  parts of Rust's string library that the program uses, and the generic lemmas about them.

  A Rust \<open>String\<close> is a list of bytes here (\<^typ>\<open>string\<close>), so white space means ASCII white
  space. Decimal printing and the standard integer parsers are modelled because rule texts,
  command lines and configuration files travel between the components as text.
\<close>

unbundle bit_operations_syntax

named_theorems later_intros \<open>programs only extend the trace and never set the clock back\<close>

section \<open>Types\<close>

type_synonym u8 = "8 word"
type_synonym u16 = "16 word"
type_synonym u32 = "32 word"
type_synonym u64 = "64 word"

text \<open>
  \<open>anyhow::Error\<close>: the context messages, outermost first. \<open>{error:#}\<close> joins the chain with a
  colon and a blank.
\<close>

type_synonym err = "string list"
type_synonym 'a res = "err + 'a"

abbreviation Ok :: "'a \<Rightarrow> 'a res" where
  "Ok \<equiv> Inr"

abbreviation Err :: "err \<Rightarrow> 'a res" where
  "Err \<equiv> Inl"

definition is_ok :: "'a res \<Rightarrow> bool" where
  "is_ok r = (case r of Inl _ \<Rightarrow> False | Inr _ \<Rightarrow> True)"

lemma is_ok_simps [simp]: "is_ok (Inr x)" "\<not> is_ok (Inl e)"
  by (simp_all add: is_ok_def)

text \<open>\<open>Context::context\<close> on a result and on an option.\<close>

definition with_context :: "string \<Rightarrow> 'a res \<Rightarrow> 'a res" where
  "with_context msg r = (case r of Inl e \<Rightarrow> Inl (msg # e) | Inr x \<Rightarrow> Inr x)"

definition with_context_opt :: "string \<Rightarrow> 'a option \<Rightarrow> 'a res" where
  "with_context_opt msg x = (case x of None \<Rightarrow> Inl [msg] | Some y \<Rightarrow> Inr y)"

lemma with_context_simps [simp]:
  "with_context m (Inr x) = Inr x" "with_context m (Inl e) = Inl (m # e)"
  "with_context_opt m None = Inl [m]" "with_context_opt m (Some x) = Inr x"
  by (simp_all add: with_context_def with_context_opt_def)

text \<open>Collecting into a \<open>Result\<close>: the first error wins.\<close>

fun collect :: "'a res list \<Rightarrow> 'a list res" where
  "collect [] = Ok []"
| "collect (Inl e # rs) = Err e"
| "collect (Inr x # rs) = map_sum (\<lambda>e. e) (\<lambda>xs. x # xs) (collect rs)"

lemma collect_ok: "collect (map (\<lambda>x. Inr (f x)) xs) = Inr (map f xs)"
  by (induction xs) simp_all

lemma collect_iff: "collect rs = Inr xs \<longleftrightarrow> rs = map Inr xs"
proof (induction rs arbitrary: xs)
  case (Cons r rs)
  then show ?case
    by (cases r; cases xs; cases "collect rs") auto
qed auto

section \<open>Splitting and joining\<close>

fun join :: "string \<Rightarrow> string list \<Rightarrow> string" where
  "join sep [] = []"
| "join sep [x] = x"
| "join sep (x # y # xs) = x @ sep @ join sep (y # xs)"

definition show_err :: "err \<Rightarrow> string" where
  "show_err e = join '': '' e"

text \<open>\<open>str::split\<close>: always at least one piece.\<close>

fun split_by :: "(char \<Rightarrow> bool) \<Rightarrow> string \<Rightarrow> string list" where
  "split_by p [] = [[]]"
| "split_by p (x # xs) =
     (if p x then [] # split_by p xs
      else (case split_by p xs of [] \<Rightarrow> [[x]] | y # ys \<Rightarrow> (x # y) # ys))"

definition split_on :: "char \<Rightarrow> string \<Rightarrow> string list" where
  "split_on c = split_by (\<lambda>x. x = c)"

definition split_once :: "char \<Rightarrow> string \<Rightarrow> (string \<times> string) option" where
  "split_once c s =
     (case dropWhile (\<lambda>x. x \<noteq> c) s of
        [] \<Rightarrow> None
      | _ # rest \<Rightarrow> Some (takeWhile (\<lambda>x. x \<noteq> c) s, rest))"

text \<open>\<open>str::lines\<close>: a final line without a line feed keeps its carriage return.\<close>

definition strip_cr :: "string \<Rightarrow> string" where
  "strip_cr s = (if s \<noteq> [] \<and> last s = CHR 0x0D then butlast s else s)"

definition lines :: "string \<Rightarrow> string list" where
  "lines s =
     (let ps = split_on (CHR 0x0A) s
      in map strip_cr (butlast ps) @ (if last ps = [] then [] else [last ps]))"

definition is_ws :: "char \<Rightarrow> bool" where
  "is_ws c = (c = CHR 0x20 \<or> (9 \<le> (of_char c :: nat) \<and> (of_char c :: nat) \<le> 13))"

definition split_whitespace :: "string \<Rightarrow> string list" where
  "split_whitespace s = filter (\<lambda>w. w \<noteq> []) (split_by is_ws s)"

definition trim_by :: "(char \<Rightarrow> bool) \<Rightarrow> string \<Rightarrow> string" where
  "trim_by p s = rev (dropWhile p (rev (dropWhile p s)))"

definition trim :: "string \<Rightarrow> string" where
  "trim = trim_by is_ws"

definition trim_matches :: "char \<Rightarrow> string \<Rightarrow> string" where
  "trim_matches c = trim_by (\<lambda>x. x = c)"

definition trim_end_matches :: "char \<Rightarrow> string \<Rightarrow> string" where
  "trim_end_matches c s = rev (dropWhile (\<lambda>x. x = c) (rev s))"

definition starts_with :: "string \<Rightarrow> string \<Rightarrow> bool" where
  "starts_with s p = (take (length p) s = p)"

definition strip_prefix :: "string \<Rightarrow> string \<Rightarrow> string option" where
  "strip_prefix s p = (if starts_with s p then Some (drop (length p) s) else None)"

fun contains :: "string \<Rightarrow> string \<Rightarrow> bool" where
  "contains [] needle = (needle = [])"
| "contains (x # xs) needle = (starts_with (x # xs) needle \<or> contains xs needle)"

definition ascii_lower :: "char \<Rightarrow> char" where
  "ascii_lower c =
     (if 65 \<le> (of_char c :: nat) \<and> (of_char c :: nat) \<le> 90
      then char_of ((of_char c :: nat) + 32) else c)"

definition to_ascii_lowercase :: "string \<Rightarrow> string" where
  "to_ascii_lowercase = map ascii_lower"

text \<open>A command line option with a value, when there is one, and a switch.\<close>

definition opt_arg :: "string \<Rightarrow> string option \<Rightarrow> string list" where
  "opt_arg flag value = (case value of None \<Rightarrow> [] | Some v \<Rightarrow> [flag, v])"

definition switch :: "string \<Rightarrow> bool \<Rightarrow> string list" where
  "switch flag on = (if on then [flag] else [])"

section \<open>Numbers as text\<close>

definition digit :: "nat \<Rightarrow> char" where
  "digit d = char_of (48 + d)"

fun dec :: "nat \<Rightarrow> string" where
  "dec n = (if n < 10 then [digit n] else dec (n div 10) @ [digit (n mod 10)])"

declare dec.simps [simp del]

definition dec_int :: "int \<Rightarrow> string" where
  "dec_int i = (if i < 0 then CHR ''-'' # dec (nat (- i)) else dec (nat i))"

definition is_digit :: "char \<Rightarrow> bool" where
  "is_digit c = (48 \<le> (of_char c :: nat) \<and> (of_char c :: nat) \<le> 57)"

definition digit_val :: "char \<Rightarrow> nat" where
  "digit_val c = of_char c - 48"

definition digits_val :: "string \<Rightarrow> nat" where
  "digits_val s = foldl (\<lambda>n c. 10 * n + digit_val c) 0 s"

text \<open>
  \<open>from_str\<close> of an unsigned integer type with \<open>bound\<close> values: an optional plus sign, then at
  least one decimal digit and nothing else, and the value has to fit.
\<close>

definition parse_unsigned :: "nat \<Rightarrow> string \<Rightarrow> nat option" where
  "parse_unsigned bound s =
     (let t = (case s of c # cs \<Rightarrow> if c = CHR ''+'' then cs else s | [] \<Rightarrow> [])
      in if t \<noteq> [] \<and> list_all is_digit t \<and> digits_val t < bound
         then Some (digits_val t) else None)"

definition parse_u16 :: "string \<Rightarrow> u16 option" where
  "parse_u16 s = map_option of_nat (parse_unsigned 65536 s)"

definition show_word :: "'a::len word \<Rightarrow> string" where
  "show_word w = dec (unat w)"

section \<open>Signed machine integers\<close>

text \<open>Two's complement readings of an unbounded integer (\<open>as i32\<close>, wrapping \<open>i64\<close>).\<close>

definition as_i32 :: "int \<Rightarrow> int" where
  "as_i32 n = signed_take_bit 31 n"

definition wrap_i64 :: "int \<Rightarrow> int" where
  "wrap_i64 n = signed_take_bit 63 n"

lemma as_i32_id: "- (2 ^ 31) \<le> n \<Longrightarrow> n < 2 ^ 31 \<Longrightarrow> as_i32 n = n"
  by (simp add: as_i32_def signed_take_bit_int_eq_self)

lemma wrap_i64_id: "- (2 ^ 63) \<le> n \<Longrightarrow> n < 2 ^ 63 \<Longrightarrow> wrap_i64 n = n"
  by (simp add: wrap_i64_def signed_take_bit_int_eq_self)

section \<open>Lemmas on the string functions\<close>

lemma split_by_ne [simp]: "split_by p s \<noteq> []"
  by (induction s) (auto split: list.splits)

lemma split_on_ne [simp]: "split_on c s \<noteq> []"
  by (simp add: split_on_def)

lemma split_by_single: "\<forall>x \<in> set s. \<not> p x \<Longrightarrow> split_by p s = [s]"
  by (induction s) auto

lemma split_by_append_sep:
  "\<forall>x \<in> set s. \<not> p x \<Longrightarrow> p c \<Longrightarrow> split_by p (s @ c # t) = s # split_by p t"
  by (induction s) auto

lemma split_on_join:
  assumes "xs \<noteq> []" and "\<forall>x \<in> set xs. c \<notin> set x"
  shows "split_on c (join [c] xs) = xs"
  using assms
proof (induction "[c]" xs rule: join.induct)
  case (3 x y xs)
  then have "split_on c (x @ c # join [c] (y # xs)) = x # split_on c (join [c] (y # xs))"
    unfolding split_on_def by (intro split_by_append_sep) auto
  with 3 show ?case by simp
qed (auto simp: split_on_def intro!: split_by_single)

lemma set_split_by: "w \<in> set (split_by p s) \<Longrightarrow> x \<in> set w \<Longrightarrow> x \<in> set s \<and> \<not> p x"
  by (induction s arbitrary: w) (fastforce split: if_splits list.splits)+

lemma set_join: "set (join sep xs) \<subseteq> set sep \<union> (\<Union>x \<in> set xs. set x)"
  by (induction sep xs rule: join.induct) auto

lemma lines_Nil [simp]: "lines [] = []"
  by (simp add: lines_def split_on_def)

lemma lines_Cons:
  assumes "CHR 0x0A \<notin> set l"
  shows "lines (l @ CHR 0x0A # t) = strip_cr l # lines t"
proof -
  have "split_on (CHR 0x0A) (l @ CHR 0x0A # t) = l # split_on (CHR 0x0A) t"
    unfolding split_on_def using assms by (intro split_by_append_sep) auto
  then show ?thesis by (simp add: lines_def Let_def)
qed

lemma strip_cr_append [simp]: "s \<noteq> [] \<Longrightarrow> strip_cr (t @ s) = t @ strip_cr s"
  by (simp add: strip_cr_def butlast_append)

lemma strip_cr_Cons [simp]: "s \<noteq> [] \<Longrightarrow> strip_cr (c # s) = c # strip_cr s"
  by (simp add: strip_cr_def)

lemma strip_cr_single [simp]: "strip_cr [c] = (if c = CHR 0x0D then [] else [c])" "strip_cr [] = []"
  by (simp_all add: strip_cr_def)

lemma is_digit_digit [simp]: "d < 10 \<Longrightarrow> is_digit (digit d)"
  by (simp add: is_digit_def digit_def)

lemma digit_val_digit [simp]: "d < 10 \<Longrightarrow> digit_val (digit d) = d"
  by (simp add: digit_val_def digit_def)

lemma digit_numerals [simp]:
  "digit 0 = CHR ''0''" "digit 1 = CHR ''1''" "digit (Suc 0) = CHR ''1''" "digit 2 = CHR ''2''"
  "digit 3 = CHR ''3''" "digit 4 = CHR ''4''" "digit 5 = CHR ''5''" "digit 6 = CHR ''6''"
  "digit 7 = CHR ''7''" "digit 8 = CHR ''8''" "digit 9 = CHR ''9''"
  by code_simp+

lemma dec_numeral [simp]:
  "dec (numeral k) =
     (if (numeral k :: nat) < 10 then [digit (numeral k)]
      else dec (numeral k div 10) @ [digit (numeral k mod 10)])"
  "dec 0 = ''0''" "dec 1 = ''1''" "dec (Suc 0) = ''1''"
  by (simp_all add: dec.simps)

lemma digit_inj: "a < 10 \<Longrightarrow> b < 10 \<Longrightarrow> digit a = digit b \<Longrightarrow> a = b"
  by (metis digit_val_digit)

lemma dec_ne [simp]: "dec n \<noteq> []"
  by (subst dec.simps) simp

lemma dec_digits: "list_all is_digit (dec n)"
proof (induction n rule: dec.induct)
  case (1 n)
  show ?case
  proof (cases "n < 10")
    case True
    then show ?thesis by (subst dec.simps) simp
  next
    case False
    with 1 show ?thesis by (subst dec.simps) simp
  qed
qed

lemma digits_val_snoc: "digits_val (s @ [c]) = 10 * digits_val s + digit_val c"
  by (simp add: digits_val_def)

lemma digits_val_dec [simp]: "digits_val (dec n) = n"
proof (induction n rule: dec.induct)
  case (1 n)
  show ?case
  proof (cases "n < 10")
    case True
    then show ?thesis by (subst dec.simps) (simp add: digits_val_def)
  next
    case False
    with 1 show ?thesis by (subst dec.simps) (simp add: digits_val_snoc)
  qed
qed

lemma dec_inj: "dec m = dec n \<longleftrightarrow> m = n"
  by (metis digits_val_dec)

lemma digit_not_special:
  assumes "c \<in> set (dec n)"
  shows "is_digit c"
  using dec_digits assms by (auto simp: list_all_iff)

lemma parse_unsigned_dec [simp]:
  "parse_unsigned b (dec n) = (if n < b then Some n else None)"
proof -
  obtain c cs where d: "dec n = c # cs"
    by (cases "dec n") auto
  then have "is_digit c"
    using digit_not_special [of c n] by simp
  then have "c \<noteq> CHR ''+''"
    by (auto simp: is_digit_def)
  then show ?thesis
    using d dec_digits [of n] digits_val_dec [of n]
    by (simp add: parse_unsigned_def del: digits_val_dec)
qed

lemma parse_u16_show [simp]: "parse_u16 (show_word (p :: u16)) = Some p"
proof -
  have "unat p < 65536"
    using unsigned_less [of p] by simp
  then show ?thesis
    by (simp add: parse_u16_def show_word_def)
qed

section \<open>Values that travel as text\<close>

text \<open>
  A printer and a parser that agree, with a separator that the printer never emits. Lists of
  such values survive being joined, passed as one argument and split again.
\<close>

locale text_codec =
  fixes shw :: "'a \<Rightarrow> string" and prs :: "string \<Rightarrow> 'a option" and sep :: char
  assumes prs_shw: "prs (shw x) = Some x"
    and sep_free: "sep \<notin> set (shw x)"
begin

lemma shw_inj: "shw x = shw y \<longleftrightarrow> x = y"
  by (metis option.inject prs_shw)

lemma split_shw: "xs \<noteq> [] \<Longrightarrow> split_on sep (join [sep] (map shw xs)) = map shw xs"
  by (rule split_on_join) (auto simp: sep_free)

lemma those_shw: "those (map (prs \<circ> shw) xs) = Some xs"
  by (induction xs) (auto simp: prs_shw)

end

interpretation u16_codec: text_codec "show_word :: u16 \<Rightarrow> string" parse_u16 "CHR '',''"
  by unfold_locales (simp, auto simp: show_word_def is_digit_def dest: digit_not_special)

end
