(* ===== verification/Net.thy ===== *)
theory Net
  imports Prelude
begin

text \<open>
  The part of \<open>std::net\<close> that the program computes with: addresses, their textual form, the
  strict parser of dotted decimal addresses and the conversion to machine words.
\<close>

section \<open>Addresses\<close>

datatype ipv4 = Ipv4 u8 u8 u8 u8

datatype ipaddr = V4 ipv4 | V6 "128 word"

fun octets :: "ipv4 \<Rightarrow> u8 list" where
  "octets (Ipv4 a b c d) = [a, b, c, d]"

fun to_bits :: "ipv4 \<Rightarrow> u32" where
  "to_bits (Ipv4 a b c d) =
     push_bit 24 (ucast a) OR push_bit 16 (ucast b) OR push_bit 8 (ucast c) OR ucast d"

definition of_bits :: "u32 \<Rightarrow> ipv4" where
  "of_bits w = Ipv4 (ucast (drop_bit 24 w)) (ucast (drop_bit 16 w)) (ucast (drop_bit 8 w)) (ucast w)"

section \<open>Textual form\<close>

definition show_ipv4 :: "ipv4 \<Rightarrow> string" where
  "show_ipv4 a = join ''.'' (map show_word (octets a))"

definition hex_digit :: "nat \<Rightarrow> char" where
  "hex_digit d = (if d < 10 then char_of (48 + d) else char_of (87 + d))"

fun hex :: "nat \<Rightarrow> string" where
  "hex n = (if n < 16 then [hex_digit n] else hex (n div 16) @ [hex_digit (n mod 16)])"

declare hex.simps [simp del]

definition segments :: "128 word \<Rightarrow> u16 list" where
  "segments w = map (\<lambda>i. ucast (drop_bit (112 - 16 * i) w)) [0..<8]"

text \<open>The first longest run of zero segments, as (start, length).\<close>

fun zero_span :: "nat \<Rightarrow> u16 list \<Rightarrow> nat \<times> nat \<Rightarrow> nat \<times> nat \<Rightarrow> nat \<times> nat" where
  "zero_span i [] cur best = best"
| "zero_span i (s # ss) (st, len) best =
     (if s = 0 then
        let cur = (if len = 0 then i else st, len + 1)
        in zero_span (i + 1) ss cur (if len + 1 > snd best then cur else best)
      else zero_span (i + 1) ss (0, 0) best)"

definition show_ipv6 :: "128 word \<Rightarrow> string" where
  "show_ipv6 w =
     (let segs = segments w in
      if take 6 segs = [0, 0, 0, 0, 0, 0xffff]
      then ''::ffff:'' @ show_ipv4 (of_bits (ucast w))
      else
        (case zero_span 0 segs (0, 0) (0, 0) of (st, len) \<Rightarrow>
           let sub = (\<lambda>xs. join '':'' (map (\<lambda>s. hex (unat s)) xs)) in
           if len > 1 then sub (take st segs) @ ''::'' @ sub (drop (st + len) segs)
           else sub segs))"

fun show_ip :: "ipaddr \<Rightarrow> string" where
  "show_ip (V4 a) = show_ipv4 a"
| "show_ip (V6 w) = show_ipv6 w"

text \<open>
  \<open>Ipv4Addr::from_str\<close>: exactly four groups of one to three digits, none above 255 and none
  with a leading zero.
\<close>

definition parse_octet :: "string \<Rightarrow> u8 option" where
  "parse_octet s =
     (if s \<noteq> [] \<and> list_all is_digit s \<and> length s \<le> 3 \<and>
         (length s > 1 \<longrightarrow> hd s \<noteq> CHR ''0'') \<and> digits_val s < 256
      then Some (of_nat (digits_val s)) else None)"

definition parse_ipv4 :: "string \<Rightarrow> ipv4 option" where
  "parse_ipv4 s =
     (case map parse_octet (split_on (CHR ''.'') s) of
        [Some a, Some b, Some c, Some d] \<Rightarrow> Some (Ipv4 a b c d)
      | _ \<Rightarrow> None)"

section \<open>Lemmas\<close>

lemma dec_leading: "hd (dec n) = digit 0 \<longleftrightarrow> n = 0"
proof (induction n rule: dec.induct)
  case (1 n)
  show ?case
  proof (cases "n < 10")
    case True
    then show ?thesis
      by (subst dec.simps) (auto dest: digit_inj [of n 0])
  next
    case False
    then have "dec n = dec (n div 10) @ [digit (n mod 10)]"
      by (subst dec.simps) simp
    with 1 False show ?thesis by simp
  qed
qed

lemma length_dec_small: "n < 1000 \<Longrightarrow> length (dec n) \<le> 3"
  by (simp add: dec.simps [of n] dec.simps [of "n div 10"] dec.simps [of "n div 10 div 10"])

lemma length_dec_gt_1: "length (dec n) > 1 \<Longrightarrow> n \<ge> 10"
  by (rule ccontr) (simp add: dec.simps [of n])

interpretation octet_codec: text_codec "show_word :: u8 \<Rightarrow> string" parse_octet "CHR ''.''"
proof unfold_locales
  fix x :: u8
  have lt: "unat x < 256"
    using unsigned_less [of x] by simp
  moreover have "length (dec (unat x)) > 1 \<longrightarrow> hd (dec (unat x)) \<noteq> CHR ''0''"
    using dec_leading [of "unat x"] length_dec_gt_1 [of "unat x"] by auto
  moreover have "length (dec (unat x)) \<le> 3"
    using lt by (intro length_dec_small) simp
  ultimately show "parse_octet (show_word x) = Some x"
    by (simp add: parse_octet_def show_word_def dec_digits)
  show "CHR ''.'' \<notin> set (show_word x)"
    by (auto simp: show_word_def is_digit_def dest: digit_not_special)
qed

lemma parse_show_ipv4 [simp]: "parse_ipv4 (show_ipv4 a) = Some a"
  using octet_codec.split_shw [of "octets a"]
  by (cases a) (simp add: parse_ipv4_def show_ipv4_def octet_codec.prs_shw)

lemma show_ipv4_inj: "show_ipv4 a = show_ipv4 b \<longleftrightarrow> a = b"
  by (metis option.inject parse_show_ipv4)

lemma bit_u8_beyond: "8 \<le> n \<Longrightarrow> \<not> bit (x :: u8) n"
  by (auto dest: bit_imp_le_length)

lemma of_bits_to_bits [simp]: "of_bits (to_bits a) = a"
  by (cases a) (auto simp: of_bits_def bit_simps bit_u8_beyond intro!: bit_word_eqI)

lemma to_bits_of_bits [simp]: "to_bits (of_bits w) = w"
proof (rule bit_word_eqI)
  fix n
  assume "n < LENGTH(32)"
  then consider "n < 8" | "8 \<le> n" "n < 16" | "16 \<le> n" "n < 24" | "24 \<le> n" "n < 32"
    by fastforce
  then show "bit (to_bits (of_bits w)) n = bit w n"
    by cases (auto simp: of_bits_def bit_simps)
qed

lemma to_bits_inj: "to_bits a = to_bits b \<longleftrightarrow> a = b"
  by (metis of_bits_to_bits)

lemma digit_char: "c \<in> set (show_word w) \<Longrightarrow> is_digit c"
  by (auto simp: show_word_def dest: digit_not_special)

lemma hex_char: "c \<in> set (hex n) \<Longrightarrow> is_digit c \<or> 97 \<le> (of_char c :: nat)"
proof (induction n rule: hex.induct)
  case (1 n)
  have d: "is_digit (hex_digit d) \<or> 97 \<le> (of_char (hex_digit d) :: nat)" if "d < 16" for d
    using that by (auto simp: hex_digit_def is_digit_def)
  show ?case
  proof (cases "n < 16")
    case True
    with 1 d show ?thesis by (simp add: hex.simps [of n])
  next
    case False
    with 1 d [of "n mod 16"] show ?thesis by (auto simp: hex.simps [of n])
  qed
qed

lemma show_ipv4_char: "c \<in> set (show_ipv4 a) \<Longrightarrow> is_digit c \<or> c = CHR ''.''"
  using set_join [of "''.''" "map show_word (octets a)"]
  by (cases a) (auto simp: show_ipv4_def dest: digit_char)

lemma hex_groups_char:
  "c \<in> set (join '':'' (map (\<lambda>s. hex (unat (s :: u16))) xs)) \<Longrightarrow>
   c = CHR '':'' \<or> is_digit c \<or> 97 \<le> (of_char c :: nat)"
  using set_join [of "'':''" "map (\<lambda>s. hex (unat s)) xs"] by (auto dest: hex_char)

lemma nl_show_ip [simp]: "CHR 0x0A \<notin> set (show_ip a)"
proof (cases a)
  case (V4 v)
  then show ?thesis by (auto simp: is_digit_def dest: show_ipv4_char)
next
  case (V6 w)
  then show ?thesis
    by (auto simp: show_ipv6_def Let_def is_digit_def split: prod.splits if_splits
        dest!: show_ipv4_char hex_groups_char)
qed

lemma nl_show_word [simp]: "CHR 0x0A \<notin> set (show_word w)"
  by (auto simp: is_digit_def dest: digit_char)

section \<open>Addresses are determined by their text\<close>

text \<open>The digits and groups of an IPv6 address.\<close>

lemma hex_digit_inj: "a < 16 \<Longrightarrow> b < 16 \<Longrightarrow> hex_digit a = hex_digit b \<longleftrightarrow> a = b"
  by (auto simp: hex_digit_def split: if_splits dest!: arg_cong [where f = "of_char :: char \<Rightarrow> nat"])

lemma hex_ne [simp]: "hex n \<noteq> []" "[] \<noteq> hex n"
  by (simp_all add: hex.simps [of n])

lemma hex_inj: "hex m = hex n \<longleftrightarrow> m = n"
proof (induction m arbitrary: n rule: hex.induct)
  case (1 m)
  have one: "hex k = [hex_digit k]" if "k < 16" for k
    using that by (subst hex.simps) simp
  have more: "hex k = hex (k div 16) @ [hex_digit (k mod 16)]" if "\<not> k < 16" for k
    using that by (subst hex.simps) simp
  show ?case
  proof (cases "m < 16"; cases "n < 16")
    assume "m < 16" "n < 16"
    then show ?thesis by (simp add: one hex_digit_inj)
  next
    assume "\<not> m < 16" "\<not> n < 16"
    moreover have "m div 16 = n div 16 \<and> m mod 16 = n mod 16 \<longleftrightarrow> m = n"
      by (metis div_mult_mod_eq)
    ultimately show ?thesis
      using 1 by (simp add: more hex_digit_inj)
  qed (auto simp: one more)
qed

lemma length_segments [simp]: "length (segments w) = 8"
  by (simp add: segments_def)

lemma bit_segments:
  assumes "n < 128"
  shows "bit (segments w ! (7 - n div 16)) (n mod 16) = bit w n"
proof -
  have "112 - 16 * (7 - n div 16) + n mod 16 = n"
    using assms by (simp add: diff_mult_distrib2)
  moreover have "[0..<8] ! (7 - n div 16) = 7 - n div 16"
    using nth_upt [of 0 "7 - n div 16" 8] by simp
  ultimately show ?thesis
    by (simp add: segments_def bit_simps del: upt_rec_numeral)
qed

lemma segments_inj: "segments v = segments w \<longleftrightarrow> v = w"
  using bit_segments [of _ v] bit_segments [of _ w]
  by (auto intro!: bit_word_eqI)

text \<open>The run that is left out consists of zeros.\<close>

definition zero_run :: "u16 list \<Rightarrow> nat \<times> nat \<Rightarrow> bool" where
  "zero_run xs r \<longleftrightarrow> fst r + snd r \<le> length xs \<and> (\<forall>k. fst r \<le> k \<longrightarrow> k < fst r + snd r \<longrightarrow> xs ! k = 0)"

lemma zero_run_span:
  assumes "drop i xs = ss" and "zero_run xs cur" and "snd cur = 0 \<or> fst cur + snd cur = i"
    and "zero_run xs best"
  shows "zero_run xs (zero_span i ss cur best)"
  using assms
proof (induction i ss cur best rule: zero_span.induct)
  case (2 i s ss st len best)
  have "i < length xs"
    using 2(3) by (metis drop_eq_Nil list.discI not_le)
  with 2(3) have i: "i < length xs" "xs ! i = s" "drop (i + 1) xs = ss"
    using Cons_nth_drop_Suc [of i xs] by simp_all
  show ?case
  proof (cases "s = 0")
    case True
    let ?cur = "(if len = 0 then i else st, len + 1)"
    have "zero_run xs ?cur"
      using 2(4,5) i True by (auto simp: zero_run_def less_Suc_eq)
    with 2(1) [OF True refl i(3)] 2(5,6) True show ?thesis
      by (auto simp: Let_def)
  next
    case False
    with 2(2) [OF False i(3)] 2(6) show ?thesis
      by (simp add: zero_run_def)
  qed
qed simp

lemma zero_run_split:
  assumes "zero_run xs (st, len)"
  shows "xs = take st xs @ replicate len 0 @ drop (st + len) xs"
proof -
  have "take len (drop st xs) = replicate len 0"
    using assms by (auto simp: zero_run_def intro!: nth_equalityI)
  then show ?thesis
    by (metis add.commute append_take_drop_id drop_drop)
qed

text \<open>Reading the groups back from the text.\<close>

definition expand :: "string list \<Rightarrow> string list" where
  "expand gs =
     (if [] \<in> set gs then
        let pre = takeWhile (\<lambda>g. g \<noteq> []) gs; post = rev (takeWhile (\<lambda>g. g \<noteq> []) (rev gs))
        in pre @ replicate (8 - length pre - length post) (hex 0) @ post
      else gs)"

abbreviation hexes :: "u16 list \<Rightarrow> string list" where
  "hexes xs \<equiv> map (\<lambda>s. hex (unat s)) xs"

lemma split_on_sep: "c \<notin> set s \<Longrightarrow> split_on c (s @ c # t) = s # split_on c t"
  unfolding split_on_def by (rule split_by_append_sep) auto

lemma split_on_join_sep:
  assumes "\<forall>x \<in> set xs. c \<notin> set x"
  shows "split_on c (join [c] xs @ c # t) = (if xs = [] then [[]] else xs) @ split_on c t"
  using assms
  by (induction "[c]" xs rule: join.induct) (simp_all add: split_on_sep split_on_sep [of c "[]", simplified])

lemma split_on_sep_Cons: "split_on c (c # t) = [] # split_on c t"
  using split_on_sep [of c "[]"] by simp

lemma split_on_join_any:
  "\<forall>x \<in> set xs. c \<notin> set x \<Longrightarrow> split_on c (join [c] xs) = (if xs = [] then [[]] else xs)"
  by (simp add: split_on_join) (simp add: split_on_def)

lemma colon_hexes: "\<forall>x \<in> set (hexes xs). CHR '':'' \<notin> set x"
  by (auto simp: is_digit_def dest: hex_char)

lemma hexes_inj: "hexes xs = hexes ys \<longleftrightarrow> xs = ys"
proof -
  have "inj (\<lambda>s :: u16. hex (unat s))"
    by (auto simp: inj_def hex_inj intro: unsigned_word_eqI)
  then show ?thesis
    by (rule inj_map_eq_map)
qed

lemma expand_hexes: "expand (hexes xs) = hexes xs"
  by (auto simp: expand_def)

lemma expand_gap:
  "expand ((if xs = [] then [[]] else hexes xs) @ [] # (if ys = [] then [[]] else hexes ys)) =
   hexes xs @ replicate (8 - length xs - length ys) (hex 0) @ hexes ys"
proof -
  have tw: "takeWhile (\<lambda>g. g \<noteq> []) (hexes zs @ [] # us) = hexes zs" for zs us
    by (induction zs) simp_all
  let ?L = "\<lambda>zs. if zs = [] then [[]] else hexes zs"
  have "takeWhile (\<lambda>g. g \<noteq> []) (?L zs @ [] # us) = hexes zs" for zs us
    using tw by simp
  moreover from this [of "rev ys" "rev (?L xs)"] have "takeWhile (\<lambda>g. g \<noteq> []) (rev (?L xs @ [] # ?L ys)) = rev (hexes ys)"
    by (simp add: rev_map split: if_splits)
  ultimately show ?thesis
    unfolding expand_def Let_def by simp
qed

lemma expand_show_ipv6:
  assumes "take 6 (segments w) \<noteq> [0, 0, 0, 0, 0, 0xffff]"
  shows "expand (split_on (CHR '':'') (show_ipv6 w)) = hexes (segments w)"
proof -
  obtain st len where span: "zero_span 0 (segments w) (0, 0) (0, 0) = (st, len)"
    by (cases "zero_span 0 (segments w) (0, 0) (0, 0)")
  have run: "zero_run (segments w) (st, len)"
    using zero_run_span [of 0 "segments w" "segments w" "(0, 0)" "(0, 0)"] span
    by (simp add: zero_run_def)
  show ?thesis
  proof (cases "len > 1")
    case True
    let ?pre = "take st (segments w)" and ?post = "drop (st + len) (segments w)"
    have "length ?pre = st" "length ?post = 8 - (st + len)" "st + len \<le> 8"
      using run by (auto simp: zero_run_def)
    then have n: "8 - length ?pre - length ?post = len"
      by linarith
    have "split_on (CHR '':'') (show_ipv6 w) =
        (if ?pre = [] then [[]] else hexes ?pre) @ [] # (if ?post = [] then [[]] else hexes ?post)"
      using assms span True
      by (simp only: show_ipv6_def Let_def if_False prod.case if_True append.simps
          split_on_join_sep [OF colon_hexes] split_on_sep_Cons split_on_join_any [OF colon_hexes] map_is_Nil_conv)
    then have "expand (split_on (CHR '':'') (show_ipv6 w)) = hexes ?pre @ replicate len (hex 0) @ hexes ?post"
      by (simp only: expand_gap n)
    also have "\<dots> = hexes (?pre @ replicate len 0 @ ?post)"
      by simp
    finally show ?thesis
      using zero_run_split [OF run] by simp
  next
    case False
    then show ?thesis
      using assms span split_on_join [OF _ colon_hexes, of "segments w"]
      by (auto simp: show_ipv6_def Let_def expand_hexes simp flip: length_0_conv)
  qed
qed

lemma mapped_determined:
  assumes "take 6 (segments v) = take 6 (segments w)" and "(ucast v :: u32) = ucast w"
  shows "v = w"
proof (rule bit_word_eqI)
  fix n
  assume n: "n < LENGTH(128)"
  show "bit v n = bit w n"
  proof (cases "n < 32")
    case True
    have "bit (ucast v :: u32) n = bit (ucast w :: u32) n"
      using assms(2) by simp
    with True show ?thesis
      by (simp add: bit_simps)
  next
    case False
    then have "7 - n div 16 < 6"
      by auto
    then have "segments v ! (7 - n div 16) = segments w ! (7 - n div 16)"
      using assms(1) by (metis nth_take)
    with bit_segments [of n v] bit_segments [of n w] n show ?thesis
      by simp
  qed
qed

lemma dot_free: "CHR ''.'' \<notin> set (join '':'' (hexes xs))"
  by (auto simp: is_digit_def dest: hex_groups_char)

lemma dot_show_ipv6: "CHR ''.'' \<in> set (show_ipv6 w) \<longleftrightarrow> take 6 (segments w) = [0, 0, 0, 0, 0, 0xffff]"
proof -
  have "CHR ''.'' \<in> set (show_ipv4 a)" for a
    by (cases a) (simp add: show_ipv4_def)
  then show ?thesis
    using dot_free by (auto simp: show_ipv6_def Let_def split: prod.splits)
qed

lemma show_ipv6_inj: "show_ipv6 v = show_ipv6 w \<longleftrightarrow> v = w"
proof
  assume eq: "show_ipv6 v = show_ipv6 w"
  then have same: "take 6 (segments v) = [0, 0, 0, 0, 0, 0xffff] \<longleftrightarrow>
      take 6 (segments w) = [0, 0, 0, 0, 0, 0xffff]"
    by (metis dot_show_ipv6)
  show "v = w"
  proof (cases "take 6 (segments w) = [0, 0, 0, 0, 0, 0xffff]")
    case True
    with eq same have "(ucast v :: u32) = ucast w"
      by (simp add: show_ipv6_def show_ipv4_inj) (metis to_bits_of_bits)
    with True same show ?thesis
      by (intro mapped_determined) simp_all
  next
    case False
    with eq same have "hexes (segments v) = hexes (segments w)"
      by (metis expand_show_ipv6)
    then show ?thesis
      by (simp add: hexes_inj segments_inj)
  qed
qed simp

lemma colon_join: "2 \<le> length xs \<Longrightarrow> CHR '':'' \<in> set (join '':'' xs)"
  by (cases "('':'', xs)" rule: join.cases) simp_all

lemma colon_show_ipv6: "CHR '':'' \<in> set (show_ipv6 w)"
  using colon_join [of "hexes (segments w)"]
  by (cases "zero_span 0 (segments w) (0, 0) (0, 0)") (auto simp: show_ipv6_def Let_def)

lemma show_ip_inj: "show_ip a = show_ip b \<longleftrightarrow> a = b"
proof -
  have "show_ipv4 x \<noteq> show_ipv6 w" for x w
    using colon_show_ipv6 [of w] show_ipv4_char [of "CHR '':''" x] by (auto simp: is_digit_def)
  then show ?thesis
    by (cases a; cases b) (auto simp: show_ipv4_inj show_ipv6_inj dest: sym)
qed

lemma slash_show_ip: "CHR ''/'' \<notin> set (show_ip a)"
proof (cases a)
  case (V4 v)
  then show ?thesis by (auto simp: is_digit_def dest: show_ipv4_char)
next
  case (V6 w)
  then show ?thesis
    by (auto simp: show_ipv6_def Let_def is_digit_def split: prod.splits if_splits
        dest!: show_ipv4_char hex_groups_char)
qed

end
