(* ===== verification/Effects.thy ===== *)
theory Effects
  imports Net
begin

text \<open>
  The outside world as the program sees it. A program is a state transformer over
  \<^term>\<open>world\<close>: a monotonic clock, the file system, the process environment and the trace of every
  external action so far. What an external action answers is decided by the environment
  record \<open>env\<close>, which every definition takes as its argument \<open>E\<close>: processes, sockets, the SQLite
  database, the idps crates and the JSON library (third-party code) are parameters, and their
  answers may depend on the whole history. Other processes may change files at every action
  (\<open>meddle\<close>) and every action may take time (\<open>latency\<close>), so concurrency of the daemon under
  test and of background workers is inside the model.

  Only what \<open>std\<close> documents is built in: \<open>Instant\<close> never goes back, \<open>thread::sleep\<close> sleeps at
  least as long as asked, a successful write is visible to the next read of the same process
  unless another process interferes. Time is counted in nanoseconds.
\<close>

section \<open>Data on the wire\<close>

text \<open>\<open>target::FwEvent\<close>, a row of the \<open>firewall_event\<close> table as the orchestrator reads it.\<close>

record FwEvent =
  event_id :: string
  event_time_ms :: int
  event_type :: string
  ev_action :: string
  src_ip :: string
  src_port :: int
  dst_ip :: string
  dst_port :: int
  ev_proto :: string
  ev_rule_id :: "int option"
  ev_detail :: string
  report_state :: string

text \<open>\<open>target::FwReport\<close>, a row of the report outbox; the payload is a JSON value.\<close>

record 'j FwReport =
  report_type :: string
  payload :: 'j
  created_at_ms :: int

text \<open>\<open>peer::TrafficOutcome\<close>, what the traffic worker prints.\<close>

record TrafficOutcome =
  verdict :: string
  to_success :: u32
  to_timeout :: u32
  to_refused :: u32
  to_denied :: u32
  to_sent :: u32
  to_other :: u32

text \<open>The columns that the SQL statements of the worker select.\<close>

record event_row =
  er_event_id :: string
  er_event_time_ms :: int
  er_event_type :: string
  er_action :: string
  er_app_id :: "int option"
  er_ifindex :: "int option"
  er_src_ip :: string
  er_src_port :: int
  er_dst_ip :: string
  er_dst_port :: int
  er_proto :: string
  er_rule_id :: "int option"
  er_detail :: string
  er_report_state :: string

record report_row =
  rr_report_id :: string
  rr_report_type :: string
  rr_payload :: string
  rr_created_at_ms :: int

record outbox_row =
  or_state :: string
  or_count :: int
  or_max_retry :: "int option"
  or_last_error :: "string option"

text \<open>What the idps crates hand to the depot writer.\<close>

record idps_config =
  depot_path :: string
  default_rules_path :: string
  ic_aes_key :: string
  ic_aes_iv :: string

record RuleMetadata =
  rm_ver :: int
  rm_rule_ver :: int
  rm_prot_ver :: int
  rm_major_ver :: int
  rm_minor_ver :: int
  rm_sha256 :: string
  rm_sign :: string

section \<open>Actions\<close>

datatype io_kind =
  TimedOut | WouldBlock | ConnectionRefused | PermissionDenied | NotFound | OtherKind

datatype io_error = IoError (kind: io_kind) (io_msg: string)

record proc_output =
  status_code :: "int option"
  stdout :: string
  stderr :: string

text \<open>Socket, packet and credential calls of the worker.\<close>

datatype (plugins only: code size) sys_call =
    TcpSocket bool
  | SetReuseAddress
  | TcpBind ipaddr u16
  | ConnectTimeout ipaddr u16 nat
  | UdpBind ipaddr u16
  | UdpConnect ipaddr u16
  | UdpSend "u8 list"
  | SetReadTimeout nat
  | UdpRecv
  | RawIcmpSocket
  | RawTcpSocket
  | RawSendTo "u8 list" ipaddr
  | RawRecv
  | LocalAddr
  | IfNameToIndex string
  | DgramSocket
  | IfHwAddr string
  | PacketSocket
  | PacketSend "u8 list" nat
  | CloseFd
  | TcpListen u16
  | SetNonblocking
  | TcpAccept
  | StreamRead
  | StreamWrite "u8 list"
  | UdpListen u16
  | UdpRecvFrom
  | UdpSendTo "u8 list"
  | TcpConnectHold ipaddr u16 nat
  | SetGroups
  | SetGid u32
  | SetUid u32

datatype (plugins only: code size) action =
    Println string
  | Eprintln string
  | Spawn "string list" bool
  | WaitOutput nat
  | Kill nat
  | Output "string list"
  | Sleep nat
  | InstantNow
  | SystemTimeNow
  | CurrentExe
  | FsExists string
  | FsRead string
  | FsWrite string string
  | FsCopy string string
  | FsRemove string
  | FsCreateDirAll string
  | DbOpen string
  | DbPrepare string
  | DbQuery string int "string option"
  | IdpsLoadConfig string
  | IdpsDeviceInfo
  | IdpsKeystore string
  | IdpsResolveKeys string string
  | IdpsDepotOpen string string "string option" string string
  | IdpsLoadMetadata int int int
  | IdpsSaveRule int int string RuleMetadata
  | Sys sys_call

record world =
  clock :: nat
  files :: "string \<rightharpoonup> string"
  vars :: "string \<rightharpoonup> string"
  trace :: "action list"

section \<open>The environment\<close>

text \<open>Answers of the operating system.\<close>

record os =
  ans_unit :: "world \<Rightarrow> action \<Rightarrow> io_error + unit"
  ans_child :: "world \<Rightarrow> action \<Rightarrow> io_error + nat"
  ans_output :: "world \<Rightarrow> action \<Rightarrow> io_error + proc_output"
  ans_text :: "world \<Rightarrow> action \<Rightarrow> io_error + string"
  ans_bytes :: "world \<Rightarrow> action \<Rightarrow> io_error + u8 list"
  ans_addr :: "world \<Rightarrow> action \<Rightarrow> io_error + ipaddr"
  ans_int :: "world \<Rightarrow> action \<Rightarrow> int"
  process_id :: u32
  latency :: "world \<Rightarrow> action \<Rightarrow> nat"
  meddle :: "world \<Rightarrow> action \<Rightarrow> (string \<rightharpoonup> string)"

text \<open>\<open>rusqlite\<close> over the daemon's state database.\<close>

record sql =
  db_unit :: "world \<Rightarrow> action \<Rightarrow> unit res"
  db_events :: "world \<Rightarrow> action \<Rightarrow> (event_row res) list res"
  db_reports :: "world \<Rightarrow> action \<Rightarrow> (report_row res) list res"
  db_outbox :: "world \<Rightarrow> action \<Rightarrow> (outbox_row res) list res"

text \<open>\<open>idps-core\<close> and \<open>idps-server\<close>: configuration, key derivation and the rule depot.\<close>

record idps =
  idps_config :: "world \<Rightarrow> action \<Rightarrow> idps_config res"
  idps_device :: "world \<Rightarrow> action \<Rightarrow> (string \<times> string) res"
  idps_unit :: "world \<Rightarrow> action \<Rightarrow> unit res"
  idps_key :: "world \<Rightarrow> action \<Rightarrow> string option res"
  idps_metadata :: "world \<Rightarrow> action \<Rightarrow> RuleMetadata res"
  idps_default_metadata :: RuleMetadata
  idps_sha256_hex :: "string \<Rightarrow> string"

text \<open>\<open>serde_json\<close> over an abstract type of JSON values, and the derived deserialisers.\<close>

record 'j serde =
  j_parse :: "string \<Rightarrow> 'j res"
  j_parse_string :: "string \<Rightarrow> string res"
  j_get :: "'j \<Rightarrow> string \<Rightarrow> 'j option"
  j_as_i64 :: "'j \<Rightarrow> int option"
  j_as_u64 :: "'j \<Rightarrow> nat option"
  j_as_bool :: "'j \<Rightarrow> bool option"
  j_as_str :: "'j \<Rightarrow> string option"
  j_as_array :: "'j \<Rightarrow> 'j list option"
  j_null :: 'j
  j_bool :: "bool \<Rightarrow> 'j"
  j_int :: "int \<Rightarrow> 'j"
  j_str :: "string \<Rightarrow> 'j"
  j_arr :: "'j list \<Rightarrow> 'j"
  j_obj :: "(string \<times> 'j) list \<Rightarrow> 'j"
  j_show :: "'j \<Rightarrow> string"
  j_pretty :: "'j \<Rightarrow> string res"
  de_outcome :: "'j \<Rightarrow> TrafficOutcome res"
  de_events :: "'j \<Rightarrow> FwEvent list res"
  de_reports :: "'j \<Rightarrow> 'j FwReport list res"

record 'j env =
  os :: os
  sql :: sql
  idps :: idps
  json :: "'j serde"

section \<open>Programs\<close>

type_synonym 'a io = "(world, 'a) state"

abbreviation ret :: "'a \<Rightarrow> 'a io" where
  "ret \<equiv> State_Monad.return"

text \<open>The question mark operator: the rest runs only on success.\<close>

definition and_then :: "'a res io \<Rightarrow> ('a \<Rightarrow> 'b res io) \<Rightarrow> 'b res io" where
  "and_then m f =
     do { r \<leftarrow> m; (case r of Inl e \<Rightarrow> ret (Inl e) | Inr x \<Rightarrow> f x) }"

definition map_res :: "('a \<Rightarrow> 'b) \<Rightarrow> 'a io \<Rightarrow> 'b io" where
  "map_res f m = do { r \<leftarrow> m; ret (f r) }"

abbreviation ctx :: "string \<Rightarrow> 'a res io \<Rightarrow> 'a res io" where
  "ctx msg \<equiv> map_res (with_context msg)"

text \<open>An \<open>io::Error\<close> becomes an error chain of one message.\<close>

definition lift_io :: "io_error + 'a \<Rightarrow> 'a res" where
  "lift_io r = (case r of Inl e \<Rightarrow> Inl [io_msg e] | Inr x \<Rightarrow> Inr x)"

lemma lift_io_simps [simp]:
  "lift_io (Inr x) = Inr x" "lift_io (Inl e) = Inl [io_msg e]"
  by (simp_all add: lift_io_def)

fun pause :: "action \<Rightarrow> nat" where
  "pause (Sleep ms) = ms * 1000000"
| "pause _ = 0"

definition step :: "'j env \<Rightarrow> action \<Rightarrow> world \<Rightarrow> world" where
  "step E a w =
     w\<lparr>clock := clock w + pause a + latency (os E) w a, files := meddle (os E) w a,
       trace := trace w @ [a]\<rparr>"

definition perform :: "'j env \<Rightarrow> action \<Rightarrow> (world \<Rightarrow> 'a) \<Rightarrow> 'a io" where
  "perform E a ans = State (\<lambda>w. (ans w, step E a w))"

section \<open>Primitive operations\<close>

definition println :: "'j env \<Rightarrow> string \<Rightarrow> unit io" where
  "println E s = perform E (Println s) (\<lambda>_. ())"

definition eprintln :: "'j env \<Rightarrow> string \<Rightarrow> unit io" where
  "eprintln E s = perform E (Eprintln s) (\<lambda>_. ())"

definition sleep :: "'j env \<Rightarrow> nat \<Rightarrow> unit io" where
  "sleep E ms = perform E (Sleep ms) (\<lambda>_. ())"

definition instant_now :: "'j env \<Rightarrow> nat io" where
  "instant_now E = perform E InstantNow clock"

text \<open>\<open>Command::spawn\<close> with null or piped stdio.\<close>

definition spawn :: "'j env \<Rightarrow> string list \<Rightarrow> bool \<Rightarrow> (io_error + nat) io" where
  "spawn E argv background =
     perform E (Spawn argv background) (\<lambda>w. ans_child (os E) w (Spawn argv background))"

definition wait_with_output :: "'j env \<Rightarrow> nat \<Rightarrow> (io_error + proc_output) io" where
  "wait_with_output E child =
     perform E (WaitOutput child) (\<lambda>w. ans_output (os E) w (WaitOutput child))"

definition kill :: "'j env \<Rightarrow> nat \<Rightarrow> (io_error + unit) io" where
  "kill E child = perform E (Kill child) (\<lambda>w. ans_unit (os E) w (Kill child))"

text \<open>\<open>Command::output\<close>: spawn and wait in one call.\<close>

definition command_output :: "'j env \<Rightarrow> string list \<Rightarrow> (io_error + proc_output) io" where
  "command_output E argv = perform E (Output argv) (\<lambda>w. ans_output (os E) w (Output argv))"

definition success :: "proc_output \<Rightarrow> bool" where
  "success out = (status_code out = Some 0)"

definition sys_unit :: "'j env \<Rightarrow> sys_call \<Rightarrow> (io_error + unit) io" where
  "sys_unit E c = perform E (Sys c) (\<lambda>w. ans_unit (os E) w (Sys c))"

definition sys_bytes :: "'j env \<Rightarrow> sys_call \<Rightarrow> (io_error + u8 list) io" where
  "sys_bytes E c = perform E (Sys c) (\<lambda>w. ans_bytes (os E) w (Sys c))"

definition sys_int :: "'j env \<Rightarrow> sys_call \<Rightarrow> int io" where
  "sys_int E c = perform E (Sys c) (\<lambda>w. ans_int (os E) w (Sys c))"

definition sys_addr :: "'j env \<Rightarrow> sys_call \<Rightarrow> (io_error + ipaddr) io" where
  "sys_addr E c = perform E (Sys c) (\<lambda>w. ans_addr (os E) w (Sys c))"

text \<open>Files: a successful operation is visible afterwards.\<close>

definition path_exists :: "'j env \<Rightarrow> string \<Rightarrow> bool io" where
  "path_exists E p = perform E (FsExists p) (\<lambda>w. files w p \<noteq> None)"

definition read_to_string :: "'j env \<Rightarrow> string \<Rightarrow> (io_error + string) io" where
  "read_to_string E p =
     perform E (FsRead p)
       (\<lambda>w. case ans_unit (os E) w (FsRead p) of
              Inl e \<Rightarrow> Inl e
            | Inr _ \<Rightarrow> (case files w p of
                          None \<Rightarrow> Inl (IoError NotFound ''No such file or directory'')
                        | Some c \<Rightarrow> Inr c))"

definition fs_write :: "'j env \<Rightarrow> string \<Rightarrow> string \<Rightarrow> (io_error + unit) io" where
  "fs_write E p content =
     State (\<lambda>w. let w' = step E (FsWrite p content) w in
       case ans_unit (os E) w (FsWrite p content) of
         Inl e \<Rightarrow> (Inl e, w')
       | Inr _ \<Rightarrow> (Inr (), w'\<lparr>files := (files w')(p \<mapsto> content)\<rparr>))"

definition fs_copy :: "'j env \<Rightarrow> string \<Rightarrow> string \<Rightarrow> (io_error + unit) io" where
  "fs_copy E from_p to_p =
     State (\<lambda>w. let w' = step E (FsCopy from_p to_p) w in
       case files w from_p of
         None \<Rightarrow> (Inl (IoError NotFound ''No such file or directory''), w')
       | Some content \<Rightarrow>
           (case ans_unit (os E) w (FsCopy from_p to_p) of
              Inl e \<Rightarrow> (Inl e, w')
            | Inr _ \<Rightarrow> (Inr (), w'\<lparr>files := (files w')(to_p \<mapsto> content)\<rparr>)))"

definition fs_remove :: "'j env \<Rightarrow> string \<Rightarrow> (io_error + unit) io" where
  "fs_remove E p =
     State (\<lambda>w. let w' = step E (FsRemove p) w in
       case files w p of
         None \<Rightarrow> (Inl (IoError NotFound ''No such file or directory''), w')
       | Some _ \<Rightarrow>
           (case ans_unit (os E) w (FsRemove p) of
              Inl e \<Rightarrow> (Inl e, w')
            | Inr _ \<Rightarrow> (Inr (), w'\<lparr>files := (files w')(p := None)\<rparr>)))"

definition create_dir_all :: "'j env \<Rightarrow> string \<Rightarrow> (io_error + unit) io" where
  "create_dir_all E p =
     perform E (FsCreateDirAll p) (\<lambda>w. ans_unit (os E) w (FsCreateDirAll p))"

section \<open>Time and history\<close>

text \<open>Every program moves forward: the clock does not go back and the trace only grows.\<close>

definition later :: "world \<Rightarrow> world \<Rightarrow> bool" where
  "later w w' \<longleftrightarrow> clock w \<le> clock w' \<and> prefix (trace w) (trace w')"

definition steady :: "'a io \<Rightarrow> bool" where
  "steady m \<longleftrightarrow> (\<forall>w. later w (snd (run_state m w)))"

lemma later_refl [simp]: "later w w"
  by (simp add: later_def)

lemma later_trans [trans]: "later u v \<Longrightarrow> later v w \<Longrightarrow> later u w"
  by (auto simp: later_def)

lemma later_clock: "later w w' \<Longrightarrow> clock w \<le> clock w'"
  by (simp add: later_def)

lemma later_trace: "later w w' \<Longrightarrow> prefix (trace w) (trace w')"
  by (simp add: later_def)

lemma later_step [simp]: "later w (step E a w)"
  by (simp add: later_def step_def)

lemma later_files [simp]: "later w (w'\<lparr>files := f\<rparr>) = later w w'"
  by (simp add: later_def)

lemma later_vars [simp]: "later w (w'\<lparr>vars := f\<rparr>) = later w w'"
  by (simp add: later_def)

lemma steadyD: "steady m \<Longrightarrow> run_state m w = (x, w') \<Longrightarrow> later w w'"
  by (metis snd_conv steady_def)

lemma steadyI: "(\<And>w x w'. run_state m w = (x, w') \<Longrightarrow> later w w') \<Longrightarrow> steady m"
  unfolding steady_def by (metis prod.collapse)

lemma steady_return [later_intros]: "steady (ret x)"
  by (simp add: steady_def)

lemma steady_bind [later_intros]:
  assumes "steady m" and "\<And>x. steady (f x)"
  shows "steady (State_Monad.bind m f)"
proof (rule steadyI)
  fix w y w2
  assume "run_state (State_Monad.bind m f) w = (y, w2)"
  then obtain x w1 where "run_state m w = (x, w1)" and "run_state (f x) w1 = (y, w2)"
    by (auto split: prod.splits)
  with assms show "later w w2"
    by (meson later_trans steadyD)
qed

lemma steady_perform [later_intros]: "steady (perform E a ans)"
  by (simp add: steady_def perform_def)

lemma steady_if [later_intros]: "steady m \<Longrightarrow> steady n \<Longrightarrow> steady (if b then m else n)"
  by simp

lemma steady_case_sum [later_intros]:
  "(\<And>e. steady (f e)) \<Longrightarrow> (\<And>x. steady (g x)) \<Longrightarrow> steady (case r of Inl e \<Rightarrow> f e | Inr x \<Rightarrow> g x)"
  by (cases r) auto

lemma steady_case_option [later_intros]:
  "steady m \<Longrightarrow> (\<And>x. steady (f x)) \<Longrightarrow> steady (case r of None \<Rightarrow> m | Some x \<Rightarrow> f x)"
  by (cases r) auto

lemma steady_case_prod [later_intros]:
  "(\<And>x y. steady (f x y)) \<Longrightarrow> steady (case p of (x, y) \<Rightarrow> f x y)"
  by (cases p) auto

lemma steady_let [later_intros]: "(\<And>x. steady (f x)) \<Longrightarrow> steady (let x = t in f x)"
  by simp

lemma steady_and_then [later_intros]:
  "steady m \<Longrightarrow> (\<And>x. steady (f x)) \<Longrightarrow> steady (and_then m f)"
  unfolding and_then_def by (intro later_intros)

lemma steady_map_res [later_intros]: "steady m \<Longrightarrow> steady (map_res f m)"
  unfolding map_res_def by (intro later_intros)

lemma steady_primitives [later_intros]:
  "steady (println E s)" "steady (eprintln E s)" "steady (sleep E ms)" "steady (instant_now E)"
  "steady (spawn E argv bg)" "steady (wait_with_output E c)" "steady (kill E c)"
  "steady (command_output E argv)" "steady (path_exists E p)" "steady (read_to_string E p)"
  "steady (create_dir_all E p)" "steady (sys_unit E k)" "steady (sys_bytes E k)"
  "steady (sys_addr E k)" "steady (sys_int E k)"
  by (simp_all add: println_def eprintln_def sleep_def instant_now_def spawn_def
      wait_with_output_def kill_def command_output_def path_exists_def read_to_string_def
      create_dir_all_def sys_unit_def sys_bytes_def sys_addr_def sys_int_def
      steady_perform)

lemma steady_fs [later_intros]:
  "steady (fs_write E p c)" "steady (fs_copy E p q)" "steady (fs_remove E p)"
  by (auto simp: steady_def fs_write_def fs_copy_def fs_remove_def Let_def
      split: sum.splits option.splits)

lemma steady_traverse [later_intros]:
  "(\<And>x. steady (f x)) \<Longrightarrow> steady (State_Monad.traverse_list f xs)"
  by (induction xs) (auto intro!: later_intros)

section \<open>What a program returns\<close>

text \<open>A property of the returned value that holds from every world.\<close>

definition returns :: "'a io \<Rightarrow> ('a \<Rightarrow> bool) \<Rightarrow> bool" where
  "returns m P \<longleftrightarrow> (\<forall>w. P (fst (run_state m w)))"

named_theorems returns_intros \<open>rules for the returned value of a program\<close>

lemma returnsD: "returns m P \<Longrightarrow> run_state m w = (x, w') \<Longrightarrow> P x"
  by (metis fst_conv returns_def)

lemma returns_return [returns_intros]: "P x \<Longrightarrow> returns (ret x) P"
  by (simp add: returns_def)

lemma returns_bind_any [returns_intros]:
  "(\<And>x. returns (f x) P) \<Longrightarrow> returns (State_Monad.bind m f) P"
  by (auto simp: returns_def split: prod.splits)

lemma returns_bind:
  "returns m Q \<Longrightarrow> (\<And>x. Q x \<Longrightarrow> returns (f x) P) \<Longrightarrow> returns (State_Monad.bind m f) P"
  by (auto simp: returns_def split: prod.splits) (metis fst_conv)

lemma returns_mono: "returns m Q \<Longrightarrow> (\<And>x. Q x \<Longrightarrow> P x) \<Longrightarrow> returns m P"
  by (auto simp: returns_def)

lemma returns_case_sum [returns_intros]:
  "(\<And>e. r = Inl e \<Longrightarrow> returns (f e) P) \<Longrightarrow> (\<And>x. r = Inr x \<Longrightarrow> returns (g x) P) \<Longrightarrow>
   returns (case r of Inl e \<Rightarrow> f e | Inr x \<Rightarrow> g x) P"
  by (cases r) auto

lemma returns_case_option [returns_intros]:
  "(r = None \<Longrightarrow> returns m P) \<Longrightarrow> (\<And>x. r = Some x \<Longrightarrow> returns (f x) P) \<Longrightarrow>
   returns (case r of None \<Rightarrow> m | Some x \<Rightarrow> f x) P"
  by (cases r) auto

lemma returns_if [returns_intros]:
  "(b \<Longrightarrow> returns m P) \<Longrightarrow> (\<not> b \<Longrightarrow> returns n P) \<Longrightarrow> returns (if b then m else n) P"
  by simp

lemma returns_case_prod [returns_intros]:
  "(\<And>x y. p = (x, y) \<Longrightarrow> returns (f x y) P) \<Longrightarrow> returns (case p of (x, y) \<Rightarrow> f x y) P"
  by (cases p) auto

lemma returns_let [returns_intros]: "returns (f t) P \<Longrightarrow> returns (let x = t in f x) P"
  by simp

text \<open>One program per item: the results line up with the items.\<close>

lemma returns_traverse:
  assumes "\<And>x. returns (f x) (\<lambda>r. g r = h x)"
  shows "returns (State_Monad.traverse_list f xs) (\<lambda>rs. map g rs = map h xs)"
proof (induction xs)
  case (Cons x xs)
  show ?case
    unfolding State_Monad.traverse_list.simps
    by (intro returns_bind [OF assms] returns_bind [OF Cons.IH] returns_return) simp
qed (simp add: returns_def)

text \<open>A property of the value in case of success.\<close>

definition if_ok :: "('a \<Rightarrow> bool) \<Rightarrow> 'a res \<Rightarrow> bool" where
  "if_ok P r = (case r of Inl _ \<Rightarrow> True | Inr x \<Rightarrow> P x)"

lemma if_ok_simps [simp]: "if_ok P (Inl e)" "if_ok P (Inr x) = P x"
  by (simp_all add: if_ok_def)

lemma if_ok_triv [simp]: "if_ok (\<lambda>_. True) r"
  by (cases r) simp_all

lemma returns_triv: "returns m (if_ok (\<lambda>_. True))" "returns m (\<lambda>_. True)"
  by (simp_all add: returns_def)

lemma returns_and_then:
  assumes "returns m (if_ok Q)" and "\<And>x. Q x \<Longrightarrow> returns (f x) (if_ok P)"
  shows "returns (and_then m f) (if_ok P)"
  unfolding and_then_def
  by (rule returns_bind [OF assms(1)])
    (auto simp: returns_return split: sum.splits intro!: assms(2))

lemma returns_and_then_any:
  assumes "\<And>x. returns (f x) (if_ok P)"
  shows "returns (and_then m f) (if_ok P)"
  using returns_triv(1) by (rule returns_and_then) (rule assms)

lemma returns_map_res: "returns m (\<lambda>x. P (f x)) \<Longrightarrow> returns (map_res f m) P"
  by (auto simp: returns_def map_res_def split: prod.splits) (metis fst_conv)

lemma if_ok_map_sum [simp]: "if_ok P (map_sum g f r) = if_ok (\<lambda>x. P (f x)) r"
  by (cases r) simp_all

lemma if_ok_with_context [simp]: "if_ok P (with_context m r) = if_ok P r"
  by (cases r) simp_all

lemma run_and_then:
  "run_state (and_then m f) w =
     (case run_state m w of (Inl e, w') \<Rightarrow> (Inl e, w') | (Inr x, w') \<Rightarrow> run_state (f x) w')"
  by (auto simp: and_then_def split: prod.splits sum.splits)

lemma run_map_res:
  "run_state (map_res f m) w = (case run_state m w of (x, w') \<Rightarrow> (f x, w'))"
  by (auto simp: map_res_def split: prod.splits)

lemma run_perform [simp]: "run_state (perform E a ans) w = (ans w, step E a w)"
  by (simp add: perform_def)

lemma run_bind_later:
  assumes "run_state (State_Monad.bind m f) w = (r, w')" and "steady m"
  obtains x w1 where "run_state m w = (x, w1)" and "later w w1" and "run_state (f x) w1 = (r, w')"
  using assms by (auto split: prod.splits dest: steadyD)

lemma step_simps [simp]:
  "trace (step E a w) = trace w @ [a]" "vars (step E a w) = vars w"
  "clock (step E a w) = clock w + pause a + latency (os E) w a"
  "files (step E a w) = meddle (os E) w a"
  by (simp_all add: step_def)

lemmas run_io = run_and_then run_map_res sleep_def println_def eprintln_def instant_now_def
  spawn_def wait_with_output_def kill_def command_output_def path_exists_def read_to_string_def
  create_dir_all_def sys_unit_def sys_bytes_def sys_addr_def sys_int_def

section \<open>A concrete environment\<close>

text \<open>
  An environment for witnesses: every call succeeds, every action takes one nanosecond, nobody
  else touches the files, and JSON is a plain tree. Witnesses override single answers.
\<close>

definition demo_os :: os where
  "demo_os =
     \<lparr>ans_unit = \<lambda>_ _. Inr (), ans_child = \<lambda>_ _. Inr 7,
      ans_output = \<lambda>_ _. Inr \<lparr>status_code = Some 0, stdout = [], stderr = []\<rparr>,
      ans_text = \<lambda>_ _. Inr ''/usr/bin/fw-verify'', ans_bytes = \<lambda>_ _. Inr [],
      ans_addr = \<lambda>_ _. Inr (V4 (Ipv4 10 123 0 2)), ans_int = \<lambda>_ _. 1000000,
      process_id = 4242, latency = \<lambda>_ _. 1, meddle = \<lambda>w _. files w\<rparr>"

definition demo_sql :: sql where
  "demo_sql =
     \<lparr>db_unit = \<lambda>_ _. Inr (), db_events = \<lambda>_ _. Inr [], db_reports = \<lambda>_ _. Inr [],
      db_outbox = \<lambda>_ _. Inr []\<rparr>"

definition demo_metadata :: RuleMetadata where
  "demo_metadata =
     \<lparr>rm_ver = 1, rm_rule_ver = 0, rm_prot_ver = 1, rm_major_ver = 0, rm_minor_ver = 0,
      rm_sha256 = [], rm_sign = []\<rparr>"

definition demo_idps :: idps where
  "demo_idps =
     \<lparr>idps_config = \<lambda>_ _. Inr \<lparr>depot_path = ''/data/depot'', default_rules_path = ''/etc/rules'',
        ic_aes_key = ''k'', ic_aes_iv = ''i''\<rparr>,
      idps_device = \<lambda>_ _. Inr (''VIN'', ''DSN''), idps_unit = \<lambda>_ _. Inr (),
      idps_key = \<lambda>_ _. Inr None, idps_metadata = \<lambda>_ _. Inr demo_metadata,
      idps_default_metadata = demo_metadata,
      idps_sha256_hex = \<lambda>s. s\<rparr>"

datatype (plugins only: code size) jv =
  JNull | JBool bool | JInt int | JStr string | JArr "jv list" | JObj "(string \<times> jv) list"

fun jv_get :: "jv \<Rightarrow> string \<Rightarrow> jv option" where
  "jv_get (JObj kvs) k = map_of kvs k"
| "jv_get _ k = None"

fun jv_int :: "jv \<Rightarrow> int option" where
  "jv_int (JInt i) = Some i"
| "jv_int _ = None"

fun jv_nat :: "jv \<Rightarrow> nat option" where
  "jv_nat (JInt i) = (if 0 \<le> i then Some (nat i) else None)"
| "jv_nat _ = None"

fun jv_bool :: "jv \<Rightarrow> bool option" where
  "jv_bool (JBool b) = Some b"
| "jv_bool _ = None"

fun jv_str :: "jv \<Rightarrow> string option" where
  "jv_str (JStr s) = Some s"
| "jv_str _ = None"

fun jv_arr :: "jv \<Rightarrow> jv list option" where
  "jv_arr (JArr vs) = Some vs"
| "jv_arr _ = None"

fun jv_show :: "jv \<Rightarrow> string" where
  "jv_show JNull = ''null''"
| "jv_show (JBool b) = (if b then ''true'' else ''false'')"
| "jv_show (JInt i) = dec_int i"
| "jv_show (JStr s) = s"
| "jv_show (JArr vs) = ''['' @ join '','' (map jv_show vs) @ '']''"
| "jv_show (JObj kvs) =
     ''{'' @ join '','' (map (\<lambda>(k, v). k @ '':'' @ v) (map (\<lambda>(k, v). (k, jv_show v)) kvs)) @ ''}''"

definition demo_outcome :: "string \<Rightarrow> TrafficOutcome" where
  "demo_outcome v =
     \<lparr>verdict = v, to_success = 0, to_timeout = 0, to_refused = 0, to_denied = 0, to_sent = 0,
      to_other = 0\<rparr>"

definition demo_json :: "jv serde" where
  "demo_json =
     \<lparr>j_parse = \<lambda>s. Inr (JStr s), j_parse_string = Inr, j_get = jv_get, j_as_i64 = jv_int,
      j_as_u64 = jv_nat, j_as_bool = jv_bool, j_as_str = jv_str, j_as_array = jv_arr,
      j_null = JNull, j_bool = JBool, j_int = JInt, j_str = JStr, j_arr = JArr, j_obj = JObj,
      j_show = jv_show, j_pretty = \<lambda>v. Inr (jv_show v),
      de_outcome = \<lambda>v. (case v of JStr s \<Rightarrow> Inr (demo_outcome s) | _ \<Rightarrow> Inl [''bad'']),
      de_events = \<lambda>_. Inr [], de_reports = \<lambda>_. Inr []\<rparr>"

definition demo_env :: "jv env" where
  "demo_env = \<lparr>os = demo_os, sql = demo_sql, idps = demo_idps, json = demo_json\<rparr>"

definition demo_world :: world where
  "demo_world = \<lparr>clock = 0, files = Map.empty, vars = Map.empty, trace = []\<rparr>"

lemmas demo_defs = demo_env_def demo_os_def demo_sql_def demo_idps_def demo_json_def
  demo_world_def demo_metadata_def demo_outcome_def

end
