(* ===== verification/Exec.thy ===== *)
theory Exec
  imports Effects
begin

text \<open>
  The endpoint abstraction of \<open>exec.rs\<close>: how a command is run on the TARGET (the root network
  namespace) or on the PEER (inside its namespace), how the worker is re-executed, and how the
  textual answers of \<open>ip addr\<close> and of the JSON printing commands are read back.
\<close>

section \<open>Endpoints\<close>

datatype Endpoint = Local | Netns string

fun label :: "Endpoint \<Rightarrow> string" where
  "label Local = ''target''"
| "label (Netns name) = ''peer:'' @ name"

definition ns_path :: "string \<Rightarrow> string" where
  "ns_path name = ''/run/netns/'' @ name"

definition nsenter_argv :: "string \<Rightarrow> string list \<Rightarrow> string list" where
  "nsenter_argv name program = [''nsenter'', ''--net='' @ ns_path name, ''--''] @ program"

definition ip_netns_argv :: "string \<Rightarrow> string list \<Rightarrow> string list" where
  "ip_netns_argv name program = [''ip'', ''netns'', ''exec'', name] @ program"

definition spawn_via_ip :: "'j env \<Rightarrow> string \<Rightarrow> string list \<Rightarrow> bool \<Rightarrow> nat res io" where
  "spawn_via_ip E name program background =
     ctx (''failed to spawn `'' @ join '' '' program @ ''` via ip netns exec'')
       (map_res lift_io (spawn E (ip_netns_argv name program) background))"

definition spawn_program :: "'j env \<Rightarrow> Endpoint \<Rightarrow> string list \<Rightarrow> bool \<Rightarrow> nat res io" where
  "spawn_program E self program background =
     (case self of
        Local \<Rightarrow>
          ctx (''failed to spawn `'' @ join '' '' program @ ''`'')
            (map_res lift_io (spawn E program background))
      | Netns name \<Rightarrow>
          do {
            ex \<leftarrow> path_exists E (ns_path name);
            if ex then
              do {
                r \<leftarrow> spawn E (nsenter_argv name program) background;
                (case r of
                   Inr child \<Rightarrow> ret (Ok child)
                 | Inl error \<Rightarrow>
                     if kind error = NotFound then spawn_via_ip E name program background
                     else ret (Err [''failed to spawn `'' @ join '' '' program @ ''` via nsenter'',
                                    io_msg error]))
              }
            else spawn_via_ip E name program background
          })"

definition run_program ::
  "'j env \<Rightarrow> Endpoint \<Rightarrow> string list \<Rightarrow> (int \<times> string \<times> string) res io" where
  "run_program E self program =
     and_then (spawn_program E self program False) (\<lambda>child.
     and_then (ctx (''failed to wait for `'' @ join '' '' program @ ''`'')
                 (map_res lift_io (wait_with_output E child))) (\<lambda>out.
       ret (Ok (case status_code out of None \<Rightarrow> -1 | Some c \<Rightarrow> c, stdout out, stderr out))))"

section \<open>Re-execution of the worker\<close>

definition current_exe :: "'j env \<Rightarrow> string res io" where
  "current_exe E =
     ctx ''failed to resolve current executable for agent re-exec''
       (perform E CurrentExe (\<lambda>w. lift_io (ans_text (os E) w CurrentExe)))"

definition agent_argv :: "'j env \<Rightarrow> string list \<Rightarrow> string list res io" where
  "agent_argv E args =
     and_then (current_exe E) (\<lambda>exe. ret (Ok ([exe, ''agent''] @ args)))"

text \<open>The whole buffer as JSON, else the last line that looks like JSON.\<close>

definition json_line :: "string \<Rightarrow> bool" where
  "json_line line = (starts_with line ''{'' \<or> starts_with line ''['')"

definition parse_json :: "'j env \<Rightarrow> string \<Rightarrow> 'j res" where
  "parse_json E out =
     (case j_parse (json E) (trim out) of
        Inr value \<Rightarrow> Ok value
      | Inl _ \<Rightarrow>
          (case find json_line (map trim (rev (lines out))) of
             None \<Rightarrow> Err [''no JSON object found in output'']
           | Some last_line \<Rightarrow>
               with_context ''failed to parse JSON output'' (j_parse (json E) last_line)))"

definition shell_full :: "'j env \<Rightarrow> Endpoint \<Rightarrow> string \<Rightarrow> (int \<times> string \<times> string) res io" where
  "shell_full E self cmd = run_program E self [''sh'', ''-c'', cmd]"

definition shell :: "'j env \<Rightarrow> Endpoint \<Rightarrow> string \<Rightarrow> string res io" where
  "shell E self cmd =
     and_then (shell_full E self cmd) (\<lambda>(code, out, err). ret (Ok (trim out)))"

definition not_json :: "string \<Rightarrow> string \<Rightarrow> string \<Rightarrow> string" where
  "not_json what out err =
     ''`'' @ what @ ''` did not return JSON (stdout: '' @ trim out @ '', stderr: '' @ trim err @ '')''"

definition shell_json :: "'j env \<Rightarrow> Endpoint \<Rightarrow> string \<Rightarrow> 'j res io" where
  "shell_json E self cmd =
     and_then (shell_full E self cmd) (\<lambda>(code, out, err).
       ret (with_context (not_json cmd out err) (parse_json E out)))"

definition agent_json :: "'j env \<Rightarrow> Endpoint \<Rightarrow> string list \<Rightarrow> 'j res io" where
  "agent_json E self args =
     and_then (agent_argv E args) (\<lambda>argv.
     and_then (run_program E self argv) (\<lambda>(code, out, err).
       ret (with_context (not_json (''agent '' @ join '' '' args) out err) (parse_json E out))))"

definition agent_spawn :: "'j env \<Rightarrow> Endpoint \<Rightarrow> string list \<Rightarrow> nat res io" where
  "agent_spawn E self args =
     and_then (agent_argv E args) (\<lambda>argv. spawn_program E self argv True)"

section \<open>Address detection\<close>

definition parse_inet :: "string \<Rightarrow> string res" where
  "parse_inet out =
     with_context_opt ''no inet address found''
       (case dropWhile (\<lambda>token. token \<noteq> ''inet'') (split_whitespace out) of
          _ # cidr # _ \<Rightarrow>
            (let addr = hd (split_on (CHR ''/'') cidr)
             in if parse_ipv4 addr \<noteq> None then Some addr else None)
        | _ \<Rightarrow> None)"

definition detect_ipv4 :: "'j env \<Rightarrow> Endpoint \<Rightarrow> string \<Rightarrow> string res io" where
  "detect_ipv4 E self iface =
     and_then (shell E self (''ip -4 addr show dev '' @ iface)) (\<lambda>out.
       ret (with_context (''could not parse IPv4 for '' @ iface @ '' ('' @ label self @ '')'')
              (parse_inet out)))"

section \<open>Lemmas\<close>

lemma steady_exec [later_intros]:
  "steady (spawn_via_ip E name program bg)" "steady (spawn_program E self program bg)"
  "steady (run_program E self program)" "steady (current_exe E)" "steady (agent_argv E args)"
  "steady (shell_full E self cmd)" "steady (shell E self cmd)" "steady (shell_json E self cmd)"
  "steady (agent_json E self args)" "steady (agent_spawn E self args)"
  "steady (detect_ipv4 E self iface)"
proof -
  show via: "steady (spawn_via_ip E name program bg)" for name program bg
    unfolding spawn_via_ip_def by (intro later_intros)
  show sp: "steady (spawn_program E self program bg)" for self program bg
    unfolding spawn_program_def by (cases self) (auto intro!: later_intros via)
  show rp: "steady (run_program E self program)" for self program
    unfolding run_program_def by (intro later_intros sp)
  show ce: "steady (current_exe E)"
    unfolding current_exe_def by (intro later_intros)
  show aa: "steady (agent_argv E args)" for args
    unfolding agent_argv_def by (intro later_intros ce)
  show sf: "steady (shell_full E self cmd)" for self cmd
    unfolding shell_full_def by (rule rp)
  show sh: "steady (shell E self cmd)" for self cmd
    unfolding shell_def by (intro later_intros sf)
  show "steady (shell_json E self cmd)"
    unfolding shell_json_def by (intro later_intros sf)
  show "steady (agent_json E self args)"
    unfolding agent_json_def by (intro later_intros aa rp)
  show "steady (agent_spawn E self args)"
    unfolding agent_spawn_def by (intro later_intros aa sp)
  show "steady (detect_ipv4 E self iface)"
    unfolding detect_ipv4_def by (intro later_intros sh)
qed

text \<open>
  The spawn actions that put a program on an endpoint: itself on the TARGET, through \<open>nsenter\<close> or
  \<open>ip netns exec\<close> in the namespace of the PEER.
\<close>

fun starts_on :: "Endpoint \<Rightarrow> string list \<Rightarrow> action \<Rightarrow> bool" where
  "starts_on Local program a \<longleftrightarrow> a = Spawn program False"
| "starts_on (Netns name) program a \<longleftrightarrow>
     a = Spawn (nsenter_argv name program) False \<or> a = Spawn (ip_netns_argv name program) False"

lemma run_program_starts:
  assumes "run_state (run_program E self program) w = (r, w')"
  shows "\<exists>block. trace w' = trace w @ block \<and> list_ex (starts_on self program) block"
proof -
  obtain sp w1 where sp: "run_state (spawn_program E self program False) w = (sp, w1)"
    by (cases "run_state (spawn_program E self program False) w")
  then obtain block where "trace w1 = trace w @ block" "list_ex (starts_on self program) block"
    by (cases self) (auto simp: spawn_program_def spawn_via_ip_def run_io split: if_splits sum.splits)
  moreover have "\<exists>more. trace w' = trace w1 @ more"
    using assms sp by (cases sp) (auto simp: run_program_def run_io split: sum.splits prod.splits)
  ultimately show ?thesis
    by auto
qed

lemma shell_starts:
  assumes "run_state (shell E self cmd) w = (r, w')"
  shows "\<exists>block. trace w' = trace w @ block \<and> list_ex (starts_on self [''sh'', ''-c'', cmd]) block"
proof -
  obtain sr w1 where "run_state (run_program E self [''sh'', ''-c'', cmd]) w = (sr, w1)"
    by (cases "run_state (run_program E self [''sh'', ''-c'', cmd]) w")
  moreover from this have "w' = w1"
    using assms by (auto simp: shell_def shell_full_def run_io split: sum.splits)
  ultimately show ?thesis
    using run_program_starts by blast
qed

section \<open>Properties\<close>

text \<open>
  C24. A program for the PEER is only ever started inside its namespace: whatever happens, the
  processes spawned are \<open>nsenter\<close> on the namespace of that name or \<open>ip netns exec\<close> on it, with the
  program and its arguments unchanged. The second way is tried only when the namespace handle is
  missing or \<open>nsenter\<close> itself is not installed; any other failure of \<open>nsenter\<close> is reported.
\<close>

theorem peer_programs_confined:
  assumes "run_state (spawn_program E (Netns name) program bg) w = (r, w')"
  shows "\<exists>spawned. trace w' = trace w @ FsExists (ns_path name) # spawned \<and>
     (if files w (ns_path name) = None then spawned = [Spawn (ip_netns_argv name program) bg]
      else case ans_child (os E) (step E (FsExists (ns_path name)) w) (Spawn (nsenter_argv name program) bg) of
             Inr child \<Rightarrow> spawned = [Spawn (nsenter_argv name program) bg] \<and> r = Ok child
           | Inl e \<Rightarrow>
               if kind e = NotFound
               then spawned = [Spawn (nsenter_argv name program) bg, Spawn (ip_netns_argv name program) bg]
               else spawned = [Spawn (nsenter_argv name program) bg] \<and> \<not> is_ok r)"
  using assms
  by (auto simp: spawn_program_def spawn_via_ip_def run_io split: if_splits sum.splits)

theorem peer_programs_confined_witness:
  "\<exists>spawned. trace (snd (run_state (spawn_program demo_env (Netns ''fwpeer'') [''ip'', ''addr''] False) demo_world)) =
     FsExists ''/run/netns/fwpeer'' # spawned \<and>
     spawned = [Spawn [''ip'', ''netns'', ''exec'', ''fwpeer'', ''ip'', ''addr''] False]"
  using peer_programs_confined [of demo_env "''fwpeer''" "[''ip'', ''addr'']" False demo_world,
      OF prod.collapse [symmetric]]
  by (simp add: demo_world_def ns_path_def ip_netns_argv_def)

end
