(* ===== verification/Config.thy ===== *)
theory Config
  imports Exec
begin

text \<open>
  The command line data of \<open>cli.rs\<close> and the resolved configuration of \<open>config.rs\<close>. Parsing the
  command line is the work of \<open>clap\<close>; the model starts from its result.
\<close>

section \<open>Command line data\<close>

datatype ReportConfirm = ConfirmLocal | ConfirmServer | ConfirmVsoc

datatype Mode = Android | Host

fun show_mode :: "Mode \<Rightarrow> string" where
  "show_mode Android = ''android''"
| "show_mode Host = ''host''"

record GlobalArgs =
  ga_config :: "string option"
  ga_mode :: Mode
  ga_peer_netns :: string
  ga_vsoc_cert :: "string option"
  ga_vsoc_key :: "string option"
  ga_vsoc_cacert :: "string option"
  ga_target_iface :: string
  ga_peer_iface :: string
  ga_target_ip :: "ipaddr option"
  ga_peer_ip :: "ipaddr option"
  ga_veth_prefix :: u8
  ga_acd :: int
  ga_fun_fw :: int
  ga_fun_traffic :: int
  ga_reload_timeout_secs :: u64
  ga_event_settle_ms :: u64
  ga_report_confirm :: ReportConfirm
  ga_vsoc_url :: "string option"
  ga_idps_fw :: string
  ga_state_db :: string
  ga_app_uid :: u32
  ga_app_identity_key :: string
  ga_app_pkg :: string
  ga_app_name :: string
  ga_report :: "string option"
  ga_json :: bool

section \<open>Resolved configuration\<close>

record VsocApi =
  base_url :: string
  va_cert :: "string option"
  va_key :: "string option"
  va_cacert :: "string option"

text \<open>Durations are counted in milliseconds.\<close>

record RunConfig =
  rc_mode :: Mode
  rc_target :: Endpoint
  rc_peer :: Endpoint
  rc_peer_iface :: string
  rc_target_ip :: ipaddr
  rc_peer_ip :: ipaddr
  rc_acd :: int
  rc_fun_fw :: int
  rc_fun_traffic :: int
  rc_reload_timeout :: nat
  rc_event_settle :: nat
  rc_report_confirm :: ReportConfirm
  rc_vsoc :: "VsocApi option"
  rc_idps_fw :: string
  rc_state_db :: string
  rc_app_uid :: u32
  rc_app_identity_key :: string

text \<open>
  The detected text has passed the IPv4 parser already (lemma \<open>parse_inet_valid\<close>), so the
  general address parser always takes its IPv4 branch here.
\<close>

definition parse_ip :: "string \<Rightarrow> ipaddr res" where
  "parse_ip s =
     (case parse_ipv4 s of
        Some a \<Rightarrow> Ok (V4 a)
      | None \<Rightarrow> Err [''invalid IP address syntax''])"

definition resolve_ip ::
  "'j env \<Rightarrow> ipaddr option \<Rightarrow> Endpoint \<Rightarrow> string \<Rightarrow> string \<Rightarrow> ipaddr res io" where
  "resolve_ip E explicit endpoint iface role =
     (case explicit of
        Some ip \<Rightarrow> ret (Ok ip)
      | None \<Rightarrow>
          and_then (detect_ipv4 E endpoint iface) (\<lambda>text.
            ret (with_context (''failed to parse detected '' @ role @ '' IP'') (parse_ip text))))"

definition default_vsoc_url :: string where
  "default_vsoc_url = ''https://127.0.0.1:8443''"

definition resolve_vsoc :: "GlobalArgs \<Rightarrow> VsocApi option" where
  "resolve_vsoc g =
     (case ga_mode g of
        Host \<Rightarrow>
          Some \<lparr>base_url = (case ga_vsoc_url g of Some u \<Rightarrow> u | None \<Rightarrow> default_vsoc_url),
                va_cert = ga_vsoc_cert g, va_key = ga_vsoc_key g, va_cacert = ga_vsoc_cacert g\<rparr>
      | Android \<Rightarrow> None)"

definition resolve :: "'j env \<Rightarrow> GlobalArgs \<Rightarrow> RunConfig res io" where
  "resolve E g =
     (let target = Local; peer = Netns (ga_peer_netns g) in
      and_then (resolve_ip E (ga_target_ip g) target (ga_target_iface g) ''TARGET'') (\<lambda>target_ip.
      and_then (resolve_ip E (ga_peer_ip g) peer (ga_peer_iface g) ''PEER'') (\<lambda>peer_ip.
        ret (Ok \<lparr>rc_mode = ga_mode g, rc_target = target, rc_peer = peer,
                 rc_peer_iface = ga_peer_iface g, rc_target_ip = target_ip, rc_peer_ip = peer_ip,
                 rc_acd = ga_acd g, rc_fun_fw = ga_fun_fw g, rc_fun_traffic = ga_fun_traffic g,
                 rc_reload_timeout = unat (ga_reload_timeout_secs g) * 1000,
                 rc_event_settle = unat (ga_event_settle_ms g),
                 rc_report_confirm = ga_report_confirm g, rc_vsoc = resolve_vsoc g,
                 rc_idps_fw = ga_idps_fw g, rc_state_db = ga_state_db g,
                 rc_app_uid = ga_app_uid g, rc_app_identity_key = ga_app_identity_key g\<rparr>))))"

definition peer_slash24 :: "RunConfig \<Rightarrow> string" where
  "peer_slash24 cfg =
     (case rc_peer_ip cfg of
        V4 v4 \<Rightarrow>
          (case v4 of Ipv4 a b c _ \<Rightarrow>
             show_word a @ ''.'' @ show_word b @ ''.'' @ show_word c @ ''.0/24'')
      | V6 v6 \<Rightarrow> show_ipv6 v6 @ ''/128'')"

section \<open>Lemmas\<close>

lemma parse_inet_valid: "parse_inet out = Inr s \<Longrightarrow> \<exists>a. parse_ipv4 s = Some a"
  by (auto simp: parse_inet_def Let_def with_context_opt_def split: list.splits option.splits if_splits)

lemma steady_resolve [later_intros]:
  "steady (resolve_ip E ip ep iface role)" "steady (resolve E g)"
proof -
  show ri: "steady (resolve_ip E ip ep iface role)" for ip ep iface role
    unfolding resolve_ip_def by (intro later_intros)
  show "steady (resolve E g)"
    unfolding resolve_def Let_def by (intro later_intros ri)
qed

section \<open>A concrete configuration\<close>

text \<open>The configuration that \<open>setup-env\<close> stages by default, in Android mode; used by witnesses.\<close>

definition demo_cfg :: RunConfig where
  "demo_cfg =
     \<lparr>rc_mode = Android, rc_target = Local, rc_peer = Netns ''fwpeer'', rc_peer_iface = ''fwp0'',
      rc_target_ip = V4 (Ipv4 10 123 0 1), rc_peer_ip = V4 (Ipv4 10 123 0 2),
      rc_acd = 1, rc_fun_fw = 1, rc_fun_traffic = 4, rc_reload_timeout = 30000,
      rc_event_settle = 1500, rc_report_confirm = ConfirmLocal, rc_vsoc = None,
      rc_idps_fw = ''idps-fw'', rc_state_db = ''/data/idd/idps-fw/state.sqlite3'',
      rc_app_uid = 2000, rc_app_identity_key = ''com.demo.browser''\<rparr>"

text \<open>The command line that has only defaults, in Android mode.\<close>

definition demo_args :: GlobalArgs where
  "demo_args =
     \<lparr>ga_config = None, ga_mode = Android, ga_peer_netns = ''fwpeer'', ga_vsoc_cert = None,
      ga_vsoc_key = None, ga_vsoc_cacert = None, ga_target_iface = ''fwt0'', ga_peer_iface = ''fwp0'',
      ga_target_ip = None, ga_peer_ip = None, ga_veth_prefix = 24, ga_acd = 1, ga_fun_fw = 1,
      ga_fun_traffic = 4, ga_reload_timeout_secs = 30, ga_event_settle_ms = 1500,
      ga_report_confirm = ConfirmLocal, ga_vsoc_url = None, ga_idps_fw = ''idps-fw'',
      ga_state_db = ''/data/idd/idps-fw/state.sqlite3'', ga_app_uid = 2000,
      ga_app_identity_key = ''com.demo.browser'', ga_app_pkg = ''com.demo.browser'',
      ga_app_name = ''Browser'', ga_report = None, ga_json = False\<rparr>"

section \<open>Properties\<close>

text \<open>
  C38. An address that is not given is the one the interface has: if the listing of \<open>ip -4 addr\<close> has
  \<open>inet a.b.c.d/len\<close> as its first \<open>inet\<close> entry, exactly that address is used; nothing but the listing
  is run.
\<close>

theorem detected_address_used:
  assumes "run_state (shell E ep (''ip -4 addr show dev '' @ iface)) w = (Ok out, w')"
    and "split_whitespace out = pre @ ''inet'' # (show_ipv4 a @ CHR ''/'' # len) # post"
    and "''inet'' \<notin> set pre"
  shows "run_state (resolve_ip E None ep iface role) w = (Ok (V4 a), w')"
proof -
  have "CHR ''/'' \<notin> set (show_ipv4 a)"
    by (auto simp: is_digit_def dest: show_ipv4_char)
  then have hd: "hd (split_on (CHR ''/'') (show_ipv4 a @ CHR ''/'' # len)) = show_ipv4 a"
    unfolding split_on_def by (subst split_by_append_sep) auto
  have "dropWhile (\<lambda>t. t \<noteq> ''inet'') (pre @ ''inet'' # (show_ipv4 a @ CHR ''/'' # len) # post) =
      ''inet'' # (show_ipv4 a @ CHR ''/'' # len) # post"
    using assms(3) by (subst dropWhile_append2) auto
  then have "parse_inet out = Ok (show_ipv4 a)"
    by (simp add: parse_inet_def assms(2) hd Let_def)
  then show ?thesis
    unfolding resolve_ip_def detect_ipv4_def option.case run_and_then assms(1) by (simp add: parse_ip_def)
qed

definition listing :: string where
  "listing = ''4: fwt0 mtu 1500 inet 10.123.0.1/24 scope global fwt0''"

definition listing_env :: "jv env" where
  "listing_env = demo_env\<lparr>os := demo_os\<lparr>ans_output := \<lambda>_ _.
     Inr \<lparr>status_code = Some 0, stdout = listing, stderr = []\<rparr>\<rparr>\<rparr>"

theorem detected_address_used_witness:
  "fst (run_state (resolve_ip listing_env None Local ''fwt0'' ''TARGET'') demo_world) = Ok (V4 (Ipv4 10 123 0 1))"
proof -
  have "trim listing = listing"
    by code_simp
  then obtain w' where run: "run_state (shell listing_env Local (''ip -4 addr show dev '' @ ''fwt0'')) demo_world = (Ok listing, w')"
    by (simp add: shell_def shell_full_def run_program_def spawn_program_def run_io listing_env_def demo_env_def
        demo_os_def)
  have "split_whitespace listing =
      [''4:'', ''fwt0'', ''mtu'', ''1500''] @ ''inet'' # (show_ipv4 (Ipv4 10 123 0 1) @ CHR ''/'' # ''24'') #
      [''scope'', ''global'', ''fwt0'']"
    by code_simp
  from detected_address_used [OF run this] show ?thesis
    by simp
qed

end
