(* ===== verification/Catalog.thy ===== *)
theory Catalog
  imports Config
begin

text \<open>
  The test catalog of \<open>catalog.rs\<close>: groups, provisioning bundles, the rule text of a bundle for
  the live addresses, and the thirty data-plane cases. The case list is one vector in the source;
  it is written here in sections that follow the source's own section comments.
\<close>

section \<open>Groups and bundles\<close>

datatype Group =
  G_Ingress | G_Default | G_Egress | G_App | G_Match | G_Detection | G_Traffic | G_Monitor

fun group_as_str :: "Group \<Rightarrow> string" where
  "group_as_str G_Ingress = ''ingress''"
| "group_as_str G_Default = ''default''"
| "group_as_str G_Egress = ''egress''"
| "group_as_str G_App = ''app''"
| "group_as_str G_Match = ''match''"
| "group_as_str G_Detection = ''detection''"
| "group_as_str G_Traffic = ''traffic''"
| "group_as_str G_Monitor = ''monitor''"

definition group_parse :: "string \<Rightarrow> Group res" where
  "group_parse value =
     (if value = ''ingress'' then Ok G_Ingress
      else if value = ''default'' then Ok G_Default
      else if value = ''egress'' then Ok G_Egress
      else if value = ''app'' then Ok G_App
      else if value = ''match'' then Ok G_Match
      else if value = ''detection'' then Ok G_Detection
      else if value = ''traffic'' then Ok G_Traffic
      else if value = ''monitor'' then Ok G_Monitor
      else Err [''unknown group `'' @ value @
                ''` (ingress|default|egress|app|match|detection|traffic|monitor)''])"

datatype Bundle =
    IngressTuple | DefaultDeny | DefaultAllow | EgressTuple | AppDeny | AppAllow
  | MatchFields | Detection | Traffic | Priority

datatype Side = Peer | Target

section \<open>Cases\<close>

datatype TrafficKind =
    Tcp u16
  | Icmp
  | Udp u16 bool
  | TcpScan "u16 list"
  | UdpScan "u16 list"
  | TcpBurst u16 u32
  | UdpVolume u16 u32
  | TcpFinScan "u16 list"

datatype Enforce = Blocked | Allowed | Sent | Refused

record ExpectEvent =
  x_kind :: string
  x_action :: string
  x_proto :: string
  x_rule_id :: "int option"
  x_match_dport :: "u16 option"
  x_detail :: "string option"

record Listen =
  l_side :: Side
  l_proto :: string
  l_port :: u16

record FwCase =
  fc_id :: string
  fc_group :: Group
  fc_bundle :: Bundle
  fc_origin :: Side
  fc_uid :: bool
  fc_sport :: "u16 option"
  fc_listen :: "Listen list"
  fc_traffic :: TrafficKind
  fc_expect_enforce :: Enforce
  fc_expect_event :: "ExpectEvent option"
  fc_skip :: "string option"
  fc_notes :: string

section \<open>Rule text\<close>

text \<open>
  A five-tuple rule line. The source spells every line out in a format string; the lines of one
  bundle differ in few places, so the common part is shared here.
\<close>

definition tuple_rule :: "string \<Rightarrow> string \<Rightarrow> string \<Rightarrow> string \<Rightarrow> string \<Rightarrow> string \<Rightarrow> string" where
  "tuple_rule sip dip dport proto action chain =
     ''sip='' @ sip @ '',dip='' @ dip @ '',dport='' @ dport @ '',proto='' @ proto @
     '',action='' @ action @ '',chain='' @ chain @ ''\<newline>''"

fun firewall_text :: "Bundle \<Rightarrow> RunConfig \<Rightarrow> string" where
  "firewall_text IngressTuple cfg =
     (let peer = show_ip (rc_peer_ip cfg); target = show_ip (rc_target_ip cfg) in
      ''chain=localin,action=P\<newline>'' @
      tuple_rule peer target ''5001'' ''tcp'' ''P'' ''localin'' @
      tuple_rule peer target ''5002'' ''tcp'' ''LP'' ''localin'' @
      tuple_rule peer target ''5003'' ''tcp'' ''LD'' ''localin'' @
      tuple_rule peer target ''5004'' ''tcp'' ''NLD'' ''localin'')"
| "firewall_text DefaultDeny cfg =
     (let peer = show_ip (rc_peer_ip cfg); target = show_ip (rc_target_ip cfg) in
      ''chain=localin,action=LD\<newline>'' @
      tuple_rule peer target ''5101'' ''tcp'' ''P'' ''localin'')"
| "firewall_text DefaultAllow cfg = ''chain=localin,action=P\<newline>''"
| "firewall_text EgressTuple cfg =
     (let peer = show_ip (rc_peer_ip cfg); target = show_ip (rc_target_ip cfg) in
      ''chain=localin,action=P\<newline>'' @
      tuple_rule target peer ''6001'' ''tcp'' ''LD'' ''output'' @
      tuple_rule target peer ''6002'' ''tcp'' ''LP'' ''output'' @
      tuple_rule target peer ''6003'' ''udp'' ''LD'' ''output'')"
| "firewall_text AppDeny cfg =
     ''chain=localin,action=P\<newline>prog='' @ rc_app_identity_key cfg @ '',action=LD\<newline>''"
| "firewall_text AppAllow cfg =
     ''chain=localin,action=P\<newline>prog='' @ rc_app_identity_key cfg @ '',action=LP\<newline>''"
| "firewall_text MatchFields cfg =
     (let peer = show_ip (rc_peer_ip cfg); target = show_ip (rc_target_ip cfg) in
      ''chain=localin,action=P\<newline>'' @
      tuple_rule (peer @ ''/32'') target ''7001'' ''tcp'' ''LD'' ''localin'' @
      tuple_rule (peer_slash24 cfg) target ''7002'' ''tcp'' ''LD'' ''localin'' @
      tuple_rule ''*'' target ''7100-7110'' ''tcp'' ''LD'' ''localin'' @
      tuple_rule ''*,sport=8000-8005'' target ''7200'' ''udp'' ''LD'' ''localin'' @
      ''sip=*,dip='' @ target @ '',proto=icmp,action=LD,chain=localin\<newline>'' @
      tuple_rule ''*'' target ''7300'' ''*'' ''LD'' ''localin'')"
| "firewall_text Detection cfg = ''chain=localin,action=LD\<newline>''"
| "firewall_text Priority cfg =
     (let peer = show_ip (rc_peer_ip cfg); target = show_ip (rc_target_ip cfg) in
      ''chain=localin,action=P\<newline>'' @
      tuple_rule peer target ''8001'' ''tcp'' ''P'' ''localin'' @
      tuple_rule peer target ''8001'' ''tcp'' ''LD'' ''localin'' @
      tuple_rule peer target ''8002'' ''tcp'' ''P'' ''localin'')"
| "firewall_text Traffic cfg =
     (let peer = show_ip (rc_peer_ip cfg); target = show_ip (rc_target_ip cfg) in
      ''chain=localin,action=P\<newline>'' @
      ''prog='' @ rc_app_identity_key cfg @ '',action=LP\<newline>'' @
      tuple_rule peer target ''5301'' ''udp'' ''P'' ''localin'')"

definition traffic_cycle :: "Bundle \<Rightarrow> nat option" where
  "traffic_cycle bundle = (if bundle = Traffic then Some 5 else None)"

section \<open>The catalog\<close>

definition event ::
  "string \<Rightarrow> string \<Rightarrow> string \<Rightarrow> int option \<Rightarrow> u16 option \<Rightarrow> ExpectEvent option" where
  "event knd act proto rule_id match_dport =
     Some \<lparr>x_kind = knd, x_action = act, x_proto = proto, x_rule_id = rule_id,
           x_match_dport = match_dport, x_detail = None\<rparr>"

definition event_d ::
  "string \<Rightarrow> string \<Rightarrow> string \<Rightarrow> int option \<Rightarrow> u16 option \<Rightarrow> string \<Rightarrow> ExpectEvent option" where
  "event_d knd act proto rule_id match_dport detail =
     Some \<lparr>x_kind = knd, x_action = act, x_proto = proto, x_rule_id = rule_id,
           x_match_dport = match_dport, x_detail = Some detail\<rparr>"

definition listen :: "Side \<Rightarrow> string \<Rightarrow> u16 \<Rightarrow> Listen list" where
  "listen side proto port = [\<lparr>l_side = side, l_proto = proto, l_port = port\<rparr>]"

definition ingress_cases :: "FwCase list" where
  "ingress_cases =
     [\<lparr>fc_id = ''ingress-tuple-pass'', fc_group = G_Ingress, fc_bundle = IngressTuple,
        fc_origin = Peer, fc_uid = False, fc_sport = None,
        fc_listen = listen Target ''tcp'' 5001, fc_traffic = Tcp 5001,
        fc_expect_enforce = Allowed,
        fc_expect_event = None,
        fc_skip = None,
        fc_notes = ''Pass action allows the SYN and emits no event''\<rparr>,
      \<lparr>fc_id = ''ingress-tuple-alert'', fc_group = G_Ingress, fc_bundle = IngressTuple,
        fc_origin = Peer, fc_uid = False, fc_sport = None,
        fc_listen = listen Target ''tcp'' 5002, fc_traffic = Tcp 5002,
        fc_expect_enforce = Allowed,
        fc_expect_event = None,
        fc_skip = None,
        fc_notes = ''Ingress LP allows the SYN; single connections emit no event (vendor-aligned)''\<rparr>,
      \<lparr>fc_id = ''ingress-tuple-block'', fc_group = G_Ingress, fc_bundle = IngressTuple,
        fc_origin = Peer, fc_uid = False, fc_sport = None,
        fc_listen = [], fc_traffic = Tcp 5003,
        fc_expect_enforce = Blocked,
        fc_expect_event = None,
        fc_skip = None,
        fc_notes = ''Ingress LD drops the SYN; single connections emit no event (only scans do)''\<rparr>,
      \<lparr>fc_id = ''ingress-tuple-blocksilent'', fc_group = G_Ingress, fc_bundle = IngressTuple,
        fc_origin = Peer, fc_uid = False, fc_sport = None,
        fc_listen = [], fc_traffic = Tcp 5004,
        fc_expect_enforce = Refused,
        fc_expect_event = None,
        fc_skip = None,
        fc_notes = ''NLD passes the first new-flow SYN (IPS handoff): the probe reaches the closed port and is refused (RST), with no event '' @ [CHR 0xE2, CHR 0x80, CHR 0x94] @ '' distinct from LD which drops the SYN (blocked)''\<rparr>]"

definition default_cases :: "FwCase list" where
  "default_cases =
     [\<lparr>fc_id = ''default-deny-blocks'', fc_group = G_Default, fc_bundle = DefaultDeny,
        fc_origin = Peer, fc_uid = False, fc_sport = None,
        fc_listen = [], fc_traffic = Tcp 5102,
        fc_expect_enforce = Blocked,
        fc_expect_event = None,
        fc_skip = None,
        fc_notes = ''Default ingress deny drops unlisted traffic; emits no per-connection event''\<rparr>,
      \<lparr>fc_id = ''default-deny-carveout'', fc_group = G_Default, fc_bundle = DefaultDeny,
        fc_origin = Peer, fc_uid = False, fc_sport = None,
        fc_listen = listen Target ''tcp'' 5101, fc_traffic = Tcp 5101,
        fc_expect_enforce = Allowed,
        fc_expect_event = None,
        fc_skip = None,
        fc_notes = ''Explicit Pass rule overrides the default deny''\<rparr>,
      \<lparr>fc_id = ''default-allow'', fc_group = G_Default, fc_bundle = DefaultAllow,
        fc_origin = Peer, fc_uid = False, fc_sport = None,
        fc_listen = listen Target ''tcp'' 5201, fc_traffic = Tcp 5201,
        fc_expect_enforce = Allowed,
        fc_expect_event = None,
        fc_skip = None,
        fc_notes = ''Default ingress allow passes unlisted traffic''\<rparr>]"

definition egress_cases :: "FwCase list" where
  "egress_cases =
     [\<lparr>fc_id = ''egress-tcp-block'', fc_group = G_Egress, fc_bundle = EgressTuple,
        fc_origin = Target, fc_uid = False, fc_sport = None,
        fc_listen = listen Peer ''tcp'' 6001, fc_traffic = Tcp 6001,
        fc_expect_enforce = Blocked,
        fc_expect_event = event_d ''NetworkBlock'' ''Block'' ''tcp'' (Some 2) (Some 6001) ''connection state invalid attack'',
        fc_skip = None,
        fc_notes = ''Egress Block drops the target's outbound SYN and records a NetworkBlock''\<rparr>,
      \<lparr>fc_id = ''egress-tcp-alert'', fc_group = G_Egress, fc_bundle = EgressTuple,
        fc_origin = Target, fc_uid = False, fc_sport = None,
        fc_listen = listen Peer ''tcp'' 6002, fc_traffic = Tcp 6002,
        fc_expect_enforce = Allowed,
        fc_expect_event = None,
        fc_skip = None,
        fc_notes = ''Egress LP allows outbound and emits no event (vendor egress has no LPASS log)''\<rparr>,
      \<lparr>fc_id = ''egress-udp-block'', fc_group = G_Egress, fc_bundle = EgressTuple,
        fc_origin = Target, fc_uid = False, fc_sport = None,
        fc_listen = listen Peer ''udp'' 6003, fc_traffic = Udp 6003 True,
        fc_expect_enforce = Blocked,
        fc_expect_event = event_d ''NetworkBlock'' ''Block'' ''udp'' (Some 4) (Some 6003) ''connection state invalid attack'',
        fc_skip = None,
        fc_notes = ''Egress UDP Block drops the outbound datagram (no echo) and records a NetworkBlock''\<rparr>]"

definition app_cases :: "FwCase list" where
  "app_cases =
     [\<lparr>fc_id = ''app-policy-deny'', fc_group = G_App, fc_bundle = AppDeny,
        fc_origin = Target, fc_uid = True, fc_sport = None,
        fc_listen = listen Peer ''tcp'' 6101, fc_traffic = Tcp 6101,
        fc_expect_enforce = Blocked,
        fc_expect_event = event ''PolicyDeny'' ''Block'' ''tcp'' None None,
        fc_skip = None,
        fc_notes = ''App policy LD denies the mapped UID's connect (cgroup connect4)''\<rparr>,
      \<lparr>fc_id = ''app-policy-allow'', fc_group = G_App, fc_bundle = AppAllow,
        fc_origin = Target, fc_uid = True, fc_sport = None,
        fc_listen = listen Peer ''tcp'' 6101, fc_traffic = Tcp 6101,
        fc_expect_enforce = Allowed,
        fc_expect_event = None,
        fc_skip = None,
        fc_notes = ''App policy LP allows the mapped UID's connect''\<rparr>]"

definition match_cases :: "FwCase list" where
  "match_cases =
     [\<lparr>fc_id = ''match-sip-host'', fc_group = G_Match, fc_bundle = MatchFields,
        fc_origin = Peer, fc_uid = False, fc_sport = None,
        fc_listen = [], fc_traffic = Tcp 7001,
        fc_expect_enforce = Blocked,
        fc_expect_event = None,
        fc_skip = None,
        fc_notes = ''Exact /32 source IP match; blocked proves the rule matched (no ingress event)''\<rparr>,
      \<lparr>fc_id = ''match-sip-cidr'', fc_group = G_Match, fc_bundle = MatchFields,
        fc_origin = Peer, fc_uid = False, fc_sport = None,
        fc_listen = [], fc_traffic = Tcp 7002,
        fc_expect_enforce = Blocked,
        fc_expect_event = None,
        fc_skip = None,
        fc_notes = ''CIDR /24 source match; blocked proves the rule matched (no ingress event)''\<rparr>,
      \<lparr>fc_id = ''match-dport-range-lo'', fc_group = G_Match, fc_bundle = MatchFields,
        fc_origin = Peer, fc_uid = False, fc_sport = None,
        fc_listen = [], fc_traffic = Tcp 7100,
        fc_expect_enforce = Blocked,
        fc_expect_event = None,
        fc_skip = None,
        fc_notes = ''Destination port range low bound; blocked proves the match (no ingress event)''\<rparr>,
      \<lparr>fc_id = ''match-dport-range-hi'', fc_group = G_Match, fc_bundle = MatchFields,
        fc_origin = Peer, fc_uid = False, fc_sport = None,
        fc_listen = [], fc_traffic = Tcp 7110,
        fc_expect_enforce = Blocked,
        fc_expect_event = None,
        fc_skip = None,
        fc_notes = ''Destination port range high bound; blocked proves the match (no ingress event)''\<rparr>,
      \<lparr>fc_id = ''match-dport-range-out'', fc_group = G_Match, fc_bundle = MatchFields,
        fc_origin = Peer, fc_uid = False, fc_sport = None,
        fc_listen = listen Target ''tcp'' 7111, fc_traffic = Tcp 7111,
        fc_expect_enforce = Allowed,
        fc_expect_event = None,
        fc_skip = None,
        fc_notes = ''Negative: port just outside the range falls through to default allow''\<rparr>,
      \<lparr>fc_id = ''match-sport-range'', fc_group = G_Match, fc_bundle = MatchFields,
        fc_origin = Peer, fc_uid = False, fc_sport = Some 8000,
        fc_listen = [], fc_traffic = Udp 7200 True,
        fc_expect_enforce = Blocked,
        fc_expect_event = None,
        fc_skip = None,
        fc_notes = ''Source port range + UDP protocol match; blocked proves the match (no event)''\<rparr>,
      \<lparr>fc_id = ''match-proto-icmp'', fc_group = G_Match, fc_bundle = MatchFields,
        fc_origin = Peer, fc_uid = False, fc_sport = None,
        fc_listen = [], fc_traffic = Icmp,
        fc_expect_enforce = Blocked,
        fc_expect_event = None,
        fc_skip = None,
        fc_notes = ''ICMP protocol match; blocked (no reply) proves the match (no ingress event)''\<rparr>,
      \<lparr>fc_id = ''match-proto-any-tcp'', fc_group = G_Match, fc_bundle = MatchFields,
        fc_origin = Peer, fc_uid = False, fc_sport = None,
        fc_listen = [], fc_traffic = Tcp 7300,
        fc_expect_enforce = Blocked,
        fc_expect_event = None,
        fc_skip = None,
        fc_notes = ''Wildcard protocol match (tcp); blocked proves the match (no ingress event)''\<rparr>,
      \<lparr>fc_id = ''match-proto-any-udp'', fc_group = G_Match, fc_bundle = MatchFields,
        fc_origin = Peer, fc_uid = False, fc_sport = None,
        fc_listen = [], fc_traffic = Udp 7300 True,
        fc_expect_enforce = Blocked,
        fc_expect_event = None,
        fc_skip = None,
        fc_notes = ''Wildcard protocol match (udp); drop -> no echo -> timeout=blocked (no event)''\<rparr>]"

definition detection_cases :: "FwCase list" where
  "detection_cases =
     [\<lparr>fc_id = ''detect-portscan-tcp'', fc_group = G_Detection, fc_bundle = Detection,
        fc_origin = Peer, fc_uid = False, fc_sport = None,
        fc_listen = [], fc_traffic = TcpScan [9001, 9002, 9003, 9004, 9005],
        fc_expect_enforce = Blocked,
        fc_expect_event = event_d ''PortScan'' ''Block'' ''tcp'' None None ''tcp portscan attack'',
        fc_skip = None,
        fc_notes = [CHR 0xE2, CHR 0x89, CHR 0xA5] @ ''3 distinct dst ports in a <1s burst -> PortScan; sent as 5 so the global vendor detector fires even if prior cases left slot residue''\<rparr>,
      \<lparr>fc_id = ''detect-portscan-udp'', fc_group = G_Detection, fc_bundle = Detection,
        fc_origin = Peer, fc_uid = False, fc_sport = None,
        fc_listen = [], fc_traffic = UdpScan [9001, 9002, 9003, 9004, 9005],
        fc_expect_enforce = Sent,
        fc_expect_event = event_d ''PortScan'' ''Block'' ''udp'' None None ''udp portscan attack'',
        fc_skip = None,
        fc_notes = [CHR 0xE2, CHR 0x89, CHR 0xA5] @ ''3 distinct UDP dst ports in a <1s burst -> PortScan (UDP fire-and-forget => verdict 'sent'); 5 ports for detector robustness''\<rparr>,
      \<lparr>fc_id = ''detect-portscan-tcp-fin'', fc_group = G_Detection, fc_bundle = Detection,
        fc_origin = Peer, fc_uid = False, fc_sport = None,
        fc_listen = [], fc_traffic = TcpFinScan [9011, 9012, 9013, 9014, 9015],
        fc_expect_enforce = Sent,
        fc_expect_event = event_d ''PortScan'' ''Block'' ''tcp'' None None ''tcp fin portscan attack'',
        fc_skip = None,
        fc_notes = [CHR 0xE2, CHR 0x89, CHR 0xA5] @ ''3 distinct dst ports hit by bare-FIN packets in a <1s burst -> FIN PortScan (raw socket on PEER, needs root; verdict 'sent'); 5 ports for detector robustness''\<rparr>,
      \<lparr>fc_id = ''detect-conn-abnormal'', fc_group = G_Detection, fc_bundle = Detection,
        fc_origin = Peer, fc_uid = False, fc_sport = None,
        fc_listen = [], fc_traffic = TcpBurst 9100 5,
        fc_expect_enforce = Blocked,
        fc_expect_event = event_d ''ConnectionAbnormal'' ''Block'' ''tcp'' None (Some 9100) ''translation layer --tcp state unnormal'',
        fc_skip = None,
        fc_notes = ''5 distinct flows (fresh source ports) to one dst port -> ConnectionAbnormal (same dst port 4th hit across flows)''\<rparr>,
      \<lparr>fc_id = ''detect-below-threshold'', fc_group = G_Detection, fc_bundle = Detection,
        fc_origin = Peer, fc_uid = False, fc_sport = None,
        fc_listen = [], fc_traffic = TcpScan [9201, 9202],
        fc_expect_enforce = Blocked,
        fc_expect_event = None,
        fc_skip = None,
        fc_notes = ''Negative: only 2 distinct ports -> sub-threshold -> no event (blocked, no escalation)''\<rparr>]"

definition traffic_cases :: "FwCase list" where
  "traffic_cases =
     [\<lparr>fc_id = ''traffic-global'', fc_group = G_Traffic, fc_bundle = Traffic,
        fc_origin = Peer, fc_uid = False, fc_sport = None,
        fc_listen = [], fc_traffic = UdpVolume 5301 200,
        fc_expect_enforce = Allowed,
        fc_expect_event = None,
        fc_skip = None,
        fc_notes = ''Allowed volume bumps global ingress counters and a traffic window''\<rparr>,
      \<lparr>fc_id = ''traffic-per-app'', fc_group = G_Traffic, fc_bundle = Traffic,
        fc_origin = Target, fc_uid = True, fc_sport = None,
        fc_listen = [], fc_traffic = UdpVolume 5301 200,
        fc_expect_enforce = Allowed,
        fc_expect_event = None,
        fc_skip = None,
        fc_notes = ''Volume from the mapped UID attributes wifi bytes to an app window''\<rparr>]"

definition priority_cases :: "FwCase list" where
  "priority_cases =
     [\<lparr>fc_id = ''priority-later-wins'', fc_group = G_Match, fc_bundle = Priority,
        fc_origin = Peer, fc_uid = False, fc_sport = None,
        fc_listen = listen Target ''tcp'' 8001, fc_traffic = Tcp 8001,
        fc_expect_enforce = Blocked,
        fc_expect_event = None,
        fc_skip = None,
        fc_notes = ''Two rules on dport 8001 (Pass then Block): the later, higher-priority Block wins -> blocked''\<rparr>,
      \<lparr>fc_id = ''priority-control-pass'', fc_group = G_Match, fc_bundle = Priority,
        fc_origin = Peer, fc_uid = False, fc_sport = None,
        fc_listen = listen Target ''tcp'' 8002, fc_traffic = Tcp 8002,
        fc_expect_enforce = Allowed,
        fc_expect_event = None,
        fc_skip = None,
        fc_notes = ''Control: dport 8002 has only a Pass rule -> allowed (proves the block above is rule-specific, not a side effect)''\<rparr>]"

definition all_cases :: "FwCase list" where
  "all_cases =
     ingress_cases @ default_cases @ egress_cases @ app_cases @ match_cases @ detection_cases @
     traffic_cases @ priority_cases"

definition bundle_order :: "Bundle list" where
  "bundle_order =
     [IngressTuple, DefaultDeny, DefaultAllow, EgressTuple, AppDeny, AppAllow, MatchFields,
      Detection, Traffic, Priority]"

definition case_by_id :: "string \<Rightarrow> FwCase option" where
  "case_by_id cid = find (\<lambda>c. fc_id c = cid) all_cases"

lemmas case_lists =
  ingress_cases_def default_cases_def egress_cases_def app_cases_def match_cases_def
  detection_cases_def traffic_cases_def priority_cases_def

section \<open>The lines of a rule text\<close>

definition tuple_line :: "string \<Rightarrow> string \<Rightarrow> string \<Rightarrow> string \<Rightarrow> string \<Rightarrow> string \<Rightarrow> string" where
  "tuple_line sip dip dport proto action chain =
     ''sip='' @ sip @ '',dip='' @ dip @ '',dport='' @ dport @ '',proto='' @ proto @
     '',action='' @ action @ '',chain='' @ chain"

definition is_rule_line :: "string \<Rightarrow> bool" where
  "is_rule_line l =
     (starts_with l ''chain='' \<or> starts_with l ''sip='' \<or> starts_with l ''prog='')"

lemma lines_tuple_rule:
  assumes "CHR 0x0A \<notin> set sip \<union> set dip \<union> set dport \<union> set proto \<union> set action \<union> set chain"
    and "chain = ''localin'' \<or> chain = ''output''"
  shows "lines (tuple_rule sip dip dport proto action chain @ t) =
         tuple_line sip dip dport proto action chain # lines t"
proof -
  have eq: "tuple_rule sip dip dport proto action chain @ t =
        tuple_line sip dip dport proto action chain @ CHR 0x0A # t"
    by (simp add: tuple_rule_def tuple_line_def)
  have "CHR 0x0A \<notin> set (tuple_line sip dip dport proto action chain)"
    using assms(1) by (auto simp: tuple_line_def)
  moreover have "strip_cr (tuple_line sip dip dport proto action chain) =
      tuple_line sip dip dport proto action chain"
    using assms(2) by (auto simp: tuple_line_def)
  ultimately show ?thesis
    unfolding eq by (simp add: lines_Cons)
qed

lemma lines_tuple_rule_last:
  assumes "CHR 0x0A \<notin> set sip \<union> set dip \<union> set dport \<union> set proto \<union> set action \<union> set chain"
    and "chain = ''localin'' \<or> chain = ''output''"
  shows "lines (tuple_rule sip dip dport proto action chain) =
         [tuple_line sip dip dport proto action chain]"
  using lines_tuple_rule [OF assms, of "[]"] by simp

lemma lines_chain:
  "lines (''chain=localin,action=P\<newline>'' @ t) = ''chain=localin,action=P'' # lines t"
  "lines (''chain=localin,action=LD\<newline>'' @ t) = ''chain=localin,action=LD'' # lines t"
  "lines ''chain=localin,action=P\<newline>'' = [''chain=localin,action=P'']"
  "lines ''chain=localin,action=LD\<newline>'' = [''chain=localin,action=LD'']"
  using lines_Cons [of "''chain=localin,action=P''" t] lines_Cons [of "''chain=localin,action=LD''" t]
    lines_Cons [of "''chain=localin,action=P''" "[]"] lines_Cons [of "''chain=localin,action=LD''" "[]"]
  by simp_all

lemma lines_prog:
  assumes "CHR 0x0A \<notin> set key"
  shows "lines (''prog='' @ key @ '',action=LD\<newline>'' @ t) = (''prog='' @ key @ '',action=LD'') # lines t"
    and "lines (''prog='' @ key @ '',action=LP\<newline>'' @ t) = (''prog='' @ key @ '',action=LP'') # lines t"
    and "lines (''prog='' @ key @ '',action=LD\<newline>'') = [''prog='' @ key @ '',action=LD'']"
    and "lines (''prog='' @ key @ '',action=LP\<newline>'') = [''prog='' @ key @ '',action=LP'']"
  using assms lines_Cons [of "''prog='' @ key @ '',action=LD''" t]
    lines_Cons [of "''prog='' @ key @ '',action=LP''" t]
    lines_Cons [of "''prog='' @ key @ '',action=LD''" "[]"]
    lines_Cons [of "''prog='' @ key @ '',action=LP''" "[]"]
  by simp_all

lemma lines_icmp:
  assumes "CHR 0x0A \<notin> set target"
  shows "lines (''sip=*,dip='' @ target @ '',proto=icmp,action=LD,chain=localin\<newline>'' @ t) =
         (''sip=*,dip='' @ target @ '',proto=icmp,action=LD,chain=localin'') # lines t"
  using assms lines_Cons [of "''sip=*,dip='' @ target @ '',proto=icmp,action=LD,chain=localin''" t]
  by simp

lemma nl_peer_slash24 [simp]: "CHR 0x0A \<notin> set (peer_slash24 cfg)"
proof (cases "rc_peer_ip cfg")
  case (V4 v4)
  then show ?thesis by (cases v4) (simp add: peer_slash24_def)
next
  case (V6 v6)
  then show ?thesis using nl_show_ip [of "V6 v6"] by (simp add: peer_slash24_def)
qed

text \<open>The rule lines of each bundle.\<close>

fun rule_lines :: "Bundle \<Rightarrow> RunConfig \<Rightarrow> string list" where
  "rule_lines IngressTuple cfg =
     (let peer = show_ip (rc_peer_ip cfg); target = show_ip (rc_target_ip cfg) in
      [''chain=localin,action=P'',
       tuple_line peer target ''5001'' ''tcp'' ''P'' ''localin'',
       tuple_line peer target ''5002'' ''tcp'' ''LP'' ''localin'',
       tuple_line peer target ''5003'' ''tcp'' ''LD'' ''localin'',
       tuple_line peer target ''5004'' ''tcp'' ''NLD'' ''localin''])"
| "rule_lines DefaultDeny cfg =
     [''chain=localin,action=LD'',
      tuple_line (show_ip (rc_peer_ip cfg)) (show_ip (rc_target_ip cfg)) ''5101'' ''tcp'' ''P'' ''localin'']"
| "rule_lines DefaultAllow cfg = [''chain=localin,action=P'']"
| "rule_lines EgressTuple cfg =
     (let peer = show_ip (rc_peer_ip cfg); target = show_ip (rc_target_ip cfg) in
      [''chain=localin,action=P'',
       tuple_line target peer ''6001'' ''tcp'' ''LD'' ''output'',
       tuple_line target peer ''6002'' ''tcp'' ''LP'' ''output'',
       tuple_line target peer ''6003'' ''udp'' ''LD'' ''output''])"
| "rule_lines AppDeny cfg =
     [''chain=localin,action=P'', ''prog='' @ rc_app_identity_key cfg @ '',action=LD'']"
| "rule_lines AppAllow cfg =
     [''chain=localin,action=P'', ''prog='' @ rc_app_identity_key cfg @ '',action=LP'']"
| "rule_lines MatchFields cfg =
     (let peer = show_ip (rc_peer_ip cfg); target = show_ip (rc_target_ip cfg) in
      [''chain=localin,action=P'',
       tuple_line (peer @ ''/32'') target ''7001'' ''tcp'' ''LD'' ''localin'',
       tuple_line (peer_slash24 cfg) target ''7002'' ''tcp'' ''LD'' ''localin'',
       tuple_line ''*'' target ''7100-7110'' ''tcp'' ''LD'' ''localin'',
       tuple_line ''*,sport=8000-8005'' target ''7200'' ''udp'' ''LD'' ''localin'',
       ''sip=*,dip='' @ target @ '',proto=icmp,action=LD,chain=localin'',
       tuple_line ''*'' target ''7300'' ''*'' ''LD'' ''localin''])"
| "rule_lines Detection cfg = [''chain=localin,action=LD'']"
| "rule_lines Priority cfg =
     (let peer = show_ip (rc_peer_ip cfg); target = show_ip (rc_target_ip cfg) in
      [''chain=localin,action=P'',
       tuple_line peer target ''8001'' ''tcp'' ''P'' ''localin'',
       tuple_line peer target ''8001'' ''tcp'' ''LD'' ''localin'',
       tuple_line peer target ''8002'' ''tcp'' ''P'' ''localin''])"
| "rule_lines Traffic cfg =
     [''chain=localin,action=P'', ''prog='' @ rc_app_identity_key cfg @ '',action=LP'',
      tuple_line (show_ip (rc_peer_ip cfg)) (show_ip (rc_target_ip cfg)) ''5301'' ''udp'' ''P'' ''localin'']"

lemma prog_text:
  "''chain=localin,action=P\<newline>prog='' @ key @ '',action=LD\<newline>'' =
   ''chain=localin,action=P\<newline>'' @ ''prog='' @ key @ '',action=LD\<newline>'' @ []"
  "''chain=localin,action=P\<newline>prog='' @ key @ '',action=LP\<newline>'' =
   ''chain=localin,action=P\<newline>'' @ ''prog='' @ key @ '',action=LP\<newline>'' @ []"
  by simp_all

lemma lines_firewall_text:
  assumes "CHR 0x0A \<notin> set (rc_app_identity_key cfg)"
  shows "lines (firewall_text b cfg) = rule_lines b cfg"
  using assms
  by (cases b)
    (simp_all add: Let_def prog_text lines_chain lines_prog lines_icmp lines_tuple_rule
      lines_tuple_rule_last del: append.simps)


lemma rule_lines_are_rules: "l \<in> set (rule_lines b cfg) \<Longrightarrow> is_rule_line l"
  by (cases b) (auto simp: Let_def tuple_line_def is_rule_line_def starts_with_def)

section \<open>Bundles in provisioning order\<close>

definition bundle_rank :: "Bundle \<Rightarrow> nat" where
  "bundle_rank b = length (takeWhile (\<lambda>x. x \<noteq> b) bundle_order)"

lemma bundle_rank_inj: "bundle_rank a = bundle_rank b \<Longrightarrow> a = b"
  by (cases a; cases b) (simp_all add: bundle_rank_def bundle_order_def)

instantiation Bundle :: linorder
begin

definition less_eq_Bundle :: "Bundle \<Rightarrow> Bundle \<Rightarrow> bool" where
  "less_eq_Bundle a b = (bundle_rank a \<le> bundle_rank b)"

definition less_Bundle :: "Bundle \<Rightarrow> Bundle \<Rightarrow> bool" where
  "less_Bundle a b = (bundle_rank a < bundle_rank b)"

instance
  by standard (auto simp: less_eq_Bundle_def less_Bundle_def dest: bundle_rank_inj)

end

lemma bundle_order_sorted: "sorted_wrt (<) bundle_order"
  by (simp add: bundle_order_def less_Bundle_def bundle_rank_def)

lemma bundle_order_complete [simp]: "b \<in> set bundle_order"
  by (cases b) (simp_all add: bundle_order_def)

lemma bundle_order_distinct: "distinct bundle_order"
  by (simp add: bundle_order_def)

section \<open>Properties\<close>

text \<open>
  C33. The catalog is well-formed: case ids are distinct, every case is found under its own id, and
  every case belongs to a bundle that \<open>run-all\<close> provisions exactly once.
\<close>

theorem catalog_wellformed:
  "distinct (map fc_id all_cases) \<and> length all_cases = 30 \<and> distinct bundle_order \<and>
   list_all (\<lambda>c. case_by_id (fc_id c) = Some c \<and> fc_bundle c \<in> set bundle_order) all_cases"
proof -
  have d: "distinct (map fc_id all_cases)"
    by (simp add: all_cases_def case_lists)
  have find_distinct: "find (\<lambda>c. fc_id c = fc_id x) xs = Some x"
    if "distinct (map fc_id xs)" "x \<in> set xs" for x :: FwCase and xs
    using that by (induction xs) auto
  have "length all_cases = 30"
    by (simp add: all_cases_def case_lists)
  with d show ?thesis
    by (simp add: bundle_order_distinct case_by_id_def find_distinct list_all_iff)
qed

definition egress_expectation :: "Bundle \<Rightarrow> ExpectEvent \<Rightarrow> bool" where
  "egress_expectation b x \<longleftrightarrow> b = EgressTuple \<and>
     (x_rule_id x = Some 2 \<and> x_proto x = ''tcp'' \<and> x_match_dport x = Some 6001 \<or>
      x_rule_id x = Some 4 \<and> x_proto x = ''udp'' \<and> x_match_dport x = Some 6003)"

lemma rule_id_expectations:
  assumes "c \<in> set all_cases" and "fc_expect_event c = Some x" and "x_rule_id x = Some n"
  shows "egress_expectation (fc_bundle c) x"
proof -
  have "list_all
      (\<lambda>c. case fc_expect_event c of None \<Rightarrow> True
          | Some x \<Rightarrow> x_rule_id x \<noteq> None \<longrightarrow> egress_expectation (fc_bundle c) x) all_cases"
    by (simp add: all_cases_def case_lists event_def event_d_def egress_expectation_def)
  with assms show ?thesis
    by (force simp: list_all_iff)
qed

text \<open>
  C32. The rule numbers in the catalog are line numbers of the provisioned text: whenever a case
  expects an event with rule id n, line n of its bundle's rule text is the blocking rule for the
  expected destination port and protocol, in the direction of the case's traffic.
\<close>

theorem expected_rule_id_is_line:
  assumes "c \<in> set all_cases" and "fc_expect_event c = Some x" and "x_rule_id x = Some n"
  shows "\<exists>p. x_match_dport x = Some p \<and> 1 \<le> n \<and>
     nat n \<le> length (lines (firewall_text (fc_bundle c) cfg)) \<and>
     lines (firewall_text (fc_bundle c) cfg) ! (nat n - 1) =
       ''sip='' @ show_ip (rc_target_ip cfg) @ '',dip='' @ show_ip (rc_peer_ip cfg) @
       '',dport='' @ show_word p @ '',proto='' @ x_proto x @ '',action=LD,chain=output''"
proof -
  have ex: "egress_expectation (fc_bundle c) x"
    using assms by (rule rule_id_expectations)
  have "lines (firewall_text EgressTuple cfg) = rule_lines EgressTuple cfg"
    using lines_firewall_text [of "cfg\<lparr>rc_app_identity_key := []\<rparr>" EgressTuple] by simp
  with ex assms(3) show ?thesis
    by (auto simp: egress_expectation_def Let_def tuple_line_def show_word_def)
qed

theorem expected_rule_id_is_line_witness:
  "lines (firewall_text EgressTuple demo_cfg) ! 1 =
   ''sip=10.123.0.1,dip=10.123.0.2,dport=6001,proto=tcp,action=LD,chain=output''"
proof -
  have "egress_cases ! 0 \<in> set all_cases"
    by (simp add: all_cases_def egress_cases_def)
  from expected_rule_id_is_line [OF this, of _ 2 demo_cfg] show ?thesis
    by (simp add: egress_cases_def event_d_def demo_cfg_def show_ipv4_def show_word_def)
qed

end
