(* ===== verification/Packet.thy ===== *)
theory Packet
  imports Net
begin

text \<open>
  Packet construction of the worker: the Internet checksum of \<open>agent/traffic.rs\<close> (over ICMP
  messages and over TCP segments with their pseudo-header), the ICMP echo and timestamp requests,
  the bare FIN segment, the recogniser of echo replies, and the gratuitous ARP reply of
  \<open>agent/arp.rs\<close>. Arrays are byte lists of the array's length; a slice assignment is \<open>put_slice\<close>.
\<close>

section \<open>Bytes\<close>

definition from_be_bytes :: "u8 \<Rightarrow> u8 \<Rightarrow> u16" where
  "from_be_bytes a b = push_bit 8 (ucast a) OR ucast b"

definition to_be_bytes :: "u16 \<Rightarrow> u8 list" where
  "to_be_bytes w = [ucast (drop_bit 8 w), ucast w]"

definition to_be_bytes32 :: "u32 \<Rightarrow> u8 list" where
  "to_be_bytes32 w =
     [ucast (drop_bit 24 w), ucast (drop_bit 16 w), ucast (drop_bit 8 w), ucast w]"

definition bytes_of :: "string \<Rightarrow> u8 list" where
  "bytes_of s = map of_char s"

text \<open>\<open>packet[i..i + n].copy_from_slice(bytes)\<close>.\<close>

definition put_slice :: "nat \<Rightarrow> u8 list \<Rightarrow> u8 list \<Rightarrow> u8 list" where
  "put_slice i bytes packet = take i packet @ bytes @ drop (i + length bytes) packet"

section \<open>The Internet checksum\<close>

text \<open>The sum over the two-byte chunks; an odd last byte is padded with zero.\<close>

fun sum_chunks :: "u32 \<Rightarrow> u8 list \<Rightarrow> u32" where
  "sum_chunks acc (a # b # rest) = sum_chunks (acc + ucast (from_be_bytes a b)) rest"
| "sum_chunks acc [a] = acc + ucast (from_be_bytes a 0)"
| "sum_chunks acc [] = acc"

text \<open>The carry loop \<open>while (sum >> 16) != 0\<close>.\<close>

lemma unat_low16: "unat (s AND 0xffff) = unat s mod 65536" for s :: u32
proof -
  have "s AND 0xffff = take_bit 16 s"
    by (simp add: take_bit_eq_mask mask_eq_exp_minus_1)
  then show ?thesis
    by (simp add: take_bit_eq_mod unat_mod)
qed

lemma unat_high16: "unat (drop_bit 16 s) = unat s div 65536" for s :: u32
  by (simp add: drop_bit_eq_div unat_div)

lemma fold_step:
  "unat ((s AND 0xffff) + drop_bit 16 s) = unat s mod 65536 + unat s div 65536" for s :: u32
proof -
  have "unat s div 65536 < 65536" and "unat s mod 65536 < 65536"
    using unsigned_less [of s, where 'a = nat] by (simp_all add: less_mult_imp_div_less)
  then have "unat s mod 65536 + unat s div 65536 < 2 ^ LENGTH(32)"
    by simp
  then show ?thesis
    by (simp add: unat_word_ariths(1) unat_low16 unat_high16)
qed

function fold_carry :: "u32 \<Rightarrow> u32" where
  "fold_carry s =
     (if drop_bit 16 s \<noteq> 0 then fold_carry ((s AND 0xffff) + drop_bit 16 s) else s)"
  by pat_completeness auto
termination
proof (relation "measure unat")
  fix s :: u32
  assume "drop_bit 16 s \<noteq> 0"
  then have "unat s div 65536 \<noteq> 0"
    by (metis unat_high16 unat_eq_zero)
  then have "unat s mod 65536 + unat s div 65536 < unat s"
    using div_mult_mod_eq [of "unat s" 65536] by linarith
  then show "((s AND 0xffff) + drop_bit 16 s, s) \<in> measure unat"
    by (simp add: fold_step)
qed simp

declare fold_carry.simps [simp del]

definition icmp_checksum :: "u8 list \<Rightarrow> u16" where
  "icmp_checksum data = NOT (ucast (fold_carry (sum_chunks 0 data)))"

text \<open>The pseudo-header: both addresses, the protocol number 6 and the segment length.\<close>

definition pseudo_sum :: "ipv4 \<Rightarrow> ipv4 \<Rightarrow> nat \<Rightarrow> u32" where
  "pseudo_sum src dst len =
     sum_chunks (sum_chunks 0 (octets src)) (octets dst) + 6 + ucast (of_nat len :: u16)"

definition tcp_checksum :: "ipv4 \<Rightarrow> ipv4 \<Rightarrow> u8 list \<Rightarrow> u16" where
  "tcp_checksum src dst tcp =
     NOT (ucast (fold_carry (sum_chunks (pseudo_sum src dst (length tcp)) tcp)))"

section \<open>Packets\<close>

definition build_icmp_echo :: "u16 \<Rightarrow> u16 \<Rightarrow> u8 list" where
  "build_icmp_echo ident seq =
     (let packet = (replicate 16 0)[0 := 8];
          packet = put_slice 4 (to_be_bytes ident) packet;
          packet = put_slice 6 (to_be_bytes seq) packet;
          packet = put_slice 8 (bytes_of ''fwagentp'') packet;
          checksum = icmp_checksum packet
      in put_slice 2 (to_be_bytes checksum) packet)"

definition build_icmp_timestamp :: "u16 \<Rightarrow> u16 \<Rightarrow> u8 list" where
  "build_icmp_timestamp ident seq =
     (let packet = (replicate 20 0)[0 := 13];
          packet = put_slice 4 (to_be_bytes ident) packet;
          packet = put_slice 6 (to_be_bytes seq) packet;
          checksum = icmp_checksum packet
      in put_slice 2 (to_be_bytes checksum) packet)"

definition is_matching_echo_reply :: "u8 list \<Rightarrow> u16 \<Rightarrow> bool" where
  "is_matching_echo_reply frame ident =
     (case frame of
        [] \<Rightarrow> False
      | first # _ \<Rightarrow>
          (let ihl = unat (first AND 0x0f) * 4;
               icmp = drop (min ihl (length frame)) frame
           in 6 \<le> length icmp \<and> icmp ! 0 = 0 \<and> from_be_bytes (icmp ! 4) (icmp ! 5) = ident))"

definition build_fin :: "ipv4 \<Rightarrow> ipv4 \<Rightarrow> u16 \<Rightarrow> u16 \<Rightarrow> u32 \<Rightarrow> u8 list" where
  "build_fin src dst sport dport seq =
     (let tcp = replicate 20 0;
          tcp = put_slice 0 (to_be_bytes sport) tcp;
          tcp = put_slice 2 (to_be_bytes dport) tcp;
          tcp = put_slice 4 (to_be_bytes32 seq) tcp;
          off_flags = push_bit 12 5 OR 0x0001;
          tcp = put_slice 12 (to_be_bytes off_flags) tcp;
          tcp = put_slice 14 (to_be_bytes 1024) tcp;
          checksum = tcp_checksum src dst tcp
      in put_slice 16 (to_be_bytes checksum) tcp)"

definition ETH_P_ARP :: u16 where "ETH_P_ARP = 0x0806"

definition ARPHRD_ETHER :: u16 where "ARPHRD_ETHER = 1"

definition ARPOP_REPLY :: u16 where "ARPOP_REPLY = 2"

definition build_arp_reply :: "u8 list \<Rightarrow> ipv4 \<Rightarrow> u8 list" where
  "build_arp_reply src_mac claim_ip =
     (let frame = replicate 42 0;
          frame = put_slice 0 (replicate 6 0xff) frame;
          frame = put_slice 6 src_mac frame;
          frame = put_slice 12 (to_be_bytes ETH_P_ARP) frame;
          frame = put_slice 14 (to_be_bytes ARPHRD_ETHER) frame;
          frame = put_slice 16 (to_be_bytes 0x0800) frame;
          frame = frame[18 := 6];
          frame = frame[19 := 4];
          frame = put_slice 20 (to_be_bytes ARPOP_REPLY) frame;
          frame = put_slice 22 src_mac frame;
          frame = put_slice 28 (octets claim_ip) frame;
          frame = put_slice 32 (replicate 6 0xff) frame
      in put_slice 38 (octets claim_ip) frame)"

section \<open>The checksum as a number\<close>

text \<open>The sum of the big-endian words as an unbounded number.\<close>

fun word_sum :: "u8 list \<Rightarrow> nat" where
  "word_sum (a # b # rest) = 256 * unat a + unat b + word_sum rest"
| "word_sum [a] = 256 * unat a"
| "word_sum [] = 0"

text \<open>One's complement residue: the representative of \<open>n\<close> modulo 65535 in the range of 16 bits.\<close>

definition fold16 :: "nat \<Rightarrow> nat" where
  "fold16 n = (if n = 0 then 0 else (n - 1) mod 65535 + 1)"

lemma fold16_bounds: "fold16 n \<le> 65535"
proof -
  have "(n - 1) mod 65535 < 65535"
    by simp
  then show ?thesis
    unfolding fold16_def by (simp del: mod_less_divisor)
qed

lemma fold16_small: "n < 65536 \<Longrightarrow> fold16 n = n"
  by (auto simp: fold16_def)

lemma fold16_fold: "fold16 (n mod 65536 + n div 65536) = fold16 n"
proof (cases "n = 0")
  case False
  define q r where "q = n div 65536" and "r = n mod 65536"
  have n: "n = 65536 * q + r"
    by (simp add: q_def r_def)
  with False have pos: "q + r > 0"
    by auto
  have "(n - 1) mod 65535 = (65535 * q + (q + r - 1)) mod 65535"
    using pos n by (intro arg_cong [where f = "\<lambda>x. x mod 65535"]) linarith
  also have "\<dots> = (q + r - 1) mod 65535"
    by simp
  finally show ?thesis
    using pos False by (simp add: fold16_def add.commute flip: q_def r_def)
qed (simp add: fold16_def)

lemma unat_fold_carry: "unat (fold_carry s) = fold16 (unat s)"
proof (induction s rule: fold_carry.induct)
  case (1 s)
  show ?case
  proof (cases "drop_bit 16 s = 0")
    case True
    then have "unat s div 65536 = 0"
      by (metis unat_high16 unat_0)
    with True show ?thesis
      by (subst fold_carry.simps) (simp add: fold16_small div_eq_0_iff)
  next
    case False
    with 1 show ?thesis
      by (subst fold_carry.simps) (simp add: fold_step fold16_fold)
  qed
qed

lemma fold16_pos: "0 < n \<Longrightarrow> 0 < fold16 n"
  by (simp add: fold16_def)

lemma fold16_mod: "fold16 n mod 65535 = n mod 65535"
proof (cases "n = 0")
  case False
  then have "((n - 1) mod 65535 + 1) mod 65535 = (n - 1 + 1) mod 65535"
    by (rule_tac mod_add_left_eq)
  with False show ?thesis by (simp add: fold16_def)
qed (simp add: fold16_def)

lemma fold16_multiple: "0 < n \<Longrightarrow> 65535 dvd n \<Longrightarrow> fold16 n = 65535"
proof -
  assume "0 < n" and "65535 dvd n"
  then have "0 < fold16 n" and "65535 dvd fold16 n"
    using fold16_mod [of n] by (simp_all add: fold16_pos dvd_eq_mod_eq_0)
  with fold16_bounds [of n] show ?thesis
    using dvd_imp_le [of 65535 "fold16 n"] by simp
qed

lemma unat_u8: "unat (a :: u8) < 256"
  using unsigned_less [of a, where 'a = nat] by simp

lemma unat_from_be: "unat (from_be_bytes a b) = 256 * unat a + unat b"
proof -
  have disj: "(push_bit 8 (ucast a) :: u16) AND ucast b = 0"
    by (rule bit_word_eqI) (auto simp: bit_simps bit_u8_beyond)
  have "from_be_bytes a b = push_bit 8 (ucast a) + ucast b"
    unfolding from_be_bytes_def by (rule disjunctive_add_eq_or [OF disj, symmetric])
  moreover have "unat (push_bit 8 (ucast a) :: u16) = 256 * unat a"
    using unat_u8 [of a]
    by (simp add: push_bit_eq_mult unat_word_ariths(2) unsigned_ucast_eq take_bit_eq_mod)
  moreover have "unat (ucast b :: u16) = unat b"
    using unat_u8 [of b] by (simp add: unsigned_ucast_eq take_bit_eq_mod)
  ultimately show ?thesis
    using unat_u8 [of a] unat_u8 [of b] by (simp add: unat_word_ariths(1))
qed

lemma from_to_be_raw: "from_be_bytes (ucast (drop_bit 8 w)) (ucast w) = w"
  by (rule bit_word_eqI) (auto simp: from_be_bytes_def bit_simps)

lemma length_to_be [simp]: "length (to_be_bytes w) = 2"
  by (simp add: to_be_bytes_def)

lemma from_to_be: "from_be_bytes (to_be_bytes w ! 0) (to_be_bytes w ! 1) = w"
  by (simp add: to_be_bytes_def from_to_be_raw)

lemma word_sum_to_be: "word_sum (to_be_bytes w) = unat w"
  using unat_from_be [of "ucast (drop_bit 8 w)" "ucast w"]
  by (simp add: to_be_bytes_def from_to_be_raw)

lemma word_sum_append: "even (length xs) \<Longrightarrow> word_sum (xs @ ys) = word_sum xs + word_sum ys"
  by (induction xs rule: word_sum.induct) auto

lemma word_sum_le: "word_sum bs \<le> 65535 * ((length bs + 1) div 2)"
proof (induction bs rule: word_sum.induct)
  case (1 a b rest)
  then show ?case using unat_u8 [of a] unat_u8 [of b] by simp
next
  case (2 a)
  then show ?case using unat_u8 [of a] by simp
qed simp

lemma unat_sum_chunks:
  "unat acc + word_sum bs < 2 ^ 32 \<Longrightarrow> unat (sum_chunks acc bs) = unat acc + word_sum bs"
proof (induction acc bs rule: sum_chunks.induct)
  case (1 acc a b rest)
  have "unat (ucast (from_be_bytes a b) :: u32) = 256 * unat a + unat b"
    using unat_u8 [of a] unat_u8 [of b]
    by (simp add: unsigned_ucast_eq take_bit_eq_mod unat_from_be)
  with 1 show ?case by (simp add: unat_word_ariths(1))
next
  case (2 acc a)
  have "unat (ucast (from_be_bytes a 0) :: u32) = 256 * unat a"
    using unat_u8 [of a]
    by (simp add: unsigned_ucast_eq take_bit_eq_mod unat_from_be)
  with 2 show ?case by (simp add: unat_word_ariths(1))
qed simp

lemma put_slice_split:
  assumes "i + length bytes \<le> length packet"
  shows "length (put_slice i bytes packet) = length packet"
  using assms by (simp add: put_slice_def)

lemma nth_put_slice_before: "j < i \<Longrightarrow> i \<le> length packet \<Longrightarrow> put_slice i bytes packet ! j = packet ! j"
  by (simp add: put_slice_def nth_append)

lemma nth_put_slice_after:
  "i + length bytes \<le> j \<Longrightarrow> i + length bytes \<le> length packet \<Longrightarrow>
   put_slice i bytes packet ! j = packet ! j"
  by (auto simp: put_slice_def nth_append)

lemma nth_put_slice_in:
  "i \<le> j \<Longrightarrow> j < i + length bytes \<Longrightarrow> i + length bytes \<le> length packet \<Longrightarrow>
   put_slice i bytes packet ! j = bytes ! (j - i)"
  by (auto simp: put_slice_def nth_append)

lemma put_slice_run:
  "put_slice i [] xs = xs"
  "put_slice 0 (b # bs) (x # xs) = b # put_slice 0 bs xs"
  "put_slice (Suc i) bs (x # xs) = x # put_slice i bs xs"
  "put_slice (numeral k) bs (x # xs) = x # put_slice (pred_numeral k) bs xs"
  by (simp_all add: put_slice_def numeral_eq_Suc)

lemma list_run:
  "replicate (numeral k) x = x # replicate (pred_numeral k) x"
  "(x # xs)[numeral k := y] = x # xs[pred_numeral k := y]"
  by (simp_all add: numeral_eq_Suc)

lemmas put_slice_simps = put_slice_split nth_put_slice_before nth_put_slice_after

lemma length_bytes [simp]: "length (to_be_bytes32 v) = 4" "length (bytes_of s) = length s"
    "length (octets a) = 4"
  by (simp_all add: to_be_bytes32_def bytes_of_def) (cases a, simp)

lemma word_sum_put_slice:
  assumes "even k" and "k + 2 \<le> length bs" and "bs ! k = 0" and "bs ! (k + 1) = 0"
  shows "word_sum (put_slice k (to_be_bytes w) bs) = word_sum bs + unat w"
proof -
  have len: "even (length (take k bs))"
    using assms by simp
  have "drop k bs = [0, 0] @ drop (k + 2) bs"
    using assms Cons_nth_drop_Suc [of k bs] Cons_nth_drop_Suc [of "Suc k" bs] by simp
  then have "bs = take k bs @ [0, 0] @ drop (k + 2) bs"
    by (metis append_take_drop_id)
  then have "word_sum bs = word_sum (take k bs) + word_sum ([0, 0] @ drop (k + 2) bs)"
    using word_sum_append [OF len] by metis
  then have "word_sum bs = word_sum (take k bs) + word_sum (drop (k + 2) bs)"
    by simp
  then show ?thesis
    using word_sum_append [OF len] word_sum_append [of "to_be_bytes w" "drop (k + 2) bs"]
    by (simp add: put_slice_def word_sum_to_be)
qed

lemma unat_not_u16: "unat (NOT (x :: u16)) = 65535 - unat x"
proof -
  have "NOT x = 65535 - x"
    using not_eq_complement [of x] by simp
  moreover have "x \<le> 65535"
    using unsigned_less [of x, where 'a = nat] by (simp add: word_le_nat_alt)
  ultimately show ?thesis
    by (simp add: unat_sub)
qed

section \<open>The checksum contract\<close>

text \<open>
  Both checksum functions are the complement of a folded sum that starts from a base depending
  on the length only. The contract of such a function: it computes the one's complement
  checksum, and a packet that carries its own checksum in a zeroed, even-aligned field sums up
  to zero.
\<close>

locale internet_checksum =
  fixes cks :: "u8 list \<Rightarrow> u16" and base :: "nat \<Rightarrow> u32"
  assumes cks_eq: "cks bs = NOT (ucast (fold_carry (sum_chunks (base (length bs)) bs)))"
    and base_small: "unat (base n) \<le> 2 ^ 20"
begin

lemma value_eq:
  assumes "length bs \<le> 65536"
  shows "unat (cks bs) = 65535 - fold16 (unat (base (length bs)) + word_sum bs)"
proof -
  have "(length bs + 1) div 2 \<le> 32768"
    using assms by simp
  then have "word_sum bs \<le> 65535 * 32768"
    using word_sum_le [of bs] by (meson le_trans mult_le_mono2)
  then have "unat (base (length bs)) + word_sum bs < 2 ^ 32"
    using base_small [of "length bs"] by simp
  then have "unat (fold_carry (sum_chunks (base (length bs)) bs)) =
      fold16 (unat (base (length bs)) + word_sum bs)"
    by (simp add: unat_fold_carry unat_sum_chunks)
  then show ?thesis
    using fold16_bounds [of "unat (base (length bs)) + word_sum bs"]
    by (simp add: cks_eq unat_not_u16 unsigned_ucast_eq take_bit_eq_mod)
qed

lemma verifies:
  assumes "length bs \<le> 65536" and "even k" and "k + 2 \<le> length bs"
    and "bs ! k = 0" and "bs ! (k + 1) = 0"
  shows "cks (put_slice k (to_be_bytes (cks bs)) bs) = 0"
proof -
  define t where "t = unat (base (length bs)) + word_sum bs"
  define u where "u = t + (65535 - fold16 t)"
  have len: "length (put_slice k (to_be_bytes (cks bs)) bs) = length bs"
    using assms by (simp add: put_slice_split)
  have "unat (cks bs) = 65535 - fold16 t"
    using assms by (simp add: value_eq t_def)
  then have "unat (cks (put_slice k (to_be_bytes (cks bs)) bs)) = 65535 - fold16 u"
    using assms len
    by (simp add: value_eq [of "put_slice k (to_be_bytes (cks bs)) bs"] word_sum_put_slice u_def
        t_def add.assoc)
  moreover have "fold16 u = 65535"
  proof (rule fold16_multiple)
    show "0 < u"
      by (cases "t = 0") (simp_all add: u_def fold16_def)
    have "(u + fold16 t) mod 65535 = (t + 65535) mod 65535"
      using fold16_bounds [of t] by (simp add: u_def)
    then have "(u + fold16 t) mod 65535 = fold16 t mod 65535"
      by (simp add: fold16_mod)
    then show "65535 dvd u"
      by (metis add.commute add_0 mod_add_self2 mod_eq_dvd_iff_nat  le_add1 diff_add_inverse)
  qed
  ultimately show ?thesis
    by (simp add: word_unat_eq_iff)
qed

end

interpretation icmp: internet_checksum icmp_checksum "\<lambda>_. 0"
  by unfold_locales (simp_all add: icmp_checksum_def)

text \<open>The pseudo-header sums up four address words, the protocol and a length: no wrap-around.\<close>

lemma unat_pseudo_sum:
  "unat (pseudo_sum src dst n) = word_sum (octets src) + word_sum (octets dst) + 6 + n mod 65536"
  (is "_ = ?s + ?d + 6 + _")
proof -
  have bound: "?s \<le> 131070" "?d \<le> 131070"
    using word_sum_le [of "octets src"] word_sum_le [of "octets dst"] by simp_all
  have l: "unat (ucast (of_nat n :: u16) :: u32) = n mod 65536"
    by (simp add: unsigned_ucast_eq take_bit_eq_mod unat_of_nat)
  have s: "unat (sum_chunks 0 (octets src)) = ?s"
    using bound by (simp add: unat_sum_chunks)
  have d: "unat (sum_chunks (sum_chunks 0 (octets src)) (octets dst)) = ?s + ?d"
    using bound by (simp add: unat_sum_chunks s)
  have "n mod 65536 < 65536"
    by simp
  then show ?thesis
    using bound by (simp add: pseudo_sum_def unat_word_ariths(1) d l)
qed

interpretation tcp: internet_checksum "tcp_checksum src dst" "pseudo_sum src dst" for src dst
proof unfold_locales
  fix bs and n :: nat
  show "tcp_checksum src dst bs =
      NOT (ucast (fold_carry (sum_chunks (pseudo_sum src dst (length bs)) bs)))"
    by (simp add: tcp_checksum_def)
  have "n mod 65536 < 65536"
    by simp
  then show "unat (pseudo_sum src dst n) \<le> 2 ^ 20"
    using word_sum_le [of "octets src"] word_sum_le [of "octets dst"]
    by (simp add: unat_pseudo_sum)
qed

text \<open>The pseudo-header as bytes, as RFC 793 lays it out.\<close>

definition pseudo_header :: "ipv4 \<Rightarrow> ipv4 \<Rightarrow> nat \<Rightarrow> u8 list" where
  "pseudo_header src dst len = octets src @ octets dst @ [0, 6] @ to_be_bytes (of_nat len)"

lemma word_sum_pseudo:
  "word_sum (pseudo_header src dst len @ bs) =
   word_sum (octets src) + word_sum (octets dst) + 6 + len mod 65536 + word_sum bs"
  by (simp add: pseudo_header_def word_sum_append word_sum_to_be unat_of_nat)

lemma tcp_value:
  assumes "length bs < 65536"
  shows "unat (tcp_checksum src dst bs) =
    65535 - fold16 (word_sum (pseudo_header src dst (length bs) @ bs))"
  using tcp.value_eq [of bs src dst] assms by (simp add: word_sum_pseudo unat_pseudo_sum add.assoc)

section \<open>Properties\<close>

text \<open>
  C16. The checksum loop computes the Internet checksum: for a packet of at most 65536 bytes the
  32-bit accumulator never wraps, and the result is the one's complement of the end-around-carry
  sum of the big-endian 16-bit words (an odd last byte padded with zero).
\<close>

theorem icmp_checksum_correct:
  assumes "length data \<le> 65536"
  shows "unat (icmp_checksum data) =
     65535 - (if word_sum data = 0 then 0 else (word_sum data - 1) mod 65535 + 1)"
  using icmp.value_eq [OF assms] by (simp add: fold16_def)

theorem icmp_checksum_correct_witness: "unat (icmp_checksum [8, 0, 0, 0, 0xab]) = 19711"
  using icmp_checksum_correct [of "[8, 0, 0, 0, 0xab]"] by simp

text \<open>
  C17. Every ICMP packet the worker sends is accepted by a receiver: the checksum of an echo or
  timestamp request, taken over the packet with its checksum in place, is zero for every
  identifier and sequence number.
\<close>

theorem icmp_packets_verify:
  "icmp_checksum (build_icmp_echo ident seq) = 0 \<and>
   icmp_checksum (build_icmp_timestamp ident seq) = 0"
proof
  show "icmp_checksum (build_icmp_echo ident seq) = 0"
    unfolding build_icmp_echo_def Let_def
    by (rule icmp.verifies) (simp_all add: put_slice_simps)
  show "icmp_checksum (build_icmp_timestamp ident seq) = 0"
    unfolding build_icmp_timestamp_def Let_def
    by (rule icmp.verifies) (simp_all add: put_slice_simps)
qed

text \<open>
  C15. The bare FIN segment is what a receiver accepts: for every address pair, port pair and
  sequence number it is twenty bytes with the ports and the sequence number in network order, no
  acknowledgement, a header of five words, FIN as the only flag, and a window of 1024; and the words
  of the TCP pseudo-header of RFC 793 (both addresses, a zero byte, protocol number 6, the length
  twenty) followed by the segment sum up to a positive multiple of 65535, which is the one's
  complement zero that makes the checksum valid.
\<close>

theorem fin_segment_verifies:
  "length (build_fin src dst sport dport seq) = 20 \<and>
   take 16 (build_fin src dst sport dport seq) =
     to_be_bytes sport @ to_be_bytes dport @ to_be_bytes32 seq @ [0, 0, 0, 0] @ [0x50, 0x01] @ [0x04, 0x00] \<and>
   drop 18 (build_fin src dst sport dport seq) = [0, 0] \<and>
   0 < word_sum (octets src @ octets dst @ [0, 6, 0, 20] @ build_fin src dst sport dport seq) \<and>
   word_sum (octets src @ octets dst @ [0, 6, 0, 20] @ build_fin src dst sport dport seq) mod 65535 = 0"
proof -
  let ?seg = "build_fin src dst sport dport seq"
  have len: "length ?seg = 20"
    by (simp add: build_fin_def Let_def put_slice_simps)
  have "tcp_checksum src dst ?seg = 0"
    unfolding build_fin_def Let_def by (rule tcp.verifies) (simp_all add: put_slice_simps)
  then have "fold16 (word_sum (pseudo_header src dst 20 @ ?seg)) = 65535"
    using tcp_value [of ?seg src dst] fold16_bounds len by (simp add: le_antisym)
  then have "word_sum (pseudo_header src dst 20 @ ?seg) mod 65535 = 0"
    using fold16_mod by (metis mod_self)
  moreover have "0 < word_sum (pseudo_header src dst 20 @ ?seg)"
    by (simp add: word_sum_pseudo)
  moreover have "pseudo_header src dst 20 = octets src @ octets dst @ [0, 6, 0, 20]"
    by (simp add: pseudo_header_def to_be_bytes_def)
  moreover have "take 16 ?seg = to_be_bytes sport @ to_be_bytes dport @ to_be_bytes32 seq @
      [0, 0, 0, 0] @ [0x50, 0x01] @ [0x04, 0x00]" and "drop 18 ?seg = [0, 0]"
    by (simp_all add: build_fin_def Let_def put_slice_run list_run to_be_bytes_def to_be_bytes32_def)
  ultimately show ?thesis
    using len by simp
qed

text \<open>
  C39. The TCP checksum is the one of RFC 793: for a segment of less than 65536 bytes it is the one's
  complement of the end-around-carry sum of the pseudo-header (both addresses, a zero byte, protocol
  number 6 and the length of the segment in network order) followed by the segment, whose odd last
  byte is padded with zero. The 32-bit accumulator never wraps.
\<close>

theorem tcp_checksum_correct:
  assumes "length tcp < 65536"
  shows "unat (tcp_checksum src dst tcp) = 65535 -
     (let total = word_sum (octets src @ octets dst @ [0, 6] @ to_be_bytes (of_nat (length tcp)) @ tcp)
      in if total = 0 then 0 else (total - 1) mod 65535 + 1)"
  using tcp_value [OF assms, of src dst] by (simp add: pseudo_header_def fold16_def Let_def)

theorem tcp_checksum_correct_witness:
  "unat (tcp_checksum (Ipv4 10 0 0 1) (Ipv4 10 0 0 2) [1, 2, 3]) = 59377"
  using tcp_checksum_correct [of "[1, 2, 3]" "Ipv4 10 0 0 1" "Ipv4 10 0 0 2"]
  by (simp add: to_be_bytes_def)



text \<open>
  The gratuitous ARP frame has the Ethernet and ARP layout: 42 bytes, broadcast destination,
  the sender's MAC twice, and the claimed address both as sender and as target protocol address.
\<close>

theorem arp_reply_layout:
  "length mac = 6 \<Longrightarrow>
   build_arp_reply mac ip =
     replicate 6 0xff @ mac @ [0x08, 0x06] @
     [0x00, 0x01, 0x08, 0x00, 6, 4, 0x00, 0x02] @ mac @ octets ip @ replicate 6 0xff @ octets ip"
proof -
  assume "length mac = 6"
  then obtain a b c d e f where "mac = [a, b, c, d, e, f]"
    by (auto simp: numeral_nat length_Suc_conv)
  then show ?thesis
    by (cases ip)
      (simp add: build_arp_reply_def Let_def put_slice_run list_run to_be_bytes_def ETH_P_ARP_def
        ARPHRD_ETHER_def ARPOP_REPLY_def)
qed

theorem arp_reply_layout_witness:
  "take 14 (build_arp_reply [2, 0, 0, 0, 0, 1] (Ipv4 10 123 0 2)) =
   [255, 255, 255, 255, 255, 255, 2, 0, 0, 0, 0, 1, 8, 6]"
  using arp_reply_layout [of "[2, 0, 0, 0, 0, 1]" "Ipv4 10 123 0 2"] by (simp add: list_run)

end
