(* ===== verification/Worker.thy ===== *)
theory Worker
  imports Packet Effects
begin

text \<open>
  The traffic worker of \<open>agent/traffic.rs\<close>, \<open>agent/listen.rs\<close>, \<open>agent/connflood.rs\<close> and
  \<open>agent/arp.rs\<close>, with the credential drop and the wall clock of \<open>agent/mod.rs\<close>. It is
  re-executed by the orchestrator (inside the PEER namespace, in the background or under a dropped
  uid) and hands back one line of JSON. Socket calls are actions answered by the environment.

  The threads of a parallel burst share only immutable arguments and each performs only its own
  socket calls, so they are run here one after the other in index order, the order in which the
  source joins them: an interleaving can only change the answers of the environment, and those are
  arbitrary functions of the history already. Theory \<open>Burst\<close> has the threads as a step relation.
\<close>

section \<open>Arguments\<close>

datatype Proto = P_Tcp | P_Udp | P_Icmp

datatype IcmpKind = Echo | Timestamp

fun show_proto :: "Proto \<Rightarrow> string" where
  "show_proto P_Tcp = ''tcp''"
| "show_proto P_Udp = ''udp''"
| "show_proto P_Icmp = ''icmp''"

record TrafficArgs =
  ta_proto :: Proto
  ta_to :: ipaddr
  ta_dport :: "u16 option"
  ta_dports :: "string option"
  ta_sport :: "u16 option"
  ta_count :: u32
  ta_interval_ms :: u64
  ta_timeout_ms :: u64
  ta_await_reply :: bool
  ta_fin_only :: bool
  ta_icmp_type :: IcmpKind
  ta_uid :: "u32 option"

section \<open>Outcomes and their tally\<close>

datatype Outcome = O_Success | O_Timeout | O_Refused | O_Denied | O_Sent | O_Other

record Tally =
  t_success :: u32
  t_timeout :: u32
  t_refused :: u32
  t_denied :: u32
  t_sent :: u32
  t_other :: u32

definition tally_default :: Tally where
  "tally_default =
     \<lparr>t_success = 0, t_timeout = 0, t_refused = 0, t_denied = 0, t_sent = 0, t_other = 0\<rparr>"

fun tally_record :: "Outcome \<Rightarrow> Tally \<Rightarrow> Tally" where
  "tally_record O_Success t = t\<lparr>t_success := t_success t + 1\<rparr>"
| "tally_record O_Timeout t = t\<lparr>t_timeout := t_timeout t + 1\<rparr>"
| "tally_record O_Refused t = t\<lparr>t_refused := t_refused t + 1\<rparr>"
| "tally_record O_Denied t = t\<lparr>t_denied := t_denied t + 1\<rparr>"
| "tally_record O_Sent t = t\<lparr>t_sent := t_sent t + 1\<rparr>"
| "tally_record O_Other t = t\<lparr>t_other := t_other t + 1\<rparr>"

definition tally_attempts :: "Tally \<Rightarrow> u32" where
  "tally_attempts t =
     t_success t + t_timeout t + t_refused t + t_denied t + t_sent t + t_other t"

definition tally_verdict :: "Tally \<Rightarrow> string" where
  "tally_verdict t =
     (if t_success t > 0 then ''allowed''
      else if t_timeout t > 0 \<or> t_denied t > 0 then ''blocked''
      else if t_refused t > 0 then ''refused''
      else if t_sent t > 0 then ''sent''
      else ''unknown'')"

fun classify_kind :: "io_kind \<Rightarrow> Outcome" where
  "classify_kind TimedOut = O_Timeout"
| "classify_kind WouldBlock = O_Timeout"
| "classify_kind ConnectionRefused = O_Refused"
| "classify_kind PermissionDenied = O_Denied"
| "classify_kind _ = O_Other"

definition classify_io :: "io_error \<Rightarrow> Outcome" where
  "classify_io error = classify_kind (kind error)"

section \<open>Single attempts\<close>

fun is_ipv4 :: "ipaddr \<Rightarrow> bool" where
  "is_ipv4 (V4 _) = True"
| "is_ipv4 (V6 _) = False"

definition unspecified :: "bool \<Rightarrow> ipaddr" where
  "unspecified v4 = (if v4 then V4 (Ipv4 0 0 0 0) else V6 0)"

abbreviation sys_ctx :: "'j env \<Rightarrow> string \<Rightarrow> sys_call \<Rightarrow> unit res io" where
  "sys_ctx E msg c \<equiv> ctx msg (map_res lift_io (sys_unit E c))"

definition tcp_attempt ::
  "'j env \<Rightarrow> ipaddr \<Rightarrow> u16 \<Rightarrow> u16 option \<Rightarrow> u64 \<Rightarrow> Outcome res io" where
  "tcp_attempt E to dport sport timeout_ms =
     and_then (sys_ctx E ''failed to create tcp socket'' (TcpSocket (is_ipv4 to))) (\<lambda>_.
     and_then
       (case sport of
          None \<Rightarrow> ret (Ok ())
        | Some port \<Rightarrow>
            and_then (sys_ctx E ''failed to set reuse_address'' SetReuseAddress) (\<lambda>_.
              sys_ctx E (''failed to bind source port '' @ show_word port)
                (TcpBind (unspecified (is_ipv4 to)) port))) (\<lambda>_.
     do {
       r \<leftarrow> sys_unit E (ConnectTimeout to dport (unat timeout_ms));
       ret (Ok (case r of Inr _ \<Rightarrow> O_Success | Inl error \<Rightarrow> classify_io error))
     }))"

definition udp_attempt ::
  "'j env \<Rightarrow> ipaddr \<Rightarrow> u16 \<Rightarrow> u16 option \<Rightarrow> u64 \<Rightarrow> bool \<Rightarrow> Outcome res io" where
  "udp_attempt E to dport sport timeout_ms await_reply =
     (let bind_port = (case sport of None \<Rightarrow> 0 | Some p \<Rightarrow> p) in
      and_then (sys_ctx E ''failed to bind udp socket''
                  (UdpBind (unspecified (is_ipv4 to)) bind_port)) (\<lambda>_.
      and_then (sys_ctx E ''failed to connect udp socket'' (UdpConnect to dport)) (\<lambda>_.
      and_then (sys_ctx E ''failed to send udp probe'' (UdpSend (bytes_of ''fw-agent-probe''))) (\<lambda>_.
        if \<not> await_reply then ret (Ok O_Sent)
        else
          and_then (sys_ctx E ''failed to set udp read timeout''
                      (SetReadTimeout (unat timeout_ms))) (\<lambda>_.
          do {
            r \<leftarrow> sys_bytes E UdpRecv;
            ret (Ok (case r of Inr _ \<Rightarrow> O_Success | Inl error \<Rightarrow> classify_io error))
          })))))"

definition icmp_attempt ::
  "'j env \<Rightarrow> ipaddr \<Rightarrow> u16 \<Rightarrow> u16 \<Rightarrow> IcmpKind \<Rightarrow> u64 \<Rightarrow> Outcome res io" where
  "icmp_attempt E dst ident seq knd timeout_ms =
     (if \<not> is_ipv4 dst then ret (Err [''icmp traffic currently supports IPv4 only''])
      else
        and_then (sys_ctx E ''failed to create raw icmp socket (needs root)'' RawIcmpSocket) (\<lambda>_.
        and_then (sys_ctx E ''failed to set icmp read timeout''
                    (SetReadTimeout (unat timeout_ms))) (\<lambda>_.
          if knd = Timestamp then
            and_then (sys_ctx E ''failed to send icmp timestamp request''
                        (RawSendTo (build_icmp_timestamp ident seq) dst)) (\<lambda>_.
              ret (Ok O_Sent))
          else
            and_then (sys_ctx E ''failed to send icmp echo''
                        (RawSendTo (build_icmp_echo ident seq) dst)) (\<lambda>_.
            do {
              r \<leftarrow> sys_bytes E RawRecv;
              ret (Ok (case r of
                         Inr filled \<Rightarrow>
                           if is_matching_echo_reply filled ident then O_Success else O_Other
                       | Inl error \<Rightarrow> classify_io error))
            }))))"

definition local_src_ipv4 :: "'j env \<Rightarrow> ipaddr \<Rightarrow> ipv4 res io" where
  "local_src_ipv4 E dst =
     and_then (sys_ctx E ''failed to bind probe socket'' (UdpBind (V4 (Ipv4 0 0 0 0)) 0)) (\<lambda>_.
     and_then (sys_ctx E ''failed to connect probe socket'' (UdpConnect dst 9)) (\<lambda>_.
     and_then (ctx ''failed to read probe local_addr''
                 (map_res lift_io (sys_addr E LocalAddr))) (\<lambda>addr.
       ret (case addr of
              V4 v4 \<Rightarrow> Ok v4
            | V6 _ \<Rightarrow> Err [''fin-only traffic currently supports IPv4 only'']))))"

definition fin_attempt ::
  "'j env \<Rightarrow> ipaddr \<Rightarrow> u16 \<Rightarrow> u16 option \<Rightarrow> u32 \<Rightarrow> Outcome res io" where
  "fin_attempt E to dport sport seq =
     (case to of
        V6 _ \<Rightarrow> ret (Err [''fin-only traffic currently supports IPv4 only''])
      | V4 dst_v4 \<Rightarrow>
          and_then (local_src_ipv4 E to) (\<lambda>src_v4.
          and_then (sys_ctx E ''failed to create raw tcp socket (needs root)'' RawTcpSocket) (\<lambda>_.
          and_then (sys_ctx E ''failed to send tcp fin''
                      (RawSendTo (build_fin src_v4 dst_v4
                         (case sport of None \<Rightarrow> 40000 | Some p \<Rightarrow> p) dport seq) to)) (\<lambda>_.
            ret (Ok O_Sent)))))"

section \<open>A traffic run\<close>

definition drop_to_uid :: "'j env \<Rightarrow> u32 \<Rightarrow> unit res io" where
  "drop_to_uid E uid =
     do {
       r \<leftarrow> sys_unit E SetGroups;
       (case r of
          Inl e \<Rightarrow> ret (Err [''setgroups failed: '' @ io_msg e])
        | Inr _ \<Rightarrow>
            do {
              r \<leftarrow> sys_unit E (SetGid uid);
              (case r of
                 Inl e \<Rightarrow> ret (Err [''setgid('' @ show_word uid @ '') failed: '' @ io_msg e])
               | Inr _ \<Rightarrow>
                   do {
                     r \<leftarrow> sys_unit E (SetUid uid);
                     (case r of
                        Inl e \<Rightarrow> ret (Err [''setuid('' @ show_word uid @ '') failed: '' @ io_msg e])
                      | Inr _ \<Rightarrow> ret (Ok ()))
                   })
            })
     }"

text \<open>The message of the integer parser for a text it rejects.\<close>

fun digits_error :: "nat \<Rightarrow> nat \<Rightarrow> string \<Rightarrow> string" where
  "digits_error bound acc [] = ''''"
| "digits_error bound acc (c # cs) =
     (if \<not> is_digit c then ''invalid digit found in string''
      else if bound \<le> 10 * acc + digit_val c then ''number too large to fit in target type''
      else digits_error bound (10 * acc + digit_val c) cs)"

definition parse_int_error :: "nat \<Rightarrow> string \<Rightarrow> string" where
  "parse_int_error bound s =
     (case s of
        [] \<Rightarrow> ''cannot parse integer from empty string''
      | c # cs \<Rightarrow>
          if c = CHR ''+'' \<and> cs \<noteq> [] then digits_error bound 0 cs else digits_error bound 0 s)"

definition parse_port :: "string \<Rightarrow> u16 res" where
  "parse_port item =
     (case parse_u16 (trim item) of
        Some p \<Rightarrow> Ok p
      | None \<Rightarrow> Err [''invalid port `'' @ item @ ''`'', parse_int_error 65536 (trim item)])"

definition parse_ports :: "string \<Rightarrow> u16 list res" where
  "parse_ports list =
     collect (map parse_port (filter (\<lambda>item. trim item \<noteq> []) (split_on (CHR '','') list)))"

definition traffic_ports :: "TrafficArgs \<Rightarrow> u16 list res" where
  "traffic_ports args =
     (case ta_dports args of
        Some list \<Rightarrow> parse_ports list
      | None \<Rightarrow>
          (case ta_dport args of
             Some port \<Rightarrow> Ok [port]
           | None \<Rightarrow>
               if ta_proto args = P_Icmp then Ok [0]
               else Err [''--dport or --dports is required for tcp/udp'']))"

definition fin_sport_base :: "u32 \<Rightarrow> u16" where
  "fin_sport_base pid = 20000 + (ucast pid mod 20000)"

definition fin_sport :: "u16 \<Rightarrow> u16 \<Rightarrow> u16" where
  "fin_sport base offset = (let p = base + offset in if p < 1024 then p OR 0x4000 else p)"

definition sport_or :: "u16 option \<Rightarrow> u16 \<Rightarrow> u16" where
  "sport_or sport dflt = (case sport of Some p \<Rightarrow> p | None \<Rightarrow> dflt)"

definition is_burst :: "TrafficArgs \<Rightarrow> u16 list \<Rightarrow> bool" where
  "is_burst args ports \<longleftrightarrow> ta_proto args = P_Tcp \<and> length ports > 1 \<and> ta_count args \<le> 1"

definition unwrap_or :: "'a \<Rightarrow> 'a res \<Rightarrow> 'a" where
  "unwrap_or d r = (case r of Inr x \<Rightarrow> x | Inl _ \<Rightarrow> d)"

definition burst_probe :: "'j env \<Rightarrow> TrafficArgs \<Rightarrow> nat \<times> u16 \<Rightarrow> Outcome io" where
  "burst_probe E args = (\<lambda>(index, port).
     if ta_fin_only args then
       map_res (unwrap_or O_Other)
         (fin_attempt E (ta_to args) port
            (Some (sport_or (ta_sport args)
               (fin_sport (fin_sport_base (process_id (os E))) (of_nat index))))
            (of_nat index + 1))
     else
       map_res (unwrap_or O_Other)
         (tcp_attempt E (ta_to args) port (ta_sport args) (ta_timeout_ms args)))"

text \<open>
  The threads one after the other, in index order; theory \<open>Burst\<close> treats their interleavings.
\<close>

definition burst :: "'j env \<Rightarrow> TrafficArgs \<Rightarrow> u16 list \<Rightarrow> Tally res io" where
  "burst E args ports =
     do {
       outcomes \<leftarrow> State_Monad.traverse_list (burst_probe E args) (List.enumerate 0 ports);
       ret (Ok (fold tally_record outcomes tally_default))
     }"

record probe_state =
  ps_tally :: Tally
  ps_seq :: u16
  ps_first :: bool
  ps_fin_offset :: u16

definition probe_start :: probe_state where
  "probe_start = \<lparr>ps_tally = tally_default, ps_seq = 0, ps_first = True, ps_fin_offset = 0\<rparr>"

text \<open>One iteration of the sequential loop: pause, attempt, record.\<close>

definition probe_outcome ::
  "'j env \<Rightarrow> TrafficArgs \<Rightarrow> u16 \<Rightarrow> probe_state \<Rightarrow> (probe_state \<times> Outcome) res io" where
  "probe_outcome E args port st =
     (case ta_proto args of
        P_Tcp \<Rightarrow>
          if ta_fin_only args then
            (let st = st\<lparr>ps_seq := ps_seq st + 1\<rparr>;
                 sport = sport_or (ta_sport args)
                   (fin_sport (fin_sport_base (process_id (os E))) (ps_fin_offset st));
                 st = st\<lparr>ps_fin_offset := ps_fin_offset st + 1\<rparr>
             in map_res (map_sum (\<lambda>e. e) (Pair st))
                  (fin_attempt E (ta_to args) port (Some sport) (ucast (ps_seq st))))
          else map_res (map_sum (\<lambda>e. e) (Pair st))
                 (tcp_attempt E (ta_to args) port (ta_sport args) (ta_timeout_ms args))
      | P_Udp \<Rightarrow>
          map_res (map_sum (\<lambda>e. e) (Pair st))
            (udp_attempt E (ta_to args) port (ta_sport args) (ta_timeout_ms args)
               (ta_await_reply args))
      | P_Icmp \<Rightarrow>
          (let st = st\<lparr>ps_seq := ps_seq st + 1\<rparr>;
               ident = ucast (process_id (os E) AND 0xffff)
           in map_res (map_sum (\<lambda>e. e) (Pair st))
                (icmp_attempt E (ta_to args) ident (ps_seq st) (ta_icmp_type args)
                   (ta_timeout_ms args))))"

definition probe :: "'j env \<Rightarrow> TrafficArgs \<Rightarrow> u16 \<Rightarrow> probe_state \<Rightarrow> probe_state res io" where
  "probe E args port st =
     do {
       (if \<not> ps_first st \<and> ta_interval_ms args \<noteq> 0
        then sleep E (unat (ta_interval_ms args)) else ret ());
       and_then (probe_outcome E args port (st\<lparr>ps_first := False\<rparr>)) (\<lambda>(st, outcome).
         ret (Ok (st\<lparr>ps_tally := tally_record outcome (ps_tally st)\<rparr>)))
     }"

fun probes :: "'j env \<Rightarrow> TrafficArgs \<Rightarrow> u16 list \<Rightarrow> probe_state \<Rightarrow> probe_state res io" where
  "probes E args [] st = ret (Ok st)"
| "probes E args (port # ports) st =
     and_then (probe E args port st) (\<lambda>st. probes E args ports st)"

text \<open>The nested loops over the ports and over the attempts per port, flattened.\<close>

definition attempt_ports :: "TrafficArgs \<Rightarrow> u16 list \<Rightarrow> u16 list" where
  "attempt_ports args ports =
     concat (map (replicate (unat (max (ta_count args) 1))) ports)"

definition gather :: "'j env \<Rightarrow> TrafficArgs \<Rightarrow> u16 list \<Rightarrow> Tally res io" where
  "gather E args ports =
     (if is_burst args ports then burst E args ports
      else and_then (probes E args (attempt_ports args ports) probe_start) (\<lambda>st.
             ret (Ok (ps_tally st))))"

definition j_word :: "'j env \<Rightarrow> 'a::len word \<Rightarrow> 'j" where
  "j_word E w = j_int (json E) (uint w)"

definition emit_json :: "'j env \<Rightarrow> TrafficArgs \<Rightarrow> u16 list \<Rightarrow> Tally \<Rightarrow> 'j" where
  "emit_json E args ports tally =
     j_obj (json E)
       [(''proto'', j_str (json E) (show_proto (ta_proto args))),
        (''to'', j_str (json E) (show_ip (ta_to args))),
        (''ports'', j_arr (json E) (map (j_word E) ports)),
        (''attempts'', j_word E (tally_attempts tally)),
        (''success'', j_word E (t_success tally)),
        (''timeout'', j_word E (t_timeout tally)),
        (''refused'', j_word E (t_refused tally)),
        (''denied'', j_word E (t_denied tally)),
        (''sent'', j_word E (t_sent tally)),
        (''other'', j_word E (t_other tally)),
        (''verdict'', j_str (json E) (tally_verdict tally))]"

definition emit :: "'j env \<Rightarrow> TrafficArgs \<Rightarrow> u16 list \<Rightarrow> Tally \<Rightarrow> unit res io" where
  "emit E args ports tally =
     do { println E (j_show (json E) (emit_json E args ports tally)); ret (Ok ()) }"

definition traffic_run :: "'j env \<Rightarrow> TrafficArgs \<Rightarrow> unit res io" where
  "traffic_run E args =
     and_then (case ta_uid args of None \<Rightarrow> ret (Ok ()) | Some uid \<Rightarrow> drop_to_uid E uid) (\<lambda>_.
     and_then (ret (traffic_ports args)) (\<lambda>ports.
     and_then (gather E args ports) (\<lambda>tally.
       emit E args ports tally)))"

section \<open>The other workers\<close>

record ArpSpoofArgs =
  aa_iface :: string
  aa_claim_ip :: ipv4
  aa_count :: u32

definition interface_mac :: "'j env \<Rightarrow> string \<Rightarrow> u8 list res io" where
  "interface_mac E iface =
     and_then (sys_ctx E ''failed to open ioctl socket'' DgramSocket) (\<lambda>_.
       if 16 \<le> length iface then
         do {
           sys_unit E CloseFd;
           ret (Err [''interface name too long: '' @ iface])
         }
       else
         do {
           r \<leftarrow> sys_bytes E (IfHwAddr iface);
           sys_unit E CloseFd;
           ret (with_context ''SIOCGIFHWADDR failed''
                  (map_sum (\<lambda>e. e) (\<lambda>sa_data. take 6 (sa_data @ replicate 6 0)) (lift_io r)))
         })"

fun arp_send :: "'j env \<Rightarrow> u8 list \<Rightarrow> nat \<Rightarrow> nat \<Rightarrow> u32 \<Rightarrow> u32 io" where
  "arp_send E frame ifindex 0 sent = ret sent"
| "arp_send E frame ifindex (Suc n) sent =
     do {
       r \<leftarrow> sys_unit E (PacketSend frame ifindex);
       arp_send E frame ifindex n (case r of Inr _ \<Rightarrow> sent + 1 | Inl _ \<Rightarrow> sent)
     }"

definition arp_run :: "'j env \<Rightarrow> ArpSpoofArgs \<Rightarrow> unit res io" where
  "arp_run E args =
     (if CHR 0x00 \<in> set (aa_iface args) then
        ret (Err [''invalid interface name'',
                  ''nul byte found in provided data at position: '' @
                    dec (length (takeWhile (\<lambda>c. c \<noteq> CHR 0x00) (aa_iface args)))])
      else do {
        ifindex \<leftarrow> sys_int E (IfNameToIndex (aa_iface args));
        if ifindex = 0 then ret (Err [''interface '' @ aa_iface args @ '' not found''])
        else
          and_then (interface_mac E (aa_iface args)) (\<lambda>src_mac.
          and_then (sys_ctx E ''failed to open AF_PACKET socket (needs root)'' PacketSocket) (\<lambda>_.
          do {
            sent \<leftarrow> arp_send E (build_arp_reply src_mac (aa_claim_ip args)) (nat ifindex)
                      (unat (aa_count args)) 0;
            sys_unit E CloseFd;
            println E (j_show (json E) (j_obj (json E)
              [(''iface'', j_str (json E) (aa_iface args)),
               (''claim_ip'', j_str (json E) (show_ipv4 (aa_claim_ip args))),
               (''requested'', j_word E (aa_count args)),
               (''sent'', j_word E sent)]));
            ret (Ok ())
          }))
      })"

record ConnFloodArgs =
  ca_to :: ipaddr
  ca_dport :: u16
  ca_count :: u32
  ca_hold_secs :: u64
  ca_timeout_ms :: u64

fun flood_connect :: "'j env \<Rightarrow> ConnFloodArgs \<Rightarrow> nat \<Rightarrow> nat \<times> u32 \<Rightarrow> (nat \<times> u32) io" where
  "flood_connect E args 0 acc = ret acc"
| "flood_connect E args (Suc n) (held, failed) =
     do {
       r \<leftarrow> sys_unit E (TcpConnectHold (ca_to args) (ca_dport args) (unat (ca_timeout_ms args)));
       flood_connect E args n (case r of Inr _ \<Rightarrow> (held + 1, failed) | Inl _ \<Rightarrow> (held, failed + 1))
     }"

definition connflood_run :: "'j env \<Rightarrow> ConnFloodArgs \<Rightarrow> unit res io" where
  "connflood_run E args =
     do {
       (established, failed) \<leftarrow> flood_connect E args (unat (ca_count args)) (0, 0);
       sleep E (unat (ca_hold_secs args) * 1000);
       println E (j_show (json E) (j_obj (json E)
         [(''to'', j_str (json E) (show_ip (ca_to args))),
          (''dport'', j_word E (ca_dport args)),
          (''requested'', j_word E (ca_count args)),
          (''established'', j_int (json E) (int established)),
          (''failed'', j_word E failed),
          (''held_secs'', j_word E (ca_hold_secs args))]));
       ret (Ok ())
     }"

section \<open>Listeners\<close>

datatype ListenProto = L_Tcp | L_Udp

fun show_listen_proto :: "ListenProto \<Rightarrow> string" where
  "show_listen_proto L_Tcp = ''tcp''"
| "show_listen_proto L_Udp = ''udp''"

record ListenArgs =
  la_proto :: ListenProto
  la_port :: u16
  la_duration_secs :: u64
  la_hold :: bool

definition POLL :: nat where "POLL = 100"

text \<open>
  The bodies of the two accept loops. \<open>None\<close> means that the loop goes on, \<open>Some e\<close> that it returns
  the error. In hold mode an accepted connection is kept and the loop goes on without a pause.
\<close>

definition accept_one :: "'j env \<Rightarrow> bool \<Rightarrow> u64 \<Rightarrow> (err + u64) io" where
  "accept_one E hold accepted =
     do {
       r \<leftarrow> sys_unit E TcpAccept;
       (case r of
          Inr _ \<Rightarrow>
            if hold then ret (Ok (accepted + 1))
            else do {
              sys_unit E (SetReadTimeout POLL);
              rd \<leftarrow> sys_bytes E StreamRead;
              (case rd of
                 Inr bytes \<Rightarrow> do { sys_unit E (StreamWrite bytes); ret (Ok (accepted + 1)) }
               | Inl _ \<Rightarrow> ret (Ok (accepted + 1)))
            }
        | Inl error \<Rightarrow>
            if kind error = WouldBlock then do { sleep E POLL; ret (Ok accepted) }
            else ret (Err [''tcp accept failed'', io_msg error]))
     }"

definition echo_one :: "'j env \<Rightarrow> u64 \<Rightarrow> (err + u64) io" where
  "echo_one E echoed =
     do {
       r \<leftarrow> sys_bytes E UdpRecvFrom;
       (case r of
          Inr bytes \<Rightarrow> do { sys_unit E (UdpSendTo bytes); ret (Ok (echoed + 1)) }
        | Inl error \<Rightarrow>
            if kind error = WouldBlock \<or> kind error = TimedOut then ret (Ok echoed)
            else ret (Err [''udp recv failed'', io_msg error]))
     }"

text \<open>
  \<open>while Instant::now() < deadline { body }\<close>. The body need not take any time, so the loop is
  partial; \<open>None\<close> means that it runs forever.
\<close>

partial_function (option) until_deadline ::
  "'j env \<Rightarrow> (u64 \<Rightarrow> (err + u64) io) \<Rightarrow> nat \<Rightarrow> u64 \<Rightarrow> world \<Rightarrow> ((err + u64) \<times> world) option" where
  "until_deadline E body deadline n w =
     (let (now, w) = run_state (instant_now E) w in
      if now < deadline then
        (case run_state (body n) w of
           (Inl e, w) \<Rightarrow> Some (Inl e, w)
         | (Inr n, w) \<Rightarrow> until_deadline E body deadline n w)
      else Some (Inr n, w))"

definition listen_prepare :: "'j env \<Rightarrow> ListenArgs \<Rightarrow> unit res io" where
  "listen_prepare E args =
     (case la_proto args of
        L_Tcp \<Rightarrow>
          and_then (sys_ctx E (''failed to bind tcp listener on '' @ show_word (la_port args))
                      (TcpListen (la_port args))) (\<lambda>_.
            sys_ctx E ''failed to set tcp listener nonblocking'' SetNonblocking)
      | L_Udp \<Rightarrow>
          and_then (sys_ctx E (''failed to bind udp listener on '' @ show_word (la_port args))
                      (UdpListen (la_port args))) (\<lambda>_.
            sys_ctx E ''failed to set udp read timeout'' (SetReadTimeout POLL)))"

definition listen_body :: "'j env \<Rightarrow> ListenArgs \<Rightarrow> u64 \<Rightarrow> (err + u64) io" where
  "listen_body E args =
     (case la_proto args of L_Tcp \<Rightarrow> accept_one E (la_hold args) | L_Udp \<Rightarrow> echo_one E)"

definition listen_start :: "'j env \<Rightarrow> ListenArgs \<Rightarrow> nat io" where
  "listen_start E args =
     do {
       now \<leftarrow> instant_now E;
       println E (j_show (json E) (j_obj (json E)
         [(''status'', j_str (json E) ''listening''),
          (''proto'', j_str (json E) (show_listen_proto (la_proto args))),
          (''port'', j_word E (la_port args)),
          (''duration_secs'', j_word E (la_duration_secs args))]));
       ret (now + unat (la_duration_secs args) * 1000000000)
     }"

definition listen_close :: "'j env \<Rightarrow> ListenArgs \<Rightarrow> u64 \<Rightarrow> unit res io" where
  "listen_close E args n =
     do {
       println E (j_show (json E) (j_obj (json E)
         [(''status'', j_str (json E) ''closed''),
          (case la_proto args of L_Tcp \<Rightarrow> ''accepted'' | L_Udp \<Rightarrow> ''echoed'', j_word E n)]));
       ret (Ok ())
     }"

definition listen_run :: "'j env \<Rightarrow> ListenArgs \<Rightarrow> world \<Rightarrow> (unit res \<times> world) option" where
  "listen_run E args w =
     (case run_state (listen_start E args) w of (deadline, w) \<Rightarrow>
       (case run_state (listen_prepare E args) w of
          (Inl e, w) \<Rightarrow> Some (Err e, w)
        | (Inr _, w) \<Rightarrow>
            (case until_deadline E (listen_body E args) deadline 0 w of
               None \<Rightarrow> None
             | Some (Inl e, w) \<Rightarrow> Some (Err e, w)
             | Some (Inr n, w) \<Rightarrow> Some (run_state (listen_close E args n) w))))"

section \<open>The wall clock\<close>

text \<open>Nanoseconds since the epoch, possibly negative, as milliseconds in \<open>i64\<close>.\<close>

definition now_ms :: "'j env \<Rightarrow> int io" where
  "now_ms E =
     perform E SystemTimeNow
       (\<lambda>w. let t = ans_int (os E) w SystemTimeNow
             in if t < 0 then 0 else wrap_i64 (t div 1000000))"

section \<open>Lemmas\<close>

lemma tally_fold:
  "t_success (fold tally_record outs t) = t_success t + of_nat (count_list outs O_Success)"
  "t_timeout (fold tally_record outs t) = t_timeout t + of_nat (count_list outs O_Timeout)"
  "t_refused (fold tally_record outs t) = t_refused t + of_nat (count_list outs O_Refused)"
  "t_denied (fold tally_record outs t) = t_denied t + of_nat (count_list outs O_Denied)"
  "t_sent (fold tally_record outs t) = t_sent t + of_nat (count_list outs O_Sent)"
  "t_other (fold tally_record outs t) = t_other t + of_nat (count_list outs O_Other)"
proof (induction outs arbitrary: t)
  case (Cons x xs)
  { case 1 show ?case by (cases x) (simp_all add: Cons.IH) next
    case 2 show ?case by (cases x) (simp_all add: Cons.IH) next
    case 3 show ?case by (cases x) (simp_all add: Cons.IH) next
    case 4 show ?case by (cases x) (simp_all add: Cons.IH) next
    case 5 show ?case by (cases x) (simp_all add: Cons.IH) next
    case 6 show ?case by (cases x) (simp_all add: Cons.IH) }
qed simp_all

lemma of_nat_pos_u32: "n < 2 ^ 32 \<Longrightarrow> (0 :: u32) < of_nat n \<longleftrightarrow> 0 < n"
  by (simp add: word_less_nat_alt unat_of_nat)

lemma count_pos:
  assumes "length outs < 2 ^ 32"
  shows "(0 :: u32) < of_nat (count_list outs x) \<longleftrightarrow> x \<in> set outs"
proof -
  have "count_list outs x < 2 ^ 32"
    using assms count_le_length [of outs x] by linarith
  then show ?thesis
    by (simp add: of_nat_pos_u32 count_list_0_iff flip: neq0_conv)
qed

lemma attempts_record: "tally_attempts (tally_record x t) = tally_attempts t + 1"
  by (cases x) (simp_all add: tally_attempts_def)

lemma attempts_fold: "tally_attempts (fold tally_record outs t) = tally_attempts t + of_nat (length outs)"
  by (induction outs arbitrary: t) (simp_all add: attempts_record)

lemma returns_probe:
  "returns (probe E args port st)
     (if_ok (\<lambda>st'. tally_attempts (ps_tally st') = tally_attempts (ps_tally st) + 1))"
proof -
  have "returns (probe_outcome E args port st) (if_ok (\<lambda>(st', _). ps_tally st' = ps_tally st))"
    for st :: probe_state
    unfolding probe_outcome_def Let_def
    by (cases "ta_proto args"; cases "ta_fin_only args")
      (auto intro!: returns_map_res simp: returns_triv)
  from this [of "st\<lparr>ps_first := False\<rparr>"]
  have *: "returns (probe_outcome E args port (st\<lparr>ps_first := False\<rparr>))
      (if_ok (\<lambda>(st', _). ps_tally st' = ps_tally st))"
    by simp
  show ?thesis
    unfolding probe_def
    by (intro returns_bind_any, rule returns_and_then [OF *])
      (auto intro!: returns_return simp: attempts_record)
qed

lemma returns_probes:
  "returns (probes E args ports st)
     (if_ok (\<lambda>st'. tally_attempts (ps_tally st') =
        tally_attempts (ps_tally st) + of_nat (length ports)))"
proof (induction ports arbitrary: st)
  case (Cons p ps)
  show ?case
    unfolding probes.simps
    by (rule returns_and_then [OF returns_probe], rule returns_mono [OF Cons.IH])
      (auto simp: if_ok_def split: sum.splits)
qed (simp add: returns_return)

lemma attempt_ports_length:
  "length (attempt_ports args ports) = length ports * unat (max (ta_count args) 1)"
  unfolding attempt_ports_def by (induction ports) simp_all

lemma tally_attempts_default [simp]: "tally_attempts tally_default = 0"
  by (simp add: tally_attempts_def tally_default_def)

lemma traverse_length: "returns (State_Monad.traverse_list f xs) (\<lambda>rs. length rs = length xs)"
proof (induction xs)
  case (Cons x xs)
  show ?case
    unfolding State_Monad.traverse_list.simps
    by (intro returns_bind_any returns_bind [OF Cons.IH] returns_return) simp
qed (simp add: returns_def)

lemma returns_gather:
  "returns (gather E args ports)
     (if_ok (\<lambda>t. tally_attempts t = of_nat (length ports * unat (max (ta_count args) 1))))"
proof (cases "is_burst args ports")
  case True
  then have "unat (max (ta_count args) 1) = 1"
    by (simp add: is_burst_def max_def word_le_nat_alt)
  with True show ?thesis
    unfolding gather_def burst_def
    by (simp add: returns_bind [OF traverse_length] returns_return attempts_fold)
next
  case False
  show ?thesis
    unfolding gather_def if_not_P [OF False]
    by (rule returns_and_then [OF returns_probes])
      (simp add: returns_return probe_start_def attempt_ports_length)
qed

lemma trim_digits: "list_all is_digit s \<Longrightarrow> trim s = s"
proof -
  assume d: "list_all is_digit s"
  have "dropWhile is_ws t = t" if "list_all is_digit t" for t
    using that by (cases t) (auto simp: is_digit_def is_ws_def)
  from this [of s] this [of "rev s"] d show ?thesis
    by (simp add: trim_def trim_by_def)
qed

lemma parse_port_show: "parse_port (show_word p) = Inr p"
  by (simp add: parse_port_def trim_digits show_word_def [of p] dec_digits)
    (simp add: flip: show_word_def)

lemma steady_attempts [later_intros]:
  "steady (tcp_attempt E to dport sport t)" "steady (udp_attempt E to dport sport t b)"
  "steady (icmp_attempt E to ident seq knd t)" "steady (local_src_ipv4 E to)"
proof -
  show "steady (tcp_attempt E to dport sport t)"
    unfolding tcp_attempt_def by (intro later_intros)
  show "steady (udp_attempt E to dport sport t b)"
    unfolding udp_attempt_def Let_def by (intro later_intros)
  show "steady (icmp_attempt E to ident seq knd t)"
    unfolding icmp_attempt_def by (intro later_intros)
  show "steady (local_src_ipv4 E to)"
    unfolding local_src_ipv4_def by (intro later_intros)
qed

lemma steady_fin [later_intros]: "steady (fin_attempt E to dport sport seq)"
  unfolding fin_attempt_def by (cases to) (auto intro!: later_intros)

lemma steady_probe [later_intros]: "steady (probe E args port st)"
proof -
  have "steady (probe_outcome E args port st)" for st
    unfolding probe_outcome_def Let_def
    by (cases "ta_proto args") (auto intro!: later_intros)
  then show ?thesis
    unfolding probe_def by (intro later_intros)
qed

lemma steady_gather [later_intros]: "steady (gather E args ports)"
proof -
  have "steady (probes E args ps st)" for ps st
    by (induction ps arbitrary: st) (auto intro!: later_intros)
  moreover have "steady (burst E args ports)"
    unfolding burst_def burst_probe_def by (intro later_intros)
  ultimately show ?thesis
    unfolding gather_def by (intro later_intros)
qed

lemma steady_listen [later_intros]:
  "steady (listen_body E args n)" "steady (listen_start E args)" "steady (listen_prepare E args)"
  "steady (listen_close E args n)"
  by (cases "la_proto args";
      auto simp: listen_body_def listen_start_def listen_prepare_def listen_close_def
        accept_one_def echo_one_def intro!: later_intros)+

lemma steady_now_ms [later_intros]: "steady (now_ms E)"
  unfolding now_ms_def by (intro later_intros)

text \<open>An accept loop ends when every look at the clock takes time.\<close>

lemma until_deadline_returns:
  assumes tick: "\<And>w. 1 \<le> latency (os E) w InstantNow" and body: "\<And>n. steady (body n)"
  shows "\<exists>r w'. until_deadline E body deadline n w = Some (r, w') \<and> later w w' \<and>
     (is_ok r \<longrightarrow> deadline \<le> clock w')"
proof (induction "deadline - clock w" arbitrary: n w rule: less_induct)
  case less
  let ?w1 = "step E InstantNow w"
  obtain r w2 where bd: "run_state (body n) ?w1 = (r, w2)"
    by (cases "run_state (body n) ?w1")
  then have l2: "later ?w1 w2"
    by (rule steadyD [OF body])
  then have l: "later w w2"
    using later_step later_trans by blast
  show ?case
  proof (cases "clock w < deadline")
    case False
    then show ?thesis
      by (subst until_deadline.simps) (simp add: instant_now_def)
  next
    case True
    show ?thesis
    proof (cases r)
      case (Inl e)
      with True bd l show ?thesis
        by (subst until_deadline.simps) (simp add: instant_now_def)
    next
      case (Inr m)
      have "deadline - clock w2 < deadline - clock w"
        using True tick [of w] later_clock [OF l2] by simp
      from less [OF this, of m] Inr True bd l show ?thesis
        by (subst until_deadline.simps) (auto simp: instant_now_def intro: later_trans)
    qed
  qed
qed

text \<open>Source ports of bare FIN probes, as numbers.\<close>

lemma unat_fin_sport_base: "20000 \<le> unat (fin_sport_base pid) \<and> unat (fin_sport_base pid) < 40000"
proof -
  have "unat (ucast pid mod 20000 :: u16) < 20000"
    by (simp add: unat_mod)
  then show ?thesis
    by (simp add: fin_sport_base_def unat_word_ariths(1))
qed

lemma mask10: "mask 10 AND (0x4000 :: u16) = 0"
  by (simp add: mask_eq_exp_minus_1)

lemma unat_fin_sport:
  "unat (fin_sport b (of_nat i)) =
     (let p = (unat b + i) mod 65536 in if p < 1024 then 16384 + p else p)"
proof -
  define p where "p = b + of_nat i"
  have p: "unat p = (unat b + i) mod 65536"
    by (simp add: p_def unat_word_ariths(1) unat_of_nat mod_add_right_eq)
  have "unat (p OR 0x4000) = 16384 + unat p" if "unat p < 1024"
  proof -
    have "take_bit 10 p = p"
      using that by (simp add: word_unat_eq_iff take_bit_eq_mod unat_mod)
    then have "p AND 0x4000 = (p AND mask 10) AND 0x4000"
      by (simp only: take_bit_eq_mask)
    then have "p AND 0x4000 = 0"
      by (simp only: and.assoc mask10 and_zero_eq)
    then have "p OR 0x4000 = p + 0x4000"
      by (simp add: disjunctive_add_eq_or)
    with that show ?thesis
      by (simp add: unat_word_ariths(1))
  qed
  then show ?thesis
    unfolding fin_sport_def Let_def p_def [symmetric]
    by (simp add: p word_less_nat_alt)
qed

lemma parse_ports_join: "parse_ports (join '','' (map show_word ps)) = Inr ps"
proof (cases "ps = []")
  case False
  have "filter (\<lambda>item. trim item \<noteq> []) (map show_word ps) = map show_word ps" for ps :: "u16 list"
    by (induction ps) (simp_all add: trim_digits show_word_def dec_digits)
  with False show ?thesis
    by (simp add: parse_ports_def u16_codec.split_shw comp_def parse_port_show collect_ok)
qed (simp add: parse_ports_def split_on_def trim_def trim_by_def)

section \<open>Properties\<close>

text \<open>
  C18. The verdict of a traffic run is decided by which outcomes occurred at all: any success means
  allowed, otherwise any timeout or policy denial means blocked, then refused, then sent. The
  32-bit counters do not distort this as long as fewer than 2^32 attempts are made.
\<close>

theorem verdict_of_outcomes:
  assumes "length outs < 2 ^ 32"
  shows "tally_verdict (fold tally_record outs tally_default) =
     (if O_Success \<in> set outs then ''allowed''
      else if O_Timeout \<in> set outs \<or> O_Denied \<in> set outs then ''blocked''
      else if O_Refused \<in> set outs then ''refused''
      else if O_Sent \<in> set outs then ''sent'' else ''unknown'')"
  using count_pos [OF assms] by (simp add: tally_verdict_def tally_fold tally_default_def)

theorem verdict_of_outcomes_witness:
  "tally_verdict (fold tally_record [O_Refused, O_Denied, O_Other] tally_default) = ''blocked''"
  using verdict_of_outcomes [of "[O_Refused, O_Denied, O_Other]"] by simp

text \<open>
  C20. A traffic run that succeeds accounts for every attempt: the reported number of attempts is
  the number of ports times the attempts per port (at least one), on the parallel and on the
  sequential path, whatever the sockets answer.
\<close>

theorem traffic_counts_attempts:
  assumes "run_state (gather E args ports) w = (Ok tally, w')"
  shows "tally_attempts tally = of_nat (length ports * unat (max (ta_count args) 1))"
  using returnsD [OF returns_gather assms] by simp

definition demo_scan :: TrafficArgs where
  "demo_scan =
     \<lparr>ta_proto = P_Tcp, ta_to = V4 (Ipv4 10 123 0 1), ta_dport = None,
      ta_dports = Some ''9001,9002,9003'', ta_sport = None, ta_count = 1, ta_interval_ms = 0,
      ta_timeout_ms = 1000, ta_await_reply = False, ta_fin_only = False, ta_icmp_type = Echo,
      ta_uid = None\<rparr>"

theorem traffic_counts_attempts_witness:
  "\<exists>tally. fst (run_state (gather demo_env demo_scan [9001, 9002, 9003]) demo_world) = Inr tally \<and>
     tally_attempts tally = 3"
proof -
  have "fst (run_state (gather demo_env demo_scan [9001, 9002, 9003]) demo_world) =
      Inr (tally_default\<lparr>t_success := 3\<rparr>)"
    by (simp add: gather_def is_burst_def burst_def burst_probe_def tcp_attempt_def run_io
        demo_scan_def demo_defs unwrap_or_def tally_default_def)
  moreover from this have "run_state (gather demo_env demo_scan [9001, 9002, 9003]) demo_world =
      (Inr (tally_default\<lparr>t_success := 3\<rparr>),
       snd (run_state (gather demo_env demo_scan [9001, 9002, 9003]) demo_world))"
    by (metis prod.collapse)
  from traffic_counts_attempts [OF this]
  have "tally_attempts (tally_default\<lparr>t_success := 3\<rparr>) = 3"
    by (simp add: demo_scan_def)
  ultimately show ?thesis
    by blast
qed

text \<open>
  A port list survives the trip through the command line: what the orchestrator joins with
  commas for \<open>--dports\<close> is what the worker parses.
\<close>

theorem ports_roundtrip:
  "parse_ports (join '','' (map show_word ps)) = Ok ps"
  by (rule parse_ports_join)

text \<open>
  C36. The source ports of bare FIN probes are never privileged, and the probes of one run get
  pairwise different ones (up to 41921 probes, far more than any scan of the catalog), so the
  firewall sees each probe as a new flow.
\<close>

theorem fin_sports_fresh:
  "1024 \<le> fin_sport (fin_sport_base pid) (of_nat i) \<and>
   distinct (map (\<lambda>i. fin_sport (fin_sport_base pid) (of_nat i)) [0..<41921])"
proof
  define b where "b = unat (fin_sport_base pid)"
  have b: "20000 \<le> b" "b < 40000"
    using unat_fin_sport_base [of pid] by (simp_all add: b_def)
  show "1024 \<le> fin_sport (fin_sport_base pid) (of_nat i)"
    by (simp add: word_le_nat_alt unat_fin_sport Let_def)
  have "inj_on (\<lambda>i. let p = (b + i) mod 65536 in if p < 1024 then 16384 + p else p) {0..<41921}"
  proof (rule inj_onI)
    fix i j :: nat
    define p q where "p = (b + i) mod 65536" and "q = (b + j) mod 65536"
    assume "i \<in> {0..<41921}" and "j \<in> {0..<41921}"
      and eq: "(let p = (b + i) mod 65536 in if p < 1024 then 16384 + p else p) =
         (let p = (b + j) mod 65536 in if p < 1024 then 16384 + p else p)"
    then have lt: "i < 41921" "j < 41921" by simp_all
    have pi: "p = b + i \<and> b + i < 65536 \<or> p + 65536 = b + i"
      and qj: "q = b + j \<and> b + j < 65536 \<or> q + 65536 = b + j"
      using b lt by (auto simp: p_def q_def mod_if)
    have "(if p < 1024 then 16384 + p else p) = (if q < 1024 then 16384 + q else q)"
      using eq by (simp only: p_def q_def Let_def)
    with pi qj b lt show "i = j"
      by (auto split: if_splits)
  qed
  then have "inj_on (\<lambda>i. unat (fin_sport (fin_sport_base pid) (of_nat i))) {0..<41921}"
    by (simp only: unat_fin_sport b_def)
  then have "inj_on (\<lambda>i. fin_sport (fin_sport_base pid) (of_nat i)) {0..<41921}"
    by (auto simp: inj_on_def)
  then show "distinct (map (\<lambda>i. fin_sport (fin_sport_base pid) (of_nat i)) [0..<41921])"
    by (simp add: distinct_map)
qed

text \<open>
  C21. With \<open>--uid\<close> the worker gives up its credentials before it does anything else: first the
  supplementary groups, then the group id, then the user id. If the kernel refuses one of these calls,
  that call is the last thing the worker does and the run is an error; everything else, so all
  traffic, happens only after the kernel has granted all three.
\<close>

theorem uid_dropped_before_traffic:
  assumes "ta_uid args = Some uid" and "run_state (traffic_run E args) w = (r, w')"
  shows "let w1 = step E (Sys SetGroups) w; w2 = step E (Sys (SetGid uid)) w1;
       w3 = step E (Sys (SetUid uid)) w2 in
     if ans_unit (os E) w (Sys SetGroups) \<noteq> Inr () then \<not> is_ok r \<and> w' = w1
     else if ans_unit (os E) w1 (Sys (SetGid uid)) \<noteq> Inr () then \<not> is_ok r \<and> w' = w2
     else if ans_unit (os E) w2 (Sys (SetUid uid)) \<noteq> Inr () then \<not> is_ok r \<and> w' = w3
     else later w3 w'"
proof -
  define rest where "rest = and_then (ret (traffic_ports args)) (\<lambda>ports.
      and_then (gather E args ports) (\<lambda>tally. emit E args ports tally))"
  have "steady rest"
    unfolding rest_def emit_def by (intro later_intros)
  moreover have "run_state (traffic_run E args) w = run_state (and_then (drop_to_uid E uid) (\<lambda>_. rest)) w"
    using assms by (simp add: traffic_run_def rest_def)
  ultimately show ?thesis
    using assms(2)
    by (auto simp: drop_to_uid_def run_io Let_def split: sum.splits dest: steadyD [OF _ sym])
qed

theorem uid_dropped_before_traffic_witness:
  "prefix [Sys SetGroups, Sys (SetGid 2000), Sys (SetUid 2000)]
     (trace (snd (run_state (traffic_run demo_env (demo_scan\<lparr>ta_uid := Some 2000\<rparr>)) demo_world)))"
  using uid_dropped_before_traffic [of "demo_scan\<lparr>ta_uid := Some 2000\<rparr>" 2000 demo_env demo_world,
      OF _ prod.collapse [symmetric]]
  by (simp add: Let_def demo_env_def demo_os_def demo_world_def later_def)

text \<open>
  C19. The verdict of a single TCP connect tells enforcement apart: an established connection is
  allowed, a dropped SYN (timeout) or a policy denial (permission error) is blocked, a reset is
  refused; any other failure of the connect is unknown and never counts as one of these.
\<close>

theorem single_connect_verdict:
  assumes "ta_proto args = P_Tcp" and "\<not> ta_fin_only args" and "ta_sport args = None"
    and "ta_count args \<le> 1" and "ans_unit (os E) w (Sys (TcpSocket (is_ipv4 (ta_to args)))) = Inr ()"
    and "connected = ans_unit (os E) (step E (Sys (TcpSocket (is_ipv4 (ta_to args)))) w)
     (Sys (ConnectTimeout (ta_to args) port (unat (ta_timeout_ms args))))"
  shows "\<exists>tally. fst (run_state (gather E args [port]) w) = Ok tally \<and>
     tally_verdict tally =
       (case connected of
          Inr _ \<Rightarrow> ''allowed''
        | Inl e \<Rightarrow>
            if kind e \<in> {TimedOut, WouldBlock, PermissionDenied} then ''blocked''
            else if kind e = ConnectionRefused then ''refused'' else ''unknown'')"
proof -
  have n: "unat (max (ta_count args) 1) = Suc 0"
    using assms(4) by (simp add: max_def)
  have "fst (run_state (gather E args [port]) w) =
      Ok (tally_record (case connected of Inr _ \<Rightarrow> O_Success | Inl e \<Rightarrow> classify_io e) tally_default)"
    using assms(1-3,5)
    by (simp add: gather_def is_burst_def attempt_ports_def n probe_def probe_outcome_def
        probe_start_def tcp_attempt_def run_io assms(6) split: sum.splits)
  moreover have "tally_verdict (tally_record (classify_io e) tally_default) =
      (if kind e \<in> {TimedOut, WouldBlock, PermissionDenied} then ''blocked''
       else if kind e = ConnectionRefused then ''refused'' else ''unknown'')" for e
    by (cases "kind e") (simp_all add: classify_io_def tally_verdict_def tally_default_def)
  moreover have "tally_verdict (tally_record O_Success tally_default) = ''allowed''"
    by (simp add: tally_verdict_def tally_default_def)
  ultimately show ?thesis
    by (simp split: sum.splits)
qed

definition deny_env :: "jv env" where
  "deny_env = demo_env\<lparr>os := demo_os\<lparr>ans_unit := \<lambda>_ a.
     (case a of Sys (ConnectTimeout _ _ _) \<Rightarrow> Inl (IoError PermissionDenied ''denied'') | _ \<Rightarrow> Inr ())\<rparr>\<rparr>"

theorem single_connect_verdict_witness:
  "\<exists>tally. fst (run_state (gather deny_env demo_scan [6001]) demo_world) = Inr tally \<and>
     tally_verdict tally = ''blocked''"
  using single_connect_verdict [OF _ _ _ _ _ refl, of demo_scan deny_env demo_world 6001]
  by (simp add: demo_scan_def deny_env_def)

text \<open>
  C22. A listener worker always ends: if looking at the clock takes any time at all, the accept
  loop of both protocols returns, also in hold mode where accepted connections are not paused
  for, and without an error it has stayed open for the whole requested duration.
\<close>

theorem listener_ends:
  assumes "\<And>w. 1 \<le> latency (os E) w InstantNow"
  shows "\<exists>r w'. listen_run E args w = Some (r, w') \<and>
     (is_ok r \<longrightarrow> clock w + unat (la_duration_secs args) * 1000000000 \<le> clock w')"
proof -
  obtain dl w1 where st: "run_state (listen_start E args) w = (dl, w1)"
    by (cases "run_state (listen_start E args) w")
  then have dl: "dl = clock w + unat (la_duration_secs args) * 1000000000"
    by (auto simp: listen_start_def run_io)
  obtain p w2 where pr: "run_state (listen_prepare E args) w1 = (p, w2)"
    by (cases "run_state (listen_prepare E args) w1")
  obtain r w3 where lp: "until_deadline E (listen_body E args) dl 0 w2 = Some (r, w3)"
    and "is_ok r \<longrightarrow> dl \<le> clock w3"
    using until_deadline_returns [of E "listen_body E args" dl 0 w2] assms steady_listen(1)
    by blast
  then show ?thesis
    using steadyD [OF steady_listen(4) [of E args]]
    by (cases p; cases r)
      (auto simp: listen_run_def st pr dl listen_close_def run_io)
qed

theorem listener_ends_witness:
  "\<exists>r w'. listen_run demo_env \<lparr>la_proto = L_Tcp, la_port = 5001, la_duration_secs = 20, la_hold = True\<rparr>
     demo_world = Some (r, w')"
proof -
  have "1 \<le> latency (os demo_env) w InstantNow" for w
    by (simp add: demo_defs)
  from listener_ends [OF this] show ?thesis
    by blast
qed

end
