(* ===== verification/Store.thy ===== *)
theory Store
  imports Worker Config
begin

text \<open>
  The state of the daemon under test as the TARGET side reads and writes it: the SQLite queries of
  \<open>agent/events.rs\<close>, the depot writer of \<open>agent/provision.rs\<close>, the dispatcher of
  \<open>agent/mod.rs\<close> and the observations of \<open>target.rs\<close>. The database, the idps crates and the JSON
  library are third-party code and answer through the environment.
\<close>

section \<open>Event and report queries\<close>

definition open_db :: "'j env \<Rightarrow> string \<Rightarrow> unit res io" where
  "open_db E db =
     ctx (''failed to open idps-fw state db '' @ db)
       (perform E (DbOpen db) (\<lambda>w. db_unit (sql E) w (DbOpen db)))"

definition db_prepare :: "'j env \<Rightarrow> string \<Rightarrow> string \<Rightarrow> unit res io" where
  "db_prepare E msg stmt =
     ctx msg (perform E (DbPrepare stmt) (\<lambda>w. db_unit (sql E) w (DbPrepare stmt)))"

definition unquote :: "'j env \<Rightarrow> string \<Rightarrow> string" where
  "unquote E value = (case j_parse_string (json E) value of Inr s \<Rightarrow> s | Inl _ \<Rightarrow> value)"

definition j_opt_int :: "'j env \<Rightarrow> int option \<Rightarrow> 'j" where
  "j_opt_int E x = (case x of None \<Rightarrow> j_null (json E) | Some i \<Rightarrow> j_int (json E) i)"

definition j_opt_str :: "'j env \<Rightarrow> string option \<Rightarrow> 'j" where
  "j_opt_str E x = (case x of None \<Rightarrow> j_null (json E) | Some s \<Rightarrow> j_str (json E) s)"

definition events_sql :: string where
  "events_sql =
     ''SELECT event_id, event_time_ms, event_type, action, app_id, ifindex, src_ip, src_port, dst_ip, dst_port, proto, rule_id, detail, report_state FROM firewall_event WHERE event_time_ms > ?1 ORDER BY event_time_ms ASC''"

definition event_json :: "'j env \<Rightarrow> event_row \<Rightarrow> 'j" where
  "event_json E row =
     j_obj (json E)
       [(''event_id'', j_str (json E) (er_event_id row)),
        (''event_time_ms'', j_int (json E) (er_event_time_ms row)),
        (''event_type'', j_str (json E) (unquote E (er_event_type row))),
        (''action'', j_str (json E) (unquote E (er_action row))),
        (''app_id'', j_opt_int E (er_app_id row)),
        (''ifindex'', j_opt_int E (er_ifindex row)),
        (''src_ip'', j_str (json E) (er_src_ip row)),
        (''src_port'', j_int (json E) (er_src_port row)),
        (''dst_ip'', j_str (json E) (er_dst_ip row)),
        (''dst_port'', j_int (json E) (er_dst_port row)),
        (''proto'', j_str (json E) (er_proto row)),
        (''rule_id'', j_opt_int E (er_rule_id row)),
        (''detail'', j_str (json E) (er_detail row)),
        (''report_state'', j_str (json E) (er_report_state row))]"

definition query_events :: "'j env \<Rightarrow> string \<Rightarrow> int \<Rightarrow> 'j list res io" where
  "query_events E db since =
     and_then (open_db E db) (\<lambda>_.
     and_then (db_prepare E ''failed to prepare firewall_event query'' events_sql) (\<lambda>_.
     and_then (ctx ''failed to query firewall_event''
                 (perform E (DbQuery events_sql since None)
                    (\<lambda>w. db_events (sql E) w (DbQuery events_sql since None)))) (\<lambda>rows.
       ret (with_context ''failed to read firewall_event rows''
              (collect (map (map_sum (\<lambda>e. e) (event_json E)) rows))))))"

definition reports_sql :: string where
  "reports_sql =
     ''SELECT report_id, report_type, payload, created_at_ms FROM report_outbox WHERE created_at_ms > ?1 AND (?2 IS NULL OR report_type = ?2) ORDER BY created_at_ms ASC''"

definition report_json :: "'j env \<Rightarrow> report_row \<Rightarrow> 'j" where
  "report_json E row =
     (let parsed = (case j_parse (json E) (rr_payload row) of
                      Inr v \<Rightarrow> v
                    | Inl _ \<Rightarrow> j_str (json E) (rr_payload row))
      in j_obj (json E)
           [(''report_id'', j_str (json E) (rr_report_id row)),
            (''report_type'', j_str (json E) (rr_report_type row)),
            (''payload'', parsed),
            (''created_at_ms'', j_int (json E) (rr_created_at_ms row))])"

definition query_reports :: "'j env \<Rightarrow> string \<Rightarrow> int \<Rightarrow> string option \<Rightarrow> 'j list res io" where
  "query_reports E db since filter_type =
     and_then (open_db E db) (\<lambda>_.
     and_then (db_prepare E ''failed to prepare report_outbox query'' reports_sql) (\<lambda>_.
     and_then (ctx ''failed to query report_outbox''
                 (perform E (DbQuery reports_sql since filter_type)
                    (\<lambda>w. db_reports (sql E) w (DbQuery reports_sql since filter_type)))) (\<lambda>rows.
       ret (with_context ''failed to read report_outbox rows''
              (collect (map (map_sum (\<lambda>e. e) (report_json E)) rows))))))"

record EventQueryArgs =
  eq_db :: string
  eq_since :: int

record ReportQueryArgs =
  rq_db :: string
  rq_since :: int
  rq_report_type :: "string option"

definition print_rows :: "'j env \<Rightarrow> string \<Rightarrow> int \<Rightarrow> 'j list \<Rightarrow> unit res io" where
  "print_rows E name since rows =
     do {
       println E (j_show (json E) (j_obj (json E)
         [(''since'', j_int (json E) since), (''count'', j_int (json E) (int (length rows))),
          (name, j_arr (json E) rows)]));
       ret (Ok ())
     }"

definition agent_dump_events :: "'j env \<Rightarrow> EventQueryArgs \<Rightarrow> unit res io" where
  "agent_dump_events E args =
     and_then (query_events E (eq_db args) (eq_since args)) (\<lambda>rows.
       print_rows E ''events'' (eq_since args) rows)"

definition agent_dump_reports :: "'j env \<Rightarrow> ReportQueryArgs \<Rightarrow> unit res io" where
  "agent_dump_reports E args =
     and_then (query_reports E (rq_db args) (rq_since args) (rq_report_type args)) (\<lambda>rows.
       print_rows E ''reports'' (rq_since args) rows)"

definition states_sql :: string where
  "states_sql =
     ''SELECT event_id, event_time_ms, event_type, report_state FROM firewall_event WHERE event_time_ms > ?1 ORDER BY event_time_ms ASC''"

definition outbox_sql :: string where
  "outbox_sql =
     ''SELECT state, COUNT(*), MAX(retry_count), MAX(last_error) FROM report_outbox GROUP BY state''"

definition state_json :: "'j env \<Rightarrow> event_row \<Rightarrow> 'j" where
  "state_json E row =
     j_obj (json E)
       [(''event_id'', j_str (json E) (er_event_id row)),
        (''event_time_ms'', j_int (json E) (er_event_time_ms row)),
        (''event_type'', j_str (json E) (unquote E (er_event_type row))),
        (''report_state'', j_str (json E) (er_report_state row))]"

definition outbox_json :: "'j env \<Rightarrow> outbox_row \<Rightarrow> 'j" where
  "outbox_json E row =
     j_obj (json E)
       [(''state'', j_str (json E) (or_state row)),
        (''count'', j_int (json E) (or_count row)),
        (''max_retry'', j_opt_int E (or_max_retry row)),
        (''last_error'', j_opt_str E (or_last_error row))]"

text \<open>Indexing a JSON object and comparing with a string.\<close>

definition j_field_is :: "'j env \<Rightarrow> string \<Rightarrow> string \<Rightarrow> 'j \<Rightarrow> bool" where
  "j_field_is E k s v \<longleftrightarrow> Option.bind (j_get (json E) v k) (j_as_str (json E)) = Some s"

definition report_status_json :: "'j env \<Rightarrow> int \<Rightarrow> 'j list \<Rightarrow> 'j list \<Rightarrow> 'j" where
  "report_status_json E since events outbox =
     (let sent = length (filter (j_field_is E ''report_state'' ''sent'') events);
          pending = length (filter (j_field_is E ''report_state'' ''pending'') events)
      in j_obj (json E)
           [(''since'', j_int (json E) since),
            (''events_total'', j_int (json E) (int (length events))),
            (''events_sent'', j_int (json E) (int sent)),
            (''events_pending'', j_int (json E) (int pending)),
            (''events'', j_arr (json E) events),
            (''outbox'', j_arr (json E) outbox)])"

definition report_status :: "'j env \<Rightarrow> EventQueryArgs \<Rightarrow> unit res io" where
  "report_status E args =
     and_then (open_db E (eq_db args)) (\<lambda>_.
     and_then (db_prepare E ''failed to prepare report_state query'' states_sql) (\<lambda>_.
     and_then (ctx ''failed to query report_state''
                 (perform E (DbQuery states_sql (eq_since args) None)
                    (\<lambda>w. db_events (sql E) w (DbQuery states_sql (eq_since args) None)))) (\<lambda>rows.
     and_then (ret (with_context ''failed to read report_state rows''
                      (collect (map (map_sum (\<lambda>e. e) (state_json E)) rows)))) (\<lambda>events.
     and_then (db_prepare E ''failed to prepare report_outbox query'' outbox_sql) (\<lambda>_.
     and_then (ctx ''failed to query report_outbox''
                 (perform E (DbQuery outbox_sql 0 None)
                    (\<lambda>w. db_outbox (sql E) w (DbQuery outbox_sql 0 None)))) (\<lambda>rows.
     and_then (ret (with_context ''failed to read report_outbox rows''
                      (collect (map (map_sum (\<lambda>e. e) (outbox_json E)) rows)))) (\<lambda>outbox.
     do {
       println E (j_show (json E) (report_status_json E (eq_since args) events outbox));
       ret (Ok ())
     })))))))"

section \<open>The depot writer\<close>

definition DEFAULT_CONFIG :: string where
  "DEFAULT_CONFIG = ''/etc/idd/idps.yaml''"

definition DEFAULT_KEYSTORE :: string where
  "DEFAULT_KEYSTORE = ''/data/idd/keys''"

text \<open>\<open>i32::saturating_add(1)\<close>.\<close>

definition saturating_succ :: "int \<Rightarrow> int" where
  "saturating_succ v = min (2 ^ 31 - 1) (v + 1)"

definition next_metadata :: "RuleMetadata \<Rightarrow> int \<Rightarrow> int option \<Rightarrow> string \<Rightarrow> RuleMetadata" where
  "next_metadata previous prot_ver ver sha =
     (let v = (case ver of Some v \<Rightarrow> v | None \<Rightarrow> saturating_succ (rm_ver previous))
      in \<lparr>rm_ver = v, rm_rule_ver = v, rm_prot_ver = prot_ver,
          rm_major_ver = max (rm_major_ver previous) 1, rm_minor_ver = rm_minor_ver previous,
          rm_sha256 = sha, rm_sign = []\<rparr>)"

definition depot_file :: "string \<Rightarrow> int \<Rightarrow> int \<Rightarrow> int \<Rightarrow> string" where
  "depot_file depot acd fn prot_ver =
     trim_end_matches (CHR ''/'') depot @ ''/'' @ dec_int acd @ ''-'' @ dec_int fn @ ''-'' @
     dec_int prot_ver @ ''.rule''"

definition provision_json ::
  "'j env \<Rightarrow> int \<Rightarrow> int \<Rightarrow> RuleMetadata \<Rightarrow> nat \<Rightarrow> string \<Rightarrow> bool \<Rightarrow> 'j" where
  "provision_json E acd fn meta len path key_present =
     j_obj (json E)
       [(''acd'', j_int (json E) acd), (''fun'', j_int (json E) fn),
        (''prot_ver'', j_int (json E) (rm_prot_ver meta)), (''ver'', j_int (json E) (rm_ver meta)),
        (''sha256'', j_str (json E) (rm_sha256 meta)), (''bytes'', j_int (json E) (int len)),
        (''path'', j_str (json E) path), (''key_present'', j_bool (json E) key_present)]"

definition provision_rule ::
  "'j env \<Rightarrow> int \<Rightarrow> int \<Rightarrow> int \<Rightarrow> int option \<Rightarrow> string \<Rightarrow> string \<Rightarrow> string \<Rightarrow> 'j res io" where
  "provision_rule E acd fn prot_ver ver rule_bytes config_path keystore_path =
     and_then (ctx (''failed to load config '' @ config_path)
                 (perform E (IdpsLoadConfig config_path)
                    (\<lambda>w. idps_config (idps E) w (IdpsLoadConfig config_path)))) (\<lambda>config.
     and_then (ctx ''failed to collect device info''
                 (perform E IdpsDeviceInfo (\<lambda>w. idps_device (idps E) w IdpsDeviceInfo))) (\<lambda>(vin, dsn).
     and_then (ctx (''failed to open keystore '' @ keystore_path)
                 (perform E (IdpsKeystore keystore_path)
                    (\<lambda>w. idps_unit (idps E) w (IdpsKeystore keystore_path)))) (\<lambda>_.
     and_then (ctx ''failed to resolve runtime AES key''
                 (perform E (IdpsResolveKeys vin dsn)
                    (\<lambda>w. idps_key (idps E) w (IdpsResolveKeys vin dsn)))) (\<lambda>key.
     let open = IdpsDepotOpen (depot_path config) (default_rules_path config) key
                  (ic_aes_key config) (ic_aes_iv config) in
     and_then (ctx ''failed to open rule depot''
                 (perform E open (\<lambda>w. idps_unit (idps E) w open))) (\<lambda>_.
     let prot_ver = max prot_ver 1; look = IdpsLoadMetadata acd fn prot_ver in
     do {
       found \<leftarrow> perform E look (\<lambda>w. idps_metadata (idps E) w look);
       let previous = (case found of Inr m \<Rightarrow> m | Inl _ \<Rightarrow> idps_default_metadata (idps E));
       let meta = next_metadata previous prot_ver ver (idps_sha256_hex (idps E) rule_bytes);
       let save = IdpsSaveRule acd fn rule_bytes meta;
       and_then (ctx ''failed to write depot rule''
                   (perform E save (\<lambda>w. idps_unit (idps E) w save))) (\<lambda>_.
         ret (Ok (provision_json E acd fn meta (length rule_bytes)
                    (depot_file (depot_path config) acd fn prot_ver) (key \<noteq> None))))
     })))))"

record ProvisionArgs =
  pa_acd :: int
  pa_fun :: int
  pa_prot_ver :: int
  pa_ver :: "int option"
  pa_input :: string
  pa_config :: string
  pa_keystore :: string

definition provision_run :: "'j env \<Rightarrow> ProvisionArgs \<Rightarrow> unit res io" where
  "provision_run E args =
     and_then (ctx (''failed to read rule file '' @ pa_input args)
                 (map_res lift_io (read_to_string E (pa_input args)))) (\<lambda>rule_bytes.
     and_then (provision_rule E (pa_acd args) (pa_fun args) (pa_prot_ver args) (pa_ver args)
                 rule_bytes (pa_config args) (pa_keystore args)) (\<lambda>out.
     do { println E (j_show (json E) out); ret (Ok ()) }))"

section \<open>The dispatcher of the worker\<close>

datatype (plugins only: code size) AgentCommand =
    ProvisionRule ProvisionArgs
  | DumpEvents EventQueryArgs
  | ReportStatus EventQueryArgs
  | AgentTraffic TrafficArgs
  | AgentListen ListenArgs
  | ConnFlood ConnFloodArgs
  | ArpSpoof ArpSpoofArgs
  | DumpReports ReportQueryArgs
  | Now

fun dispatch :: "'j env \<Rightarrow> AgentCommand \<Rightarrow> world \<Rightarrow> (unit res \<times> world) option" where
  "dispatch E (ProvisionRule args) w = Some (run_state (provision_run E args) w)"
| "dispatch E (DumpEvents args) w = Some (run_state (agent_dump_events E args) w)"
| "dispatch E (ReportStatus args) w = Some (run_state (report_status E args) w)"
| "dispatch E (DumpReports args) w = Some (run_state (agent_dump_reports E args) w)"
| "dispatch E (AgentTraffic args) w = Some (run_state (traffic_run E args) w)"
| "dispatch E (AgentListen args) w = listen_run E args w"
| "dispatch E (ConnFlood args) w = Some (run_state (connflood_run E args) w)"
| "dispatch E (ArpSpoof args) w = Some (run_state (arp_run E args) w)"
| "dispatch E Now w =
     Some (run_state
       (do {
          t \<leftarrow> now_ms E;
          println E (j_show (json E) (j_obj (json E) [(''now_ms'', j_int (json E) t)]));
          ret (Ok ())
        }) w)"

section \<open>Observations on the TARGET\<close>

definition health :: "'j env \<Rightarrow> RunConfig \<Rightarrow> 'j res io" where
  "health E cfg = shell_json E (rc_target cfg) (rc_idps_fw cfg @ '' health'')"

definition statistics :: "'j env \<Rightarrow> RunConfig \<Rightarrow> 'j res io" where
  "statistics E cfg = shell_json E (rc_target cfg) (rc_idps_fw cfg @ '' statistics'')"

definition j_field_i64 :: "'j env \<Rightarrow> 'j \<Rightarrow> string \<Rightarrow> int option" where
  "j_field_i64 E v k = Option.bind (j_get (json E) v k) (j_as_i64 (json E))"

definition j_field_u64 :: "'j env \<Rightarrow> 'j \<Rightarrow> string \<Rightarrow> nat option" where
  "j_field_u64 E v k = Option.bind (j_get (json E) v k) (j_as_u64 (json E))"

definition opt_or :: "'a \<Rightarrow> 'a option \<Rightarrow> 'a" where
  "opt_or d x = (case x of None \<Rightarrow> d | Some y \<Rightarrow> y)"

lemma opt_or_simps [simp]: "opt_or d None = d" "opt_or d (Some x) = x"
  by (simp_all add: opt_or_def)

definition firewall_rule_ver :: "'j env \<Rightarrow> RunConfig \<Rightarrow> int res io" where
  "firewall_rule_ver E cfg =
     and_then (health E cfg) (\<lambda>h. ret (Ok (opt_or (-1) (j_field_i64 E h ''firewall_rule_ver''))))"

definition target_now_ms :: "'j env \<Rightarrow> RunConfig \<Rightarrow> int res io" where
  "target_now_ms E cfg = map_res Ok (now_ms E)"

definition dump_events :: "'j env \<Rightarrow> RunConfig \<Rightarrow> int \<Rightarrow> FwEvent list res io" where
  "dump_events E cfg since =
     and_then (query_events E (rc_state_db cfg) since) (\<lambda>rows.
       ret (with_context ''failed to parse firewall_event rows''
              (de_events (json E) (j_arr (json E) rows))))"

definition dump_reports :: "'j env \<Rightarrow> RunConfig \<Rightarrow> int \<Rightarrow> 'j FwReport list res io" where
  "dump_reports E cfg since =
     and_then (query_reports E (rc_state_db cfg) since None) (\<lambda>rows.
       ret (with_context ''failed to parse report_outbox rows''
              (de_reports (json E) (j_arr (json E) rows))))"

section \<open>Lemmas\<close>

lemma steady_store [later_intros]:
  "steady (open_db E db)" "steady (db_prepare E m s)" "steady (query_events E db since)"
  "steady (query_reports E db since t)" "steady (provision_rule E a f p v b c k)"
  "steady (health E cfg)" "steady (statistics E cfg)" "steady (firewall_rule_ver E cfg)"
  "steady (target_now_ms E cfg)" "steady (dump_events E cfg since)"
  "steady (dump_reports E cfg since)"
proof -
  show o: "steady (open_db E db)" for db
    unfolding open_db_def by (intro later_intros)
  show p: "steady (db_prepare E m s)" for m s
    unfolding db_prepare_def by (intro later_intros)
  show qe: "steady (query_events E db since)" for db
    unfolding query_events_def by (intro later_intros o p)
  show qr: "steady (query_reports E db since t)" for db t
    unfolding query_reports_def by (intro later_intros o p)
  show "steady (provision_rule E a f p v b c k)"
    unfolding provision_rule_def Let_def by (intro later_intros)
  show h: "steady (health E cfg)"
    unfolding health_def by (intro later_intros)
  show "steady (statistics E cfg)"
    unfolding statistics_def by (intro later_intros)
  show "steady (firewall_rule_ver E cfg)"
    unfolding firewall_rule_ver_def by (intro later_intros h)
  show "steady (target_now_ms E cfg)"
    unfolding target_now_ms_def by (intro later_intros)
  show "steady (dump_events E cfg since)"
    unfolding dump_events_def by (intro later_intros qe)
  show "steady (dump_reports E cfg since)"
    unfolding dump_reports_def by (intro later_intros qr)
qed

lemma run_and_then_ok:
  assumes "run_state (and_then m f) w = (Ok y, w')" and "steady m"
  obtains x w1 where "run_state m w = (Ok x, w1)" and "later w w1" and "run_state (f x) w1 = (Ok y, w')"
  using assms by (auto simp: run_and_then split: prod.splits sum.splits dest: steadyD)

text \<open>The metadata a new version is derived from: what the depot holds, else the default.\<close>

definition held_metadata :: "'j env \<Rightarrow> int \<Rightarrow> int \<Rightarrow> int \<Rightarrow> world \<Rightarrow> RuleMetadata" where
  "held_metadata E acd fn prot_ver w =
     (case idps_metadata (idps E) w (IdpsLoadMetadata acd fn prot_ver) of
        Inr m \<Rightarrow> m
      | Inl _ \<Rightarrow> idps_default_metadata (idps E))"

lemma provision_rule_saves:
  assumes "run_state (provision_rule E acd fn prot_ver ver bytes config_path keystore_path) w =
     (Ok out, w')"
  obtains w0 w1 meta path key_present where "later w w0"
    and "w1 = step E (IdpsLoadMetadata acd fn (max prot_ver 1)) w0"
    and "meta = next_metadata (held_metadata E acd fn (max prot_ver 1) w0) (max prot_ver 1) ver
       (idps_sha256_hex (idps E) bytes)"
    and "idps_unit (idps E) w1 (IdpsSaveRule acd fn bytes meta) = Ok ()"
    and "w' = step E (IdpsSaveRule acd fn bytes meta) w1"
    and "out = provision_json E acd fn meta (length bytes) path key_present"
proof -
  let ?p = "max prot_ver 1"
  let ?load = "IdpsLoadMetadata acd fn ?p"
  obtain path kp w0 where "run_state (do {
       found \<leftarrow> perform E ?load (\<lambda>w. idps_metadata (idps E) w ?load);
       let previous = (case found of Inr m \<Rightarrow> m | Inl _ \<Rightarrow> idps_default_metadata (idps E));
       let meta = next_metadata previous ?p ver (idps_sha256_hex (idps E) bytes);
       let save = IdpsSaveRule acd fn bytes meta;
       and_then (ctx ''failed to write depot rule''
                   (perform E save (\<lambda>w. idps_unit (idps E) w save))) (\<lambda>_.
         ret (Ok (provision_json E acd fn meta (length bytes) path kp)))
     }) w0 = (Ok out, w')" and "later w w0"
    using assms unfolding provision_rule_def Let_def split_def
    by (elim run_and_then_ok; (intro later_intros)?) (rule that [unfolded Let_def], assumption, meson later_trans)
  then show thesis
    by (auto simp: run_io with_context_def held_metadata_def Let_def split: sum.splits intro!: that)
qed

lemma rm_ver_next [simp]: "rm_ver (next_metadata m p (Some v) sha) = v"
  by (simp add: next_metadata_def Let_def)

lemma next_metadata_facts:
  fixes m :: RuleMetadata and p :: int and ver :: "int option" and sha :: string
  defines "meta \<equiv> next_metadata m (max p 1) ver sha"
  shows "(\<forall>v. ver = Some v \<longrightarrow> rm_ver meta = v) \<and> (ver = None \<longrightarrow> rm_ver meta < 2 ^ 31) \<and>
     rm_rule_ver meta = rm_ver meta \<and> 1 \<le> rm_prot_ver meta \<and> 1 \<le> rm_major_ver meta \<and>
     rm_sha256 meta = sha"
  by (auto simp: meta_def next_metadata_def Let_def saturating_succ_def split: option.splits)

section \<open>Properties\<close>

text \<open>
  C27. A rule is reported as provisioned only after the depot has stored it: the last action before
  success is the save of exactly the given bytes, and the depot answered it with Ok. The stored
  metadata carries the explicit version if there is one, else the successor (saturating at the
  largest 32-bit number) of the version the depot held just before; the rule version equals it, the
  protocol and the major version are at least one and the hash is that of the bytes. The reported
  JSON describes that saved rule.
\<close>

theorem provision_rule_stores:
  assumes "run_state (provision_rule E acd fn prot_ver ver bytes config_path keystore_path) w =
     (Ok out, w')"
  shows "\<exists>w0 w1 meta path key_present. later w w0 \<and>
     w1 = step E (IdpsLoadMetadata acd fn (max prot_ver 1)) w0 \<and>
     idps_unit (idps E) w1 (IdpsSaveRule acd fn bytes meta) = Ok () \<and>
     w' = step E (IdpsSaveRule acd fn bytes meta) w1 \<and>
     last (trace w') = IdpsSaveRule acd fn bytes meta \<and>
     out = provision_json E acd fn meta (length bytes) path key_present \<and>
     rm_ver meta = (case ver of
         Some v \<Rightarrow> v
       | None \<Rightarrow> saturating_succ (rm_ver (held_metadata E acd fn (max prot_ver 1) w0))) \<and>
     (ver = None \<longrightarrow> rm_ver meta < 2 ^ 31) \<and>
     rm_rule_ver meta = rm_ver meta \<and> 1 \<le> rm_prot_ver meta \<and> 1 \<le> rm_major_ver meta \<and>
     rm_sha256 meta = idps_sha256_hex (idps E) bytes"
proof -
  obtain w0 w1 meta path kp where *: "later w w0"
      "w1 = step E (IdpsLoadMetadata acd fn (max prot_ver 1)) w0"
      "idps_unit (idps E) w1 (IdpsSaveRule acd fn bytes meta) = Ok ()"
      "w' = step E (IdpsSaveRule acd fn bytes meta) w1"
      "out = provision_json E acd fn meta (length bytes) path kp"
    and meta: "meta = next_metadata (held_metadata E acd fn (max prot_ver 1) w0) (max prot_ver 1) ver
       (idps_sha256_hex (idps E) bytes)"
    using provision_rule_saves [OF assms] by metis
  have "rm_ver meta = (case ver of Some v \<Rightarrow> v
      | None \<Rightarrow> saturating_succ (rm_ver (held_metadata E acd fn (max prot_ver 1) w0)))"
    by (simp add: meta next_metadata_def Let_def)
  moreover have "last (trace w') = IdpsSaveRule acd fn bytes meta"
    by (simp add: *(4))
  ultimately show ?thesis
    using * next_metadata_facts [of ver "held_metadata E acd fn (max prot_ver 1) w0" prot_ver
      "idps_sha256_hex (idps E) bytes", folded meta]
    by blast
qed

theorem provision_rule_stores_witness:
  "\<exists>w1 meta. idps_unit (idps demo_env) w1 (IdpsSaveRule 1 1 ''rules'' meta) = Ok () \<and>
     snd (run_state (provision_rule demo_env 1 1 1 (Some 8) ''rules'' DEFAULT_CONFIG DEFAULT_KEYSTORE)
       demo_world) = step demo_env (IdpsSaveRule 1 1 ''rules'' meta) w1 \<and> rm_ver meta = 8"
proof -
  let ?m = "provision_rule demo_env 1 1 1 (Some 8) ''rules'' DEFAULT_CONFIG DEFAULT_KEYSTORE"
  have "is_ok (fst (run_state ?m demo_world))"
    by (simp add: provision_rule_def run_io demo_defs Let_def)
  then obtain out where "run_state ?m demo_world = (Ok out, snd (run_state ?m demo_world))"
    by (cases "fst (run_state ?m demo_world)") (auto simp: prod_eq_iff)
  from provision_rule_stores [OF this] show ?thesis
    unfolding option.case by blast
qed

end
