(* ===== verification/Provision.thy ===== *)
theory Provision
  imports Store
begin

text \<open>
  Rule provisioning of \<open>provision.rs\<close> and the VSOC client of \<open>vsoc.rs\<close>: in Android mode a rule is
  written into the depot with a version above the loaded one, in host mode it is upserted through
  VSOC; either way the program polls the daemon until the version has arrived or a deadline passes.

  A poll loop is a recursive function over the world. It ends because a round that does not finish
  sleeps and the clock does not go back; the locale \<open>deadline_loop\<close> holds what all poll loops of the
  program share.
\<close>

section \<open>The VSOC client\<close>

definition api :: "RunConfig \<Rightarrow> VsocApi res" where
  "api cfg =
     with_context_opt ''VSOC API is not configured (host mode requires --vsoc-url)'' (rc_vsoc cfg)"

definition base_args :: "VsocApi \<Rightarrow> string list" where
  "base_args vsoc =
     [''-sS'', ''--noproxy'', ''*'', ''-k'', ''--max-time'', ''20''] @
     opt_arg ''--cert'' (va_cert vsoc) @ opt_arg ''--key'' (va_key vsoc) @
     opt_arg ''--cacert'' (va_cacert vsoc)"

definition run_curl :: "'j env \<Rightarrow> string list \<Rightarrow> string res io" where
  "run_curl E args =
     and_then (ctx ''failed to spawn curl (host-mode VSOC client)''
                 (map_res lift_io (command_output E (''curl'' # args)))) (\<lambda>out.
       ret (if \<not> success out then Err [''curl failed: '' @ trim (stderr out)] else Ok (stdout out)))"

definition upsert_url :: "VsocApi \<Rightarrow> RunConfig \<Rightarrow> int \<Rightarrow> string" where
  "upsert_url vsoc cfg fn =
     trim_end_matches (CHR ''/'') (base_url vsoc) @ ''/api/rules/'' @ dec_int (rc_acd cfg) @ ''/'' @
     dec_int fn"

definition upsert_answer :: "'j env \<Rightarrow> RunConfig \<Rightarrow> int \<Rightarrow> string \<Rightarrow> int res" where
  "upsert_answer E cfg fn out =
     (case with_context (''VSOC upsert did not return JSON: '' @ trim out)
             (j_parse (json E) (trim out)) of
        Inl e \<Rightarrow> Err e
      | Inr value \<Rightarrow>
          (case Option.bind (j_get (json E) value ''detail'') (j_as_str (json E)) of
             Some detail \<Rightarrow>
               Err [''VSOC rejected rule (acd='' @ dec_int (rc_acd cfg) @ '' fun='' @ dec_int fn @
                    ''): '' @ detail]
           | None \<Rightarrow>
               with_context_opt ''VSOC upsert response missing ver'' (j_field_i64 E value ''ver'')))"

definition upsert_rule :: "'j env \<Rightarrow> RunConfig \<Rightarrow> int \<Rightarrow> string \<Rightarrow> int res io" where
  "upsert_rule E cfg fn content =
     and_then (ret (api cfg)) (\<lambda>vsoc.
       let body = j_show (json E) (j_obj (json E)
                    [(''content'', j_str (json E) content), (''enabled'', j_bool (json E) True)])
       in and_then (run_curl E (base_args vsoc @
                     [''-X'', ''PUT'', ''-H'', ''Content-Type: application/json'', ''-d'', body,
                      upsert_url vsoc cfg fn])) (\<lambda>out.
            ret (upsert_answer E cfg fn out)))"

definition events_mention :: "'j env \<Rightarrow> RunConfig \<Rightarrow> string \<Rightarrow> bool res io" where
  "events_mention E cfg needle =
     and_then (ret (api cfg)) (\<lambda>vsoc.
       and_then (run_curl E (base_args vsoc @
                   [trim_end_matches (CHR ''/'') (base_url vsoc) @ ''/api/events?limit=100''])) (\<lambda>out.
         ret (Ok (contains out needle))))"

section \<open>Polling the daemon\<close>

definition DEFAULT_DEPOT :: string where
  "DEFAULT_DEPOT = ''/data/idd/rule/depot''"

definition POLL_MS :: nat where "POLL_MS = 1000"

definition WAIT_LOG_INTERVAL :: nat where "WAIT_LOG_INTERVAL = 5000000000"

definition as_secs :: "nat \<Rightarrow> nat" where
  "as_secs ns = ns div 1000000000"

definition elapsed :: "'j env \<Rightarrow> nat \<Rightarrow> nat io" where
  "elapsed E start = do { now \<leftarrow> instant_now E; ret (as_secs (now - start)) }"

definition millis :: "nat \<Rightarrow> nat" where
  "millis ms = ms * 1000000"

text \<open>
  A round of a poll loop either stops with a result or hands its state to the next round. The state
  of both waiting loops is the time of the next progress line and the last observed value.
\<close>

type_synonym 'v wait_state = "nat \<times> 'v option"

definition show_observed :: "('v \<Rightarrow> string) \<Rightarrow> 'v option \<Rightarrow> string" where
  "show_observed shw observed = (case observed of Some v \<Rightarrow> shw v | None \<Rightarrow> ''unavailable'')"

definition wait_tail ::
  "'j env \<Rightarrow> string \<Rightarrow> ('v \<Rightarrow> string) \<Rightarrow> nat \<Rightarrow> nat \<Rightarrow> 'v wait_state \<Rightarrow>
   (unit res + 'v wait_state) io" where
  "wait_tail E goal shw start deadline = (\<lambda>(next_log, observed).
     do {
       now \<leftarrow> instant_now E;
       if deadline \<le> now then ret (Inl (Err [''timed out waiting for idps-fw '' @ goal]))
       else do {
         next_log \<leftarrow>
           (if next_log \<le> now then
              do {
                el \<leftarrow> elapsed E start;
                eprintln E (''fw-verify: still waiting for idps-fw '' @ goal @ '' (observed='' @
                  show_observed shw observed @ '', elapsed='' @ dec el @ ''s, remaining='' @
                  dec (as_secs (deadline - now)) @ ''s)'');
                ret (now + WAIT_LOG_INTERVAL)
              }
            else ret next_log);
         sleep E POLL_MS;
         ret (Inr (next_log, observed))
       }
     })"

definition wait_for_round ::
  "'j env \<Rightarrow> RunConfig \<Rightarrow> string \<Rightarrow> int \<Rightarrow> nat \<Rightarrow> nat \<Rightarrow> int wait_state \<Rightarrow>
   (unit res + int wait_state) io" where
  "wait_for_round E cfg field expected start deadline = (\<lambda>(next_log, observed).
     do {
       h \<leftarrow> health E cfg;
       let observed = (case h of Inr v \<Rightarrow> j_field_i64 E v field | Inl _ \<Rightarrow> observed);
       if is_ok h \<and> expected \<le> opt_or (-1) observed then
         do {
           el \<leftarrow> elapsed E start;
           eprintln E (''fw-verify: idps-fw '' @ field @ '' reached '' @
             dec_int (opt_or (-1) observed) @ '' after '' @ dec el @ ''s'');
           ret (Inl (Ok ()))
         }
       else wait_tail E (field @ '' >= '' @ dec_int expected) dec_int start deadline
              (next_log, observed)
     })"

definition wait_for_cycle_round ::
  "'j env \<Rightarrow> RunConfig \<Rightarrow> nat \<Rightarrow> nat \<Rightarrow> nat \<Rightarrow> nat wait_state \<Rightarrow>
   (unit res + nat wait_state) io" where
  "wait_for_cycle_round E cfg cycle start deadline = (\<lambda>(next_log, observed).
     do {
       h \<leftarrow> health E cfg;
       let observed = (case h of Inr v \<Rightarrow> j_field_u64 E v ''traffic_cycle_secs'' | Inl _ \<Rightarrow> observed);
       if is_ok h \<and> opt_or 0 observed = cycle then
         do {
           el \<leftarrow> elapsed E start;
           eprintln E (''fw-verify: idps-fw traffic_cycle_secs reached '' @
             dec (opt_or 0 observed) @ '' after '' @ dec el @ ''s'');
           ret (Inl (Ok ()))
         }
       else wait_tail E (''traffic_cycle_secs == '' @ dec cycle) dec start deadline
              (next_log, observed)
     })"

section \<open>Loops with a deadline\<close>

text \<open>
  What a round has to guarantee: it moves forward, and if it asks for another round then its start
  was before the deadline and at least \<open>pace\<close> has passed since.
\<close>

definition paced :: "nat \<Rightarrow> nat \<Rightarrow> ('r + 's) io \<Rightarrow> bool" where
  "paced deadline pace m \<longleftrightarrow>
     (\<forall>w r w'. run_state m w = (r, w') \<longrightarrow> later w w' \<and>
        (\<forall>s'. r = Inr s' \<longrightarrow> clock w < deadline \<and> clock w + pace \<le> clock w'))"

named_theorems paced_intros \<open>rounds of a loop with a deadline\<close>

lemma paced_later: "paced d p m \<Longrightarrow> run_state m w = (r, w') \<Longrightarrow> later w w'"
  by (auto simp: paced_def)

lemma paced_next:
  "paced d p m \<Longrightarrow> run_state m w = (Inr s', w') \<Longrightarrow> clock w < d \<and> clock w + p \<le> clock w'"
  by (auto simp: paced_def)

lemma paced_measure:
  assumes "run_state m w = (Inr s', w')" and "paced d p m" and "0 < p"
  shows "d - clock w' < d - clock w"
  using paced_next [OF assms(2,1)] assms(3) by linarith

lemma paced_bind [paced_intros]:
  assumes "steady m" and "\<And>x. paced d p (f x)"
  shows "paced d p (State_Monad.bind m f)"
  unfolding paced_def
proof (intro allI impI)
  fix w r w2
  assume "run_state (State_Monad.bind m f) w = (r, w2)"
  then obtain x w1 where m: "run_state m w = (x, w1)" and f: "run_state (f x) w1 = (r, w2)"
    by (auto split: prod.splits)
  have l: "later w w1"
    using assms(1) m by (rule steadyD)
  moreover have "later w1 w2"
    using paced_later [OF assms(2) f] .
  moreover have "clock w1 < d \<and> clock w1 + p \<le> clock w2" if "r = Inr s'" for s'
    using paced_next [OF assms(2)] f that by blast
  ultimately show "later w w2 \<and> (\<forall>s'. r = Inr s' \<longrightarrow> clock w < d \<and> clock w + p \<le> clock w2)"
    using later_trans [of w w1 w2] later_clock [OF l] by fastforce
qed

lemma paced_stop [paced_intros]: "paced d p (ret (Inl r))"
  by (simp add: paced_def)

lemma paced_if [paced_intros]: "paced d p f \<Longrightarrow> paced d p g \<Longrightarrow> paced d p (if c then f else g)"
  by simp

lemma paced_let [paced_intros]: "(\<And>x. paced d p (f x)) \<Longrightarrow> paced d p (let x = t in f x)"
  by simp

lemma paced_case_prod [paced_intros]:
  "(\<And>x y. paced d p (f x y)) \<Longrightarrow> paced d p (case t of (x, y) \<Rightarrow> f x y)"
  by (cases t) simp

lemma steady_elapsed [later_intros]: "steady (elapsed E start)"
  unfolding elapsed_def by (intro later_intros)

lemma paced_wait_tail [paced_intros]:
  "paced deadline (millis POLL_MS) (wait_tail E goal shw start deadline s)"
  unfolding paced_def wait_tail_def elapsed_def
  by (cases s) (auto simp: run_io later_def millis_def prefix_def split: if_splits)

lemma paced_wait_for [paced_intros]:
  "paced deadline (millis POLL_MS) (wait_for_round E cfg field expected start deadline s)"
  unfolding wait_for_round_def by (intro paced_intros later_intros)

lemma paced_wait_for_cycle [paced_intros]:
  "paced deadline (millis POLL_MS) (wait_for_cycle_round E cfg cycle start deadline s)"
  unfolding wait_for_cycle_round_def by (intro paced_intros later_intros)

lemma pace_pos [simp]: "0 < millis POLL_MS"
  by (simp add: millis_def POLL_MS_def)

function wait_for_loop ::
  "'j env \<Rightarrow> RunConfig \<Rightarrow> string \<Rightarrow> int \<Rightarrow> nat \<Rightarrow> nat \<Rightarrow> int wait_state \<Rightarrow> world \<Rightarrow> unit res \<times> world" where
  "wait_for_loop E cfg field expected start deadline s w =
     (case run_state (wait_for_round E cfg field expected start deadline s) w of
        (Inl r, w') \<Rightarrow> (r, w')
      | (Inr s', w') \<Rightarrow> wait_for_loop E cfg field expected start deadline s' w')"
  by pat_completeness auto
termination
  by (relation "measure (\<lambda>(E, cfg, field, expected, start, deadline, s, w). deadline - clock w)")
    (auto intro: paced_measure [OF sym paced_wait_for pace_pos])

function wait_for_cycle_loop ::
  "'j env \<Rightarrow> RunConfig \<Rightarrow> nat \<Rightarrow> nat \<Rightarrow> nat \<Rightarrow> nat wait_state \<Rightarrow> world \<Rightarrow> unit res \<times> world" where
  "wait_for_cycle_loop E cfg cycle start deadline s w =
     (case run_state (wait_for_cycle_round E cfg cycle start deadline s) w of
        (Inl r, w') \<Rightarrow> (r, w')
      | (Inr s', w') \<Rightarrow> wait_for_cycle_loop E cfg cycle start deadline s' w')"
  by pat_completeness auto
termination
  by (relation "measure (\<lambda>(E, cfg, cycle, start, deadline, s, w). deadline - clock w)")
    (auto intro: paced_measure [OF sym paced_wait_for_cycle pace_pos])

declare wait_for_loop.simps [simp del] wait_for_cycle_loop.simps [simp del]

locale deadline_loop =
  fixes body :: "'s \<Rightarrow> ('r + 's) io" and loop :: "'s \<Rightarrow> world \<Rightarrow> 'r \<times> world"
    and deadline :: nat and pace :: nat
  assumes body_paced: "paced deadline pace (body s)"
    and pace_pos: "0 < pace"
    and loop_eq: "loop s w =
      (case run_state (body s) w of (Inl r, w') \<Rightarrow> (r, w') | (Inr s', w') \<Rightarrow> loop s' w')"
begin

text \<open>The result of the loop is the result of some round, and every round before it went on.\<close>

lemma stops:
  assumes "I s w" and "\<And>s w s' w'. I s w \<Longrightarrow> run_state (body s) w = (Inr s', w') \<Longrightarrow> I s' w'"
  shows "\<exists>s1 w1 r w'. I s1 w1 \<and> later w w1 \<and> run_state (body s1) w1 = (Inl r, w') \<and>
     loop s w = (r, w')"
  using assms(1)
proof (induction "deadline - clock w" arbitrary: s w rule: less_induct)
  case less
  obtain r w' where b: "run_state (body s) w = (r, w')"
    by (cases "run_state (body s) w")
  show ?case
  proof (cases r)
    case (Inl x)
    with b have "loop s w = (x, w')"
      by (subst loop_eq) simp
    with less.prems b Inl show ?thesis
      using later_refl by blast
  next
    case (Inr s')
    have "deadline - clock w' < deadline - clock w"
      using b Inr paced_measure [OF _ body_paced pace_pos] by blast
    from less.hyps [OF this assms(2) [OF less.prems]] b Inr
    obtain s1 w1 r w2 where *: "I s1 w1" "later w' w1" "run_state (body s1) w1 = (Inl r, w2)"
      "loop s' w' = (r, w2)"
      by blast
    moreover have "later w w1"
      using paced_later [OF body_paced b] *(2) by (rule later_trans)
    ultimately show ?thesis
      using b Inr by (subst loop_eq) auto
  qed
qed

lemma later_loop: "loop s w = (r, w') \<Longrightarrow> later w w'"
  using stops [of "\<lambda>_ _. True" s w] paced_later [OF body_paced] later_trans by fastforce

lemma steady_loop: "steady (State (loop s))"
  by (rule steadyI) (simp add: later_loop)

text \<open>The last round starts at most one pace before the deadline or is the first one.\<close>

lemma last_round:
  "\<exists>s1 w1 r w'. later w w1 \<and> run_state (body s1) w1 = (Inl r, w') \<and> loop s w = (r, w')"
  using stops [of "\<lambda>_ _. True" s w] by auto

end

interpretation wait_version: deadline_loop
  "wait_for_round E cfg field expected start deadline"
  "wait_for_loop E cfg field expected start deadline" deadline "millis POLL_MS"
  for E cfg field expected start deadline
  by unfold_locales (rule paced_wait_for, simp, rule wait_for_loop.simps)

interpretation wait_cycle: deadline_loop
  "wait_for_cycle_round E cfg cycle start deadline"
  "wait_for_cycle_loop E cfg cycle start deadline" deadline "millis POLL_MS"
  for E cfg cycle start deadline
  by unfold_locales (rule paced_wait_for_cycle, simp, rule wait_for_cycle_loop.simps)

section \<open>Provisioning\<close>

definition waiting_line :: "RunConfig \<Rightarrow> string \<Rightarrow> string" where
  "waiting_line cfg goal =
     ''fw-verify: waiting for idps-fw '' @ goal @ '' (timeout='' @
     dec (rc_reload_timeout cfg div 1000) @ ''s)''"

definition wait_for :: "'j env \<Rightarrow> RunConfig \<Rightarrow> string \<Rightarrow> int \<Rightarrow> unit res io" where
  "wait_for E cfg field expected =
     do {
       start \<leftarrow> instant_now E;
       now \<leftarrow> instant_now E;
       let deadline = now + millis (rc_reload_timeout cfg);
       let next_log = start + WAIT_LOG_INTERVAL;
       eprintln E (waiting_line cfg (field @ '' >= '' @ dec_int expected));
       State (wait_for_loop E cfg field expected start deadline (next_log, None))
     }"

definition wait_for_cycle :: "'j env \<Rightarrow> RunConfig \<Rightarrow> nat \<Rightarrow> unit res io" where
  "wait_for_cycle E cfg cycle =
     do {
       start \<leftarrow> instant_now E;
       now \<leftarrow> instant_now E;
       let deadline = now + millis (rc_reload_timeout cfg);
       let next_log = start + WAIT_LOG_INTERVAL;
       eprintln E (waiting_line cfg (''traffic_cycle_secs == '' @ dec cycle));
       State (wait_for_cycle_loop E cfg cycle start deadline (next_log, None))
     }"

definition require_key_present :: "'j env \<Rightarrow> 'j \<Rightarrow> unit res" where
  "require_key_present E out =
     (if Option.bind (j_get (json E) out ''key_present'') (j_as_bool (json E)) = Some False
      then Err [''fw-agent could not derive the runtime AES key (no keystore / VIN+DSN); is idps-server initialized on the target?'']
      else Ok ())"

definition write_depot_rule :: "'j env \<Rightarrow> RunConfig \<Rightarrow> int \<Rightarrow> int \<Rightarrow> string \<Rightarrow> unit res io" where
  "write_depot_rule E cfg fn ver rule_text =
     and_then (ctx ''failed to write depot rule''
                 (provision_rule E (rc_acd cfg) fn 1 (Some (as_i32 ver)) rule_text DEFAULT_CONFIG
                    DEFAULT_KEYSTORE)) (\<lambda>out.
       ret (require_key_present E out))"

text \<open>\<open>before.max(0) + 1\<close> in \<open>i64\<close>.\<close>

definition next_version :: "int \<Rightarrow> int" where
  "next_version before = wrap_i64 (max before 0 + 1)"

definition depot_log :: "int \<Rightarrow> string" where
  "depot_log target_ver =
     ''fw-verify: provisioning firewall rule into the depot (target_ver='' @ dec_int target_ver @ '')''"

definition provision_firewall_android :: "'j env \<Rightarrow> RunConfig \<Rightarrow> string \<Rightarrow> int res io" where
  "provision_firewall_android E cfg rule_text =
     do {
       seen \<leftarrow> firewall_rule_ver E cfg;
       let before = unwrap_or (-1) seen;
       let target_ver = next_version before;
       eprintln E (depot_log target_ver);
       and_then (write_depot_rule E cfg (rc_fun_fw cfg) target_ver rule_text) (\<lambda>_.
       and_then (wait_for E cfg ''firewall_rule_ver'' target_ver) (\<lambda>_.
         ret (Ok target_ver)))
     }"

definition provision_firewall_host :: "'j env \<Rightarrow> RunConfig \<Rightarrow> string \<Rightarrow> int res io" where
  "provision_firewall_host E cfg rule_text =
     do {
       eprintln E ''fw-verify: uploading firewall rule to VSOC'';
       and_then (upsert_rule E cfg (rc_fun_fw cfg) rule_text) (\<lambda>ver.
       and_then (wait_for E cfg ''firewall_rule_ver'' ver) (\<lambda>_.
         ret (Ok ver)))
     }"

definition provision_firewall :: "'j env \<Rightarrow> RunConfig \<Rightarrow> string \<Rightarrow> int res io" where
  "provision_firewall E cfg rule_text =
     (case rc_mode cfg of
        Android \<Rightarrow> provision_firewall_android E cfg rule_text
      | Host \<Rightarrow> provision_firewall_host E cfg rule_text)"

definition cycle_rule :: "nat \<Rightarrow> string" where
  "cycle_rule cycle = ''{'' @ [CHR 0x22] @ ''cycle'' @ [CHR 0x22] @ '':'' @ dec cycle @ ''}''"

definition write_traffic_rule_android :: "'j env \<Rightarrow> RunConfig \<Rightarrow> nat \<Rightarrow> unit res io" where
  "write_traffic_rule_android E cfg cycle =
     do {
       h \<leftarrow> health E cfg;
       let before = opt_or (-1) (case h of Inr v \<Rightarrow> j_field_i64 E v ''traffic_rule_ver'' | Inl _ \<Rightarrow> None);
       let target_ver = next_version before;
       eprintln E (''fw-verify: provisioning traffic policy into the depot (cycle='' @ dec cycle @
         ''s target_ver='' @ dec_int target_ver @ '')'');
       write_depot_rule E cfg (rc_fun_traffic cfg) target_ver (cycle_rule cycle)
     }"

definition write_traffic_rule :: "'j env \<Rightarrow> RunConfig \<Rightarrow> nat \<Rightarrow> unit res io" where
  "write_traffic_rule E cfg cycle =
     (case rc_mode cfg of
        Android \<Rightarrow> write_traffic_rule_android E cfg cycle
      | Host \<Rightarrow>
          do {
            eprintln E (''fw-verify: uploading traffic policy to VSOC (cycle='' @ dec cycle @ ''s)'');
            and_then (upsert_rule E cfg (rc_fun_traffic cfg) (cycle_rule cycle)) (\<lambda>_. ret (Ok ()))
          })"

definition provision_traffic_cycle :: "'j env \<Rightarrow> RunConfig \<Rightarrow> nat \<Rightarrow> unit res io" where
  "provision_traffic_cycle E cfg cycle =
     and_then (write_traffic_rule E cfg cycle) (\<lambda>_. wait_for_cycle E cfg cycle)"

definition depot_pattern :: "RunConfig \<Rightarrow> int \<Rightarrow> string" where
  "depot_pattern cfg fn =
     DEFAULT_DEPOT @ ''/'' @ dec_int (rc_acd cfg) @ ''-'' @ dec_int fn @ ''-*.rule*''"

definition reset_rules :: "'j env \<Rightarrow> RunConfig \<Rightarrow> unit res io" where
  "reset_rules E cfg =
     (case rc_mode cfg of
        Android \<Rightarrow>
          and_then (shell E (rc_target cfg)
                      (''rm -f '' @ depot_pattern cfg (rc_fun_fw cfg) @ '' '' @
                       depot_pattern cfg (rc_fun_traffic cfg))) (\<lambda>_.
            ret (Ok ()))
      | Host \<Rightarrow>
          and_then (upsert_rule E cfg (rc_fun_fw cfg) ''chain=localin,action=P\<newline>'') (\<lambda>_.
            ret (Ok ())))"

lemma steady_vsoc [later_intros]:
  "steady (run_curl E args)" "steady (upsert_rule E cfg fn c)" "steady (events_mention E cfg n)"
proof -
  show c: "steady (run_curl E args)" for args
    unfolding run_curl_def by (intro later_intros)
  show "steady (upsert_rule E cfg fn c)"
    unfolding upsert_rule_def Let_def by (intro later_intros c)
  show "steady (events_mention E cfg n)"
    unfolding events_mention_def by (intro later_intros c)
qed

lemma steady_waits [later_intros]:
  "steady (wait_for E cfg field expected)" "steady (wait_for_cycle E cfg cycle)"
  unfolding wait_for_def wait_for_cycle_def Let_def
  by (intro later_intros wait_version.steady_loop wait_cycle.steady_loop)+

lemma steady_provision [later_intros]:
  "steady (write_depot_rule E cfg fn ver t)" "steady (provision_firewall_android E cfg t)"
  "steady (provision_firewall_host E cfg t)" "steady (provision_firewall E cfg t)"
  "steady (write_traffic_rule E cfg n)" "steady (provision_traffic_cycle E cfg n)"
  "steady (reset_rules E cfg)"
proof -
  show d: "steady (write_depot_rule E cfg fn ver t)" for fn ver t
    unfolding write_depot_rule_def by (intro later_intros)
  show a: "steady (provision_firewall_android E cfg t)"
    unfolding provision_firewall_android_def Let_def by (intro later_intros d)
  show h: "steady (provision_firewall_host E cfg t)"
    unfolding provision_firewall_host_def by (intro later_intros)
  show "steady (provision_firewall E cfg t)"
    unfolding provision_firewall_def by (cases "rc_mode cfg") (simp_all add: a h)
  show t: "steady (write_traffic_rule E cfg n)"
    unfolding write_traffic_rule_def write_traffic_rule_android_def Let_def
    by (cases "rc_mode cfg") (auto intro!: later_intros d)
  show "steady (provision_traffic_cycle E cfg n)"
    unfolding provision_traffic_cycle_def by (intro later_intros t)
  show "steady (reset_rules E cfg)"
    unfolding reset_rules_def by (cases "rc_mode cfg") (auto intro!: later_intros)
qed

lemma later_step_trans: "later w w' \<Longrightarrow> later w (step E a w')"
  using later_step later_trans by blast

lemma wait_tail_stop:
  "run_state (wait_tail E goal shw start deadline s) w = (Inl r, w') \<Longrightarrow>
   r = Err [''timed out waiting for idps-fw '' @ goal] \<and> deadline \<le> clock w'"
  by (cases s) (auto simp: wait_tail_def elapsed_def run_io split: if_splits)

lemma wait_for_round_stop:
  assumes "run_state (wait_for_round E cfg field expected start deadline s) w = (Inl r, w')"
  shows "r = Ok () \<and> (\<exists>h w2. run_state (health E cfg) w = (Ok h, w2) \<and> later w2 w' \<and>
       expected \<le> opt_or (-1) (j_field_i64 E h field)) \<or>
     r = Err [''timed out waiting for idps-fw '' @ field @ '' >= '' @ dec_int expected] \<and>
       deadline \<le> clock w'"
proof -
  obtain h w2 where h: "run_state (health E cfg) w = (h, w2)"
    by (cases "run_state (health E cfg) w")
  show ?thesis
  proof (cases h)
    case (Inl e)
    with assms h show ?thesis
      by (auto simp: wait_for_round_def Let_def dest!: wait_tail_stop split: prod.splits)
  next
    case (Inr v)
    then show ?thesis
    proof (cases "expected \<le> opt_or (-1) (j_field_i64 E v field)")
      case True
      with assms h Inr show ?thesis
        by (auto simp: wait_for_round_def Let_def elapsed_def run_io
            simp del: append.simps append_assoc intro!: later_step_trans split: prod.splits)
    next
      case False
      with assms h Inr show ?thesis
        by (auto simp: wait_for_round_def Let_def dest!: wait_tail_stop split: prod.splits)
    qed
  qed
qed

lemma wait_for_run:
  assumes "run_state (wait_for E cfg field expected) w = (r, w')"
  shows "later w w' \<and>
    (r = Ok () \<and> (\<exists>w1 h w2. later w w1 \<and> run_state (health E cfg) w1 = (Ok h, w2) \<and> later w2 w' \<and>
         expected \<le> opt_or (-1) (j_field_i64 E h field)) \<or>
     r = Err [''timed out waiting for idps-fw '' @ field @ '' >= '' @ dec_int expected] \<and>
       clock w + millis (rc_reload_timeout cfg) \<le> clock w')"
proof -
  define dl where "dl = clock (step E InstantNow w) + millis (rc_reload_timeout cfg)"
  define s where "s = (clock w + WAIT_LOG_INTERVAL, None :: int option)"
  define w0 where "w0 = step E (Eprintln (waiting_line cfg (field @ '' >= '' @ dec_int expected)))
      (step E InstantNow (step E InstantNow w))"
  have w0: "later w w0"
    unfolding w0_def by (meson later_step later_trans)
  have lp: "wait_for_loop E cfg field expected (clock w) dl s w0 = (r, w')"
    using assms by (simp add: wait_for_def run_io Let_def dl_def s_def w0_def)
  obtain s1 w1 where w1: "later w0 w1"
    and rd: "run_state (wait_for_round E cfg field expected (clock w) dl s1) w1 = (Inl r, w')"
    using wait_version.last_round [of w0 E cfg field expected "clock w" dl s] lp by auto
  have ww1: "later w w1"
    using w0 w1 by (rule later_trans)
  have "clock w + millis (rc_reload_timeout cfg) \<le> dl"
    by (simp add: dl_def)
  moreover have "later w w'"
    using later_trans [OF ww1 paced_later [OF paced_wait_for rd]] .
  ultimately show ?thesis
    using wait_for_round_stop [OF rd] ww1 by (elim disjE) (blast, linarith)
qed

section \<open>Properties\<close>

text \<open>
  C9. Waiting for a rule version always ends, and its answer is sound: it succeeds only if some
  health snapshot taken during the wait carried at least the expected version, and it gives up
  with the timeout message only when the whole configured timeout has passed.
\<close>

theorem wait_for_sound:
  assumes "run_state (wait_for E cfg field expected) w = (r, w')"
  shows "r = Ok () \<and> (\<exists>w1 h w2. later w w1 \<and> run_state (health E cfg) w1 = (Ok h, w2) \<and> later w2 w' \<and>
       expected \<le> opt_or (-1) (j_field_i64 E h field)) \<or>
     r = Err [''timed out waiting for idps-fw '' @ field @ '' >= '' @ dec_int expected] \<and>
       clock w + millis (rc_reload_timeout cfg) \<le> clock w'"
  using wait_for_run [OF assms] by blast

text \<open>
  A daemon at version 3 that loads the next version as soon as the depot has a new rule. Its
  health text has as many characters as its version.
\<close>

definition saved :: "action \<Rightarrow> bool" where
  "saved a = (case a of IdpsSaveRule _ _ _ _ \<Rightarrow> True | _ \<Rightarrow> False)"

definition daemon_env :: "jv env" where
  "daemon_env =
     demo_env
       \<lparr>os := demo_os\<lparr>ans_output := \<lambda>w _. Inr \<lparr>status_code = Some 0,
          stdout = (if list_ex saved (trace w) then ''four'' else ''yes''), stderr = []\<rparr>\<rparr>,
        idps := demo_idps\<lparr>idps_key := \<lambda>_ _. Inr (Some ''key'')\<rparr>,
        json := demo_json\<lparr>j_parse := \<lambda>s. Inr (JObj [(''firewall_rule_ver'', JInt (int (length s)))])\<rparr>\<rparr>"

definition daemon_version :: "world \<Rightarrow> int" where
  "daemon_version w = (if list_ex saved (trace w) then 4 else 3)"

lemma daemon_health:
  "\<exists>w'. run_state (health daemon_env demo_cfg) w =
      (Ok (JObj [(''firewall_rule_ver'', JInt (daemon_version w))]), w') \<and>
     daemon_version w' = daemon_version w"
  by (simp add: health_def shell_json_def shell_full_def run_program_def spawn_program_def run_io
      demo_cfg_def daemon_env_def demo_defs parse_json_def trim_def trim_by_def is_ws_def saved_def
      daemon_version_def)

lemma wait_for_first:
  assumes "\<And>w0. trace w0 = trace w @ [InstantNow, InstantNow,
        Eprintln (waiting_line cfg (field @ '' >= '' @ dec_int expected))] \<Longrightarrow>
      \<exists>h w1. run_state (health E cfg) w0 = (Ok h, w1) \<and> expected \<le> opt_or (-1) (j_field_i64 E h field)"
  shows "fst (run_state (wait_for E cfg field expected) w) = Ok ()"
proof -
  have first: "fst (wait_for_loop E cfg field expected st dl s w0) = Ok ()"
    if "run_state (health E cfg) w0 = (Ok h, w1)" "expected \<le> opt_or (-1) (j_field_i64 E h field)"
    for h w0 w1 st dl s
    using that by (subst wait_for_loop.simps) (cases s, simp add: wait_for_round_def elapsed_def run_io)
  define w0 where "w0 = step E (Eprintln (waiting_line cfg (field @ '' >= '' @ dec_int expected)))
      (step E InstantNow (step E InstantNow w))"
  obtain h w1 where "run_state (health E cfg) w0 = (Ok h, w1)"
      "expected \<le> opt_or (-1) (j_field_i64 E h field)"
    using assms [of w0] by (auto simp: w0_def)
  from first [OF this] show ?thesis
    by (simp add: wait_for_def run_io Let_def w0_def)
qed

lemma daemon_wait:
  assumes "v \<le> daemon_version w"
  shows "fst (run_state (wait_for daemon_env demo_cfg ''firewall_rule_ver'' v) w) = Ok ()"
proof (rule wait_for_first)
  fix w0 :: world
  assume "trace w0 = trace w @ [InstantNow, InstantNow,
      Eprintln (waiting_line demo_cfg (''firewall_rule_ver'' @ '' >= '' @ dec_int v))]"
  then have "daemon_version w0 = daemon_version w"
    by (simp add: daemon_version_def saved_def)
  moreover have "j_field_i64 daemon_env (JObj [(''firewall_rule_ver'', JInt k)]) ''firewall_rule_ver'' =
      Some k" for k
    by (simp add: j_field_i64_def daemon_env_def demo_json_def)
  ultimately show "\<exists>h w1. run_state (health daemon_env demo_cfg) w0 = (Ok h, w1) \<and>
      v \<le> opt_or (-1) (j_field_i64 daemon_env h ''firewall_rule_ver'')"
    using daemon_health [of w0] assms by (metis opt_or_simps(2))
qed

theorem wait_for_sound_witness:
  "\<exists>w1 h w2. later demo_world w1 \<and> run_state (health daemon_env demo_cfg) w1 = (Ok h, w2) \<and>
     3 \<le> opt_or (-1) (j_field_i64 daemon_env h ''firewall_rule_ver'')"
proof -
  have "fst (run_state (wait_for daemon_env demo_cfg ''firewall_rule_ver'' 3) demo_world) = Ok ()"
    by (rule daemon_wait) (simp add: daemon_version_def)
  then have "run_state (wait_for daemon_env demo_cfg ''firewall_rule_ver'' 3) demo_world =
      (Ok (), snd (run_state (wait_for daemon_env demo_cfg ''firewall_rule_ver'' 3) demo_world))"
    by (metis prod.collapse)
  from wait_for_sound [OF this] show ?thesis
    by blast
qed

text \<open>
  C10. Android provisioning promises what the cases rely on: on success the returned version is one
  above the loaded one (and at least one), the depot accepted (answered Ok to) the save of the rule
  text under that version (as a 32-bit number), and after that save the daemon has reported a loaded
  version that is at least the returned one.
\<close>

theorem provision_android_loads:
  assumes "run_state (provision_firewall_android E cfg rule_text) w = (Ok v, w')"
  shows "v = next_version (unwrap_or (-1) (fst (run_state (firewall_rule_ver E cfg) w))) \<and>
     (\<exists>meta ws w1 h w2. rm_ver meta = as_i32 v \<and> later w ws \<and>
        idps_unit (idps E) ws (IdpsSaveRule (rc_acd cfg) (rc_fun_fw cfg) rule_text meta) = Ok () \<and>
        later (step E (IdpsSaveRule (rc_acd cfg) (rc_fun_fw cfg) rule_text meta) ws) w1 \<and>
        run_state (health E cfg) w1 = (Ok h, w2) \<and> later w2 w' \<and>
        v \<le> opt_or (-1) (j_field_i64 E h ''firewall_rule_ver''))"
proof -
  obtain seen w0 where fv: "run_state (firewall_rule_ver E cfg) w = (seen, w0)"
    by (cases "run_state (firewall_rule_ver E cfg) w")
  define ver where "ver = next_version (unwrap_or (-1) seen)"
  define wa where "wa = step E (Eprintln (depot_log ver)) w0"
  obtain w2 where wr: "run_state (write_depot_rule E cfg (rc_fun_fw cfg) ver rule_text) wa = (Ok (), w2)"
    and wt: "run_state (wait_for E cfg ''firewall_rule_ver'' ver) w2 = (Ok (), w')" and v: "v = ver"
    using assms
    by (auto simp: provision_firewall_android_def run_io fv Let_def ver_def wa_def
        split: prod.splits sum.splits)
  have "later w w0"
    using steadyD [OF _ fv] by (auto intro: later_intros)
  then have "later w wa"
    unfolding wa_def using later_step by (rule later_trans)
  moreover obtain out where "run_state (provision_rule E (rc_acd cfg) (rc_fun_fw cfg) 1 (Some (as_i32 ver))
      rule_text DEFAULT_CONFIG DEFAULT_KEYSTORE) wa = (Ok out, w2)"
    using wr by (auto simp: write_depot_rule_def run_io with_context_def
        split: prod.splits sum.splits)
  then obtain ws meta where "later wa ws" "rm_ver meta = as_i32 ver"
    "idps_unit (idps E) ws (IdpsSaveRule (rc_acd cfg) (rc_fun_fw cfg) rule_text meta) = Ok ()"
    "w2 = step E (IdpsSaveRule (rc_acd cfg) (rc_fun_fw cfg) rule_text meta) ws"
    by (elim provision_rule_saves) (metis later_step later_trans rm_ver_next)
  moreover from wait_for_run [OF wt] obtain w3 h w4 where "later w2 w3"
    and "run_state (health E cfg) w3 = (Ok h, w4)" and "later w4 w'"
    and "ver \<le> opt_or (-1) (j_field_i64 E h ''firewall_rule_ver'')"
    by auto
  ultimately show ?thesis
    unfolding v by (simp add: fv ver_def) (meson later_trans)
qed

lemma daemon_write:
  "\<exists>w'. run_state (write_depot_rule daemon_env demo_cfg 1 4 ''rules'') w = (Ok (), w') \<and>
     daemon_version w' = 4"
  by (simp add: write_depot_rule_def provision_rule_def run_io Let_def daemon_env_def demo_defs
      require_key_present_def provision_json_def daemon_version_def saved_def)

lemma daemon_provision:
  "fst (run_state (provision_firewall_android daemon_env demo_cfg ''rules'') demo_world) = Ok 4"
proof -
  obtain w1 where h: "run_state (health daemon_env demo_cfg) demo_world =
      (Ok (JObj [(''firewall_rule_ver'', JInt 3)]), w1)"
    using daemon_health [of demo_world] by (auto simp: daemon_version_def demo_world_def)
  have f: "j_field_i64 daemon_env (JObj [(''firewall_rule_ver'', JInt 3)]) ''firewall_rule_ver'' = Some 3"
    by (simp add: j_field_i64_def daemon_env_def demo_json_def)
  have fv: "run_state (firewall_rule_ver daemon_env demo_cfg) demo_world = (Ok 3, w1)"
    by (simp add: firewall_rule_ver_def run_and_then h f)
  have v: "next_version 3 = 4"
    by (simp add: next_version_def wrap_i64_id)
  obtain w2 where wr: "run_state (write_depot_rule daemon_env demo_cfg 1 4 ''rules'')
      (step daemon_env (Eprintln (depot_log 4)) w1) = (Ok (), w2)" and dv: "daemon_version w2 = 4"
    using daemon_write by blast
  have "fst (run_state (wait_for daemon_env demo_cfg ''firewall_rule_ver'' 4) w2) = Ok ()"
    by (rule daemon_wait) (simp add: dv)
  then obtain w3 where wt: "run_state (wait_for daemon_env demo_cfg ''firewall_rule_ver'' 4) w2 = (Ok (), w3)"
    by (metis prod.collapse)
  have fn: "rc_fun_fw demo_cfg = 1"
    by (simp add: demo_cfg_def)
  show ?thesis
    unfolding provision_firewall_android_def Let_def fn
    by (simp add: fv unwrap_or_def v eprintln_def run_and_then wr wt)
qed

theorem provision_android_loads_witness:
  "fst (run_state (provision_firewall_android daemon_env demo_cfg ''rules'') demo_world) = Ok 4 \<and>
   (\<exists>meta ws w1 h w2. rm_ver meta = 4 \<and>
      idps_unit (idps daemon_env) ws (IdpsSaveRule 1 1 ''rules'' meta) = Ok () \<and>
      later (step daemon_env (IdpsSaveRule 1 1 ''rules'' meta) ws) w1 \<and>
      run_state (health daemon_env demo_cfg) w1 = (Ok h, w2))"
proof -
  let ?m = "provision_firewall_android daemon_env demo_cfg ''rules''"
  have ok: "fst (run_state ?m demo_world) = Ok 4"
    by (rule daemon_provision)
  then have r: "run_state ?m demo_world = (Ok 4, snd (run_state ?m demo_world))"
    by (metis prod.collapse)
  have cfg: "rc_acd demo_cfg = 1" "rc_fun_fw demo_cfg = 1" "as_i32 4 = 4"
    by (simp_all add: demo_cfg_def as_i32_id)
  from provision_android_loads [OF r] show ?thesis
    unfolding cfg using ok by blast
qed

text \<open>
  C34. Host provisioning promises the same through the VSOC service: on success the rule text was put to
  the configured service under the address of the firewall function, \<open>curl\<close> exited with zero, the
  answer is JSON without a text \<open>detail\<close> and its \<open>ver\<close> is the returned version, and after that answer
  the daemon has reported a loaded version that is at least the returned one.
\<close>

theorem provision_host_loads:
  assumes "run_state (provision_firewall_host E cfg rule_text) w = (Ok v, w')"
  shows "\<exists>vsoc argv ws out value w1 h w2. rc_vsoc cfg = Some vsoc \<and>
     argv = ''curl'' # base_args vsoc @
       [''-X'', ''PUT'', ''-H'', ''Content-Type: application/json'', ''-d'',
        j_show (json E) (j_obj (json E)
          [(''content'', j_str (json E) rule_text), (''enabled'', j_bool (json E) True)]),
        upsert_url vsoc cfg (rc_fun_fw cfg)] \<and>
     later w ws \<and> ans_output (os E) ws (Output argv) = Inr out \<and> status_code out = Some 0 \<and>
     j_parse (json E) (trim (stdout out)) = Ok value \<and>
     Option.bind (j_get (json E) value ''detail'') (j_as_str (json E)) = None \<and>
     Option.bind (j_get (json E) value ''ver'') (j_as_i64 (json E)) = Some v \<and>
     later (step E (Output argv) ws) w1 \<and> run_state (health E cfg) w1 = (Ok h, w2) \<and> later w2 w' \<and>
     v \<le> opt_or (-1) (j_field_i64 E h ''firewall_rule_ver'')"
proof -
  define ws where "ws = step E (Eprintln ''fw-verify: uploading firewall rule to VSOC'') w"
  obtain ver wa where up: "run_state (upsert_rule E cfg (rc_fun_fw cfg) rule_text) ws = (Ok ver, wa)"
    and wt: "run_state (wait_for E cfg ''firewall_rule_ver'' ver) wa = (Ok (), w')" and v: "v = ver"
    using assms by (auto simp: provision_firewall_host_def ws_def run_io split: prod.splits sum.splits)
  obtain vsoc where vsoc: "rc_vsoc cfg = Some vsoc"
    using up by (cases "rc_vsoc cfg") (auto simp: upsert_rule_def api_def run_io)
  define argv where "argv = ''curl'' # base_args vsoc @
       [''-X'', ''PUT'', ''-H'', ''Content-Type: application/json'', ''-d'',
        j_show (json E) (j_obj (json E)
          [(''content'', j_str (json E) rule_text), (''enabled'', j_bool (json E) True)]),
        upsert_url vsoc cfg (rc_fun_fw cfg)]"
  obtain out where "ans_output (os E) ws (Output argv) = Inr out" "status_code out = Some 0"
      "wa = step E (Output argv) ws" and ans: "upsert_answer E cfg (rc_fun_fw cfg) (stdout out) = Ok ver"
    using up
    by (cases "ans_output (os E) ws (Output argv)")
      (auto simp: upsert_rule_def api_def run_curl_def vsoc success_def run_io Let_def argv_def [symmetric]
        split: if_splits)
  moreover obtain js where "j_parse (json E) (trim (stdout out)) = Ok js"
      "Option.bind (j_get (json E) js ''detail'') (j_as_str (json E)) = None"
      "Option.bind (j_get (json E) js ''ver'') (j_as_i64 (json E)) = Some ver"
    using ans by (auto simp: upsert_answer_def with_context_def with_context_opt_def j_field_i64_def
        split: sum.splits option.splits)
  moreover from wait_for_run [OF wt] obtain w3 h w4 where "later wa w3"
    and "run_state (health E cfg) w3 = (Ok h, w4)" and "later w4 w'"
    and "ver \<le> opt_or (-1) (j_field_i64 E h ''firewall_rule_ver'')"
    by auto
  moreover have "later w ws"
    by (simp add: ws_def)
  ultimately show ?thesis
    using vsoc argv_def unfolding v by blast
qed

text \<open>A service that accepts every rule as version 4 and a daemon that has loaded it.\<close>

definition vsoc_env :: "jv env" where
  "vsoc_env = demo_env\<lparr>json := demo_json\<lparr>j_parse := \<lambda>_. Inr (JObj
     [(''ver'', JInt 4), (''firewall_rule_ver'', JInt 4)])\<rparr>\<rparr>"

definition host_cfg :: RunConfig where
  "host_cfg = demo_cfg\<lparr>rc_mode := Host,
     rc_vsoc := Some \<lparr>base_url = ''https://vsoc'', va_cert = None, va_key = None, va_cacert = None\<rparr>\<rparr>"

lemma host_provision:
  "fst (run_state (provision_firewall_host vsoc_env host_cfg ''rules'') demo_world) = Ok 4"
proof -
  have f: "j_field_i64 vsoc_env (JObj [(''ver'', JInt 4), (''firewall_rule_ver'', JInt 4)])
      ''firewall_rule_ver'' = Some 4"
    by (simp add: j_field_i64_def vsoc_env_def demo_json_def)
  have h: "\<exists>w1. run_state (health vsoc_env host_cfg) w0 =
      (Ok (JObj [(''ver'', JInt 4), (''firewall_rule_ver'', JInt 4)]), w1)" for w0
    by (simp add: health_def shell_json_def shell_full_def run_program_def spawn_program_def run_io
        host_cfg_def demo_cfg_def vsoc_env_def demo_defs parse_json_def)
  have wt: "fst (run_state (wait_for vsoc_env host_cfg ''firewall_rule_ver'' 4) w1) = Ok ()" for w1
    by (rule wait_for_first) (use h f in \<open>metis opt_or_simps(2) order_refl\<close>)
  have up: "\<exists>w2. run_state (upsert_rule vsoc_env host_cfg fn ''rules'') w1 = (Ok 4, w2)" for w1 fn
    by (simp add: upsert_rule_def api_def run_curl_def upsert_answer_def run_io Let_def host_cfg_def
        vsoc_env_def demo_defs success_def j_field_i64_def with_context_def with_context_opt_def)
  obtain w2 where "run_state (upsert_rule vsoc_env host_cfg (rc_fun_fw host_cfg) ''rules'')
      (step vsoc_env (Eprintln ''fw-verify: uploading firewall rule to VSOC'') demo_world) = (Ok 4, w2)"
    using up by blast
  with wt [of w2] show ?thesis
    by (auto simp: provision_firewall_host_def run_and_then eprintln_def split: prod.splits sum.splits)
qed

theorem provision_host_loads_witness:
  "\<exists>vsoc argv ws out w1 h w2. rc_vsoc host_cfg = Some vsoc \<and>
     ans_output (os vsoc_env) ws (Output argv) = Inr out \<and> status_code out = Some 0 \<and>
     later (step vsoc_env (Output argv) ws) w1 \<and> run_state (health vsoc_env host_cfg) w1 = (Ok h, w2) \<and>
     4 \<le> opt_or (-1) (j_field_i64 vsoc_env h ''firewall_rule_ver'')"
proof -
  let ?m = "provision_firewall_host vsoc_env host_cfg ''rules''"
  have "run_state ?m demo_world = (Ok 4, snd (run_state ?m demo_world))"
    using host_provision by (metis prod.collapse)
  from provision_host_loads [OF this] show ?thesis
    by blast
qed

end
