(* ===== verification/Peer.thy ===== *)
theory Peer
  imports Store
begin

text \<open>
  Driving the worker, \<open>peer.rs\<close>: a traffic request is turned into the command line of a re-executed
  worker, run on the side where the traffic originates, and its JSON answer is read back; listeners
  are started in the background and stopped by name.
\<close>

section \<open>Requests\<close>

record TrafficCmd =
  tc_proto :: string
  tc_to :: ipaddr
  tc_dport :: "u16 option"
  tc_dports :: "u16 list option"
  tc_sport :: "u16 option"
  tc_count :: u32
  tc_timeout_ms :: u64
  tc_interval_ms :: u64
  tc_await_reply :: bool
  tc_fin_only :: bool
  tc_icmp_timestamp :: bool

definition ports_args :: "TrafficCmd \<Rightarrow> string list" where
  "ports_args cmd =
     (case tc_dports cmd of
        Some ports \<Rightarrow> [''--dports'', join '','' (map show_word ports)]
      | None \<Rightarrow> opt_arg ''--dport'' (map_option show_word (tc_dport cmd)))"

definition argv :: "TrafficCmd \<Rightarrow> u32 option \<Rightarrow> string list" where
  "argv cmd uid =
     [''traffic'', tc_proto cmd, ''--to'', show_ip (tc_to cmd)] @
     ports_args cmd @
     opt_arg ''--sport'' (map_option show_word (tc_sport cmd)) @
     opt_arg ''--count'' (if tc_count cmd > 1 then Some (show_word (tc_count cmd)) else None) @
     opt_arg ''--interval-ms''
       (if tc_interval_ms cmd > 0 then Some (show_word (tc_interval_ms cmd)) else None) @
     [''--timeout-ms'', show_word (tc_timeout_ms cmd)] @
     switch ''--await-reply'' (tc_await_reply cmd) @
     switch ''--fin-only'' (tc_fin_only cmd) @
     opt_arg ''--icmp-type'' (if tc_icmp_timestamp cmd then Some ''timestamp'' else None) @
     opt_arg ''--uid'' (map_option show_word uid)"

definition traffic :: "'j env \<Rightarrow> Endpoint \<Rightarrow> TrafficCmd \<Rightarrow> u32 option \<Rightarrow> TrafficOutcome res io" where
  "traffic E endpoint cmd uid =
     and_then (agent_json E endpoint (argv cmd uid)) (\<lambda>value.
       ret (with_context ''failed to parse traffic outcome'' (de_outcome (json E) value)))"

section \<open>Listeners\<close>

definition start_listener :: "'j env \<Rightarrow> Endpoint \<Rightarrow> string \<Rightarrow> u16 \<Rightarrow> u64 \<Rightarrow> nat res io" where
  "start_listener E endpoint proto port duration_secs =
     agent_spawn E endpoint
       [''listen'', proto, ''--port'', show_word port, ''--duration-secs'', show_word duration_secs]"

definition stop_cmd :: string where
  "stop_cmd = ''pkill -f '' @ [CHR 0x27] @ ''agent listen'' @ [CHR 0x27]"

definition stop_listeners :: "'j env \<Rightarrow> Endpoint \<Rightarrow> unit io" where
  "stop_listeners E endpoint = do { shell E endpoint stop_cmd; ret () }"

section \<open>Lemmas\<close>

lemma steady_peer [later_intros]:
  "steady (traffic E endpoint cmd uid)" "steady (start_listener E endpoint proto port d)"
  "steady (stop_listeners E endpoint)"
  unfolding traffic_def start_listener_def stop_listeners_def by (intro later_intros)+

text \<open>
  Reading a long option off a command line: the argument that follows the first occurrence of its
  name.
\<close>

definition option_value :: "string \<Rightarrow> string list \<Rightarrow> string option" where
  "option_value flag args =
     (case dropWhile (\<lambda>a. a \<noteq> flag) args of _ # v # _ \<Rightarrow> Some v | _ \<Rightarrow> None)"

lemma option_value_skip [simp]:
  "flag \<notin> set xs \<Longrightarrow> option_value flag (xs @ ys) = option_value flag ys"
  by (induction xs) (auto simp: option_value_def)

lemma option_value_Cons [simp]: "a \<noteq> flag \<Longrightarrow> option_value flag (a # ys) = option_value flag ys"
  by (simp add: option_value_def)

lemma option_value_Nil [simp]: "option_value flag [] = None"
  by (simp add: option_value_def)

lemma option_value_here [simp]: "option_value flag (flag # v # ys) = Some v"
  by (simp add: option_value_def)

lemma option_value_absent [simp]: "flag \<notin> set ys \<Longrightarrow> option_value flag ys = None"
  using option_value_skip [of flag ys "[]"] by simp

lemma option_value_opt_arg [simp]:
  "flag \<notin> set ys \<Longrightarrow> option_value flag (opt_arg flag v @ ys) = v"
  by (cases v) (simp_all add: opt_arg_def)

lemma option_value_opt_arg_last [simp]: "option_value flag (opt_arg flag v) = v"
  using option_value_opt_arg [of flag "[]" v] by simp

lemma set_opt_arg [simp]: "set (opt_arg flag v) = (case v of None \<Rightarrow> {} | Some x \<Rightarrow> {flag, x})"
  by (cases v) (simp_all add: opt_arg_def)

lemma set_switch [simp]: "set (switch flag b) = (if b then {flag} else {})"
  by (simp add: switch_def)

text \<open>The values on the command line never look like options.\<close>

lemma no_dash:
  assumes "CHR ''-'' \<notin> set v"
  shows "v \<noteq> CHR ''-'' # s" and "CHR ''-'' # s \<noteq> v"
  using assms by auto

lemma dash_word: "CHR ''-'' \<notin> set (show_word w)"
  using digit_char [of "CHR ''-''" w] by (auto simp: is_digit_def)

lemma dash_words: "CHR ''-'' \<notin> set (join '','' (map show_word ws))"
  using set_join [of "'',''" "map show_word ws"] by (auto simp: dash_word)

lemma dash_ip: "CHR ''-'' \<notin> set (show_ip a)"
proof (cases a)
  case (V4 v)
  then show ?thesis by (auto simp: is_digit_def dest: show_ipv4_char)
next
  case (V6 w)
  then show ?thesis
    by (auto simp: show_ipv6_def Let_def is_digit_def split: prod.splits if_splits
        dest!: show_ipv4_char hex_groups_char)
qed

lemmas plain_values [simp] = no_dash [OF dash_word] no_dash [OF dash_words] no_dash [OF dash_ip]

section \<open>Properties\<close>

text \<open>
  C26. The command line carries the whole request: reading each long option back gives the field it
  was built from (the port list wins over the single port, and count and interval are left out
  exactly when they have the worker's default), and a uid is passed exactly when privileges are to
  be dropped.
\<close>

theorem argv_carries_request:
  assumes "tc_proto cmd \<in> {''tcp'', ''udp'', ''icmp''}"
  shows "take 2 (argv cmd uid) = [''traffic'', tc_proto cmd] \<and>
     option_value ''--to'' (argv cmd uid) = Some (show_ip (tc_to cmd)) \<and>
     option_value ''--dports'' (argv cmd uid) =
       map_option (\<lambda>ps. join '','' (map show_word ps)) (tc_dports cmd) \<and>
     option_value ''--dport'' (argv cmd uid) =
       (if tc_dports cmd = None then map_option show_word (tc_dport cmd) else None) \<and>
     option_value ''--sport'' (argv cmd uid) = map_option show_word (tc_sport cmd) \<and>
     option_value ''--count'' (argv cmd uid) =
       (if tc_count cmd > 1 then Some (show_word (tc_count cmd)) else None) \<and>
     option_value ''--interval-ms'' (argv cmd uid) =
       (if tc_interval_ms cmd > 0 then Some (show_word (tc_interval_ms cmd)) else None) \<and>
     option_value ''--timeout-ms'' (argv cmd uid) = Some (show_word (tc_timeout_ms cmd)) \<and>
     (''--await-reply'' \<in> set (argv cmd uid) \<longleftrightarrow> tc_await_reply cmd) \<and>
     (''--fin-only'' \<in> set (argv cmd uid) \<longleftrightarrow> tc_fin_only cmd) \<and>
     option_value ''--icmp-type'' (argv cmd uid) =
       (if tc_icmp_timestamp cmd then Some ''timestamp'' else None) \<and>
     option_value ''--uid'' (argv cmd uid) = map_option show_word uid"
proof -
  have proto: "tc_proto cmd \<noteq> CHR ''-'' # s" "CHR ''-'' # s \<noteq> tc_proto cmd" for s
    using assms by auto
  have ports: "set (ports_args cmd) = (case tc_dports cmd of
      Some ps \<Rightarrow> {''--dports'', join '','' (map show_word ps)}
    | None \<Rightarrow> (case tc_dport cmd of None \<Rightarrow> {} | Some p \<Rightarrow> {''--dport'', show_word p}))"
    by (simp add: ports_args_def split: option.split)
  define head where "head = [''traffic'', tc_proto cmd, ''--to'', show_ip (tc_to cmd)]"
  note parts = argv_def ports proto head_def [symmetric]
  have hd: "flag \<notin> set head" if "\<exists>s. flag = ''--'' @ s" "flag \<noteq> ''--to''" for flag
    using that proto by (auto simp: head_def)
  show ?thesis
  proof (intro conjI)
    show "take 2 (argv cmd uid) = [''traffic'', tc_proto cmd]"
      by (simp add: argv_def)
    show "option_value ''--to'' (argv cmd uid) = Some (show_ip (tc_to cmd))"
      using proto by (simp add: argv_def option_value_def)
    show "option_value ''--dports'' (argv cmd uid) =
       map_option (\<lambda>ps. join '','' (map show_word ps)) (tc_dports cmd)"
      by (cases "tc_dports cmd") (auto simp: parts hd ports_args_def split: option.split)
    show "option_value ''--dport'' (argv cmd uid) =
       (if tc_dports cmd = None then map_option show_word (tc_dport cmd) else None)"
      by (cases "tc_dports cmd") (auto simp: parts hd ports_args_def split: option.split)
  qed (auto simp: parts hd split: option.split)
qed

definition demo_cmd :: TrafficCmd where
  "demo_cmd =
     \<lparr>tc_proto = ''tcp'', tc_to = V4 (Ipv4 10 123 0 1), tc_dport = None,
      tc_dports = Some [9001, 9002], tc_sport = None, tc_count = 1, tc_timeout_ms = 250,
      tc_interval_ms = 0, tc_await_reply = False, tc_fin_only = True, tc_icmp_timestamp = False\<rparr>"

theorem argv_carries_request_witness:
  "option_value ''--dports'' (argv demo_cmd (Some 2000)) = Some ''9001,9002'' \<and>
   option_value ''--uid'' (argv demo_cmd (Some 2000)) = Some ''2000'' \<and>
   ''--fin-only'' \<in> set (argv demo_cmd (Some 2000))"
  using argv_carries_request [of demo_cmd "Some 2000"] by (simp add: demo_cmd_def show_word_def)

end
