(* ===== verification/Verify.thy ===== *)
theory Verify
  imports Catalog Provision Peer
begin

text \<open>
  Running the catalog, \<open>verify.rs\<close>: a case starts its listeners, takes a time watermark, generates
  traffic on the side of its origin, reads the daemon's events, judges enforcement, detection and
  the upload of the report, and cleans up; the bundle runner provisions each bundle once and runs
  its selected cases. The long body of \<open>run_case\<close> is written in the order of the source as
  \<open>start_listeners\<close>, \<open>observe\<close>, \<open>judge_event\<close>, \<open>confirm_report\<close> and \<open>judge\<close>.
\<close>

section \<open>Results\<close>

record CaseResult =
  cr_id :: string
  cr_group :: string
  cr_bundle :: string
  cr_result :: string
  cr_enforce_expected :: string
  cr_enforce_observed :: string
  cr_event_expected :: string
  cr_event_observed :: string
  cr_report_confirmed :: "bool option"
  cr_rule_id :: "int option"
  cr_detail :: string

fun bundle_name :: "Bundle \<Rightarrow> string" where
  "bundle_name IngressTuple = ''ingress_tuple''"
| "bundle_name DefaultDeny = ''default_deny''"
| "bundle_name DefaultAllow = ''default_allow''"
| "bundle_name EgressTuple = ''egress_tuple''"
| "bundle_name AppDeny = ''app_deny''"
| "bundle_name AppAllow = ''app_allow''"
| "bundle_name MatchFields = ''match_fields''"
| "bundle_name Detection = ''detection''"
| "bundle_name Traffic = ''traffic''"
| "bundle_name Priority = ''priority''"

fun enforce_str :: "Enforce \<Rightarrow> string" where
  "enforce_str Blocked = ''blocked''"
| "enforce_str Allowed = ''allowed''"
| "enforce_str Sent = ''sent''"
| "enforce_str Refused = ''refused''"

definition describe_expect :: "ExpectEvent \<Rightarrow> string" where
  "describe_expect x = x_kind x @ ''/'' @ x_action x @ ''/'' @ x_proto x"

definition case_result :: "FwCase \<Rightarrow> string \<Rightarrow> string \<Rightarrow> CaseResult" where
  "case_result c status detail =
     \<lparr>cr_id = fc_id c, cr_group = group_as_str (fc_group c), cr_bundle = bundle_name (fc_bundle c),
      cr_result = status, cr_enforce_expected = enforce_str (fc_expect_enforce c),
      cr_enforce_observed = [],
      cr_event_expected =
        (case fc_expect_event c of None \<Rightarrow> ''none'' | Some x \<Rightarrow> describe_expect x),
      cr_event_observed = [], cr_report_confirmed = None,
      cr_rule_id = Option.bind (fc_expect_event c) x_rule_id, cr_detail = detail\<rparr>"

section \<open>Flows and requests\<close>

fun endpoint :: "RunConfig \<Rightarrow> Side \<Rightarrow> Endpoint" where
  "endpoint cfg Peer = rc_peer cfg"
| "endpoint cfg Target = rc_target cfg"

text \<open>Source, destination and the address to send to, for traffic from \<open>origin\<close>.\<close>

fun flow :: "RunConfig \<Rightarrow> Side \<Rightarrow> string \<times> string \<times> ipaddr" where
  "flow cfg Peer =
     (show_ip (rc_peer_ip cfg), show_ip (rc_target_ip cfg), rc_target_ip cfg)"
| "flow cfg Target =
     (show_ip (rc_target_ip cfg), show_ip (rc_peer_ip cfg), rc_peer_ip cfg)"

definition build_cmd :: "FwCase \<Rightarrow> ipaddr \<Rightarrow> TrafficCmd" where
  "build_cmd c to =
     (let base =
        \<lparr>tc_proto = ''tcp'', tc_to = to, tc_dport = None, tc_dports = None, tc_sport = fc_sport c,
         tc_count = 1, tc_timeout_ms = 1500, tc_interval_ms = 0, tc_await_reply = False,
         tc_fin_only = False, tc_icmp_timestamp = False\<rparr>
      in case fc_traffic c of
           Tcp dport \<Rightarrow> base\<lparr>tc_dport := Some dport\<rparr>
         | Icmp \<Rightarrow> base\<lparr>tc_proto := ''icmp''\<rparr>
         | Udp dport await_reply \<Rightarrow>
             base\<lparr>tc_proto := ''udp'', tc_dport := Some dport, tc_await_reply := await_reply\<rparr>
         | TcpScan dports \<Rightarrow> base\<lparr>tc_dports := Some dports, tc_timeout_ms := 250\<rparr>
         | UdpScan dports \<Rightarrow>
             base\<lparr>tc_proto := ''udp'', tc_dports := Some dports, tc_timeout_ms := 250\<rparr>
         | TcpFinScan dports \<Rightarrow>
             base\<lparr>tc_dports := Some dports, tc_timeout_ms := 250, tc_fin_only := True\<rparr>
         | TcpBurst dport n \<Rightarrow>
             base\<lparr>tc_dport := Some dport, tc_count := n, tc_timeout_ms := 200\<rparr>
         | UdpVolume dport n \<Rightarrow>
             base\<lparr>tc_proto := ''udp'', tc_dport := Some dport, tc_count := n, tc_timeout_ms := 200\<rparr>)"

definition case_dport :: "FwCase \<Rightarrow> int option" where
  "case_dport c =
     (case fc_traffic c of
        Tcp dport \<Rightarrow> Some (uint dport)
      | Udp dport _ \<Rightarrow> Some (uint dport)
      | TcpBurst dport _ \<Rightarrow> Some (uint dport)
      | UdpVolume dport _ \<Rightarrow> Some (uint dport)
      | _ \<Rightarrow> None)"

definition event_matches :: "RunConfig \<Rightarrow> FwCase \<Rightarrow> FwEvent \<Rightarrow> ExpectEvent \<Rightarrow> bool" where
  "event_matches cfg c ev x =
     (if event_type ev \<noteq> x_kind x \<or> ev_action ev \<noteq> x_action x \<or> ev_proto ev \<noteq> x_proto x then False
      else
        (case flow cfg (fc_origin c) of (src, dst, _) \<Rightarrow>
           if x_kind x \<noteq> ''PolicyDeny'' \<and> src_ip ev \<noteq> src then False
           else if (case x_match_dport x of
                      None \<Rightarrow> False
                    | Some dport \<Rightarrow> dst_port ev \<noteq> uint dport \<or> dst_ip ev \<noteq> dst) then False
           else if (case x_detail x of None \<Rightarrow> False | Some want \<Rightarrow> ev_detail ev \<noteq> want) then False
           else True))"

section \<open>Confirmation of the upload\<close>

definition is_sent :: "string \<Rightarrow> FwEvent list res \<Rightarrow> bool" where
  "is_sent eid r =
     (case r of
        Inl _ \<Rightarrow> False
      | Inr events \<Rightarrow> list_ex (\<lambda>e. event_id e = eid \<and> report_state e = ''sent'') events)"

definition confirm_round ::
  "'j env \<Rightarrow> RunConfig \<Rightarrow> int \<Rightarrow> string \<Rightarrow> nat \<Rightarrow> nat \<Rightarrow> nat \<Rightarrow> (bool + nat) io" where
  "confirm_round E cfg since eid start deadline next_log =
     do {
       r \<leftarrow> dump_events E cfg since;
       if is_sent eid r then
         do {
           el \<leftarrow> elapsed E start;
           eprintln E (''fw-verify: report upload confirmed after '' @ dec el @ ''s (event_id='' @
             eid @ '')'');
           ret (Inl True)
         }
       else do {
         now \<leftarrow> instant_now E;
         if deadline \<le> now then
           do {
             eprintln E (''fw-verify: report upload confirmation timed out (event_id='' @ eid @ '')'');
             ret (Inl False)
           }
         else do {
           next_log \<leftarrow>
             (if next_log \<le> now then
                do {
                  el \<leftarrow> elapsed E start;
                  eprintln E (''fw-verify: still waiting for report upload confirmation (event_id='' @
                    eid @ '', elapsed='' @ dec el @ ''s)'');
                  ret (now + millis 5000)
                }
              else ret next_log);
           sleep E 700;
           ret (Inr next_log)
         }
       }
     }"

lemma paced_confirm_tail:
  "paced deadline (millis 700) (do {
     now \<leftarrow> instant_now E;
     if deadline \<le> now then do { stop now; ret (Inl r) }
     else do { x \<leftarrow> (note now :: 'a io); sleep E 700; ret (Inr x) }
   })"
  if "\<And>now. steady (stop now :: unit io)" and "\<And>now. steady (note now)"
  unfolding paced_def
proof (intro allI impI)
  fix w r' w'
  assume run: "run_state (do {
     now \<leftarrow> instant_now E;
     if deadline \<le> now then do { stop now; ret (Inl r) }
     else do { x \<leftarrow> note now; sleep E 700; ret (Inr x) }
   }) w = (r', w')"
  let ?w1 = "step E InstantNow w"
  obtain u w2 where s: "run_state (stop (clock w)) ?w1 = (u, w2)"
    by (cases "run_state (stop (clock w)) ?w1")
  obtain x w3 where n: "run_state (note (clock w)) ?w1 = (x, w3)"
    by (cases "run_state (note (clock w)) ?w1")
  have "later ?w1 w2" and "later ?w1 w3"
    using steadyD [OF that(1) s] steadyD [OF that(2) n] by simp_all
  with run s n show "later w w' \<and> (\<forall>s'. r' = Inr s' \<longrightarrow> clock w < deadline \<and> clock w + millis 700 \<le> clock w')"
    by (auto simp: run_io millis_def later_def prefix_def split: if_splits)
qed

lemma paced_confirm [paced_intros]:
  "paced deadline (millis 700) (confirm_round E cfg since eid start deadline next_log)"
  unfolding confirm_round_def
  by (intro paced_intros paced_confirm_tail later_intros)

function confirm_loop ::
  "'j env \<Rightarrow> RunConfig \<Rightarrow> int \<Rightarrow> string \<Rightarrow> nat \<Rightarrow> nat \<Rightarrow> nat \<Rightarrow> world \<Rightarrow> bool \<times> world" where
  "confirm_loop E cfg since eid start deadline next_log w =
     (case run_state (confirm_round E cfg since eid start deadline next_log) w of
        (Inl r, w') \<Rightarrow> (r, w')
      | (Inr next_log', w') \<Rightarrow> confirm_loop E cfg since eid start deadline next_log' w')"
  by pat_completeness auto
termination
  by (relation "measure (\<lambda>(E, cfg, since, eid, start, deadline, next_log, w). deadline - clock w)")
    (auto intro: paced_measure [OF sym paced_confirm] simp: millis_def)

declare confirm_loop.simps [simp del]

interpretation confirm_wait: deadline_loop
  "confirm_round E cfg since eid start deadline"
  "confirm_loop E cfg since eid start deadline" deadline "millis 700"
  for E cfg since eid start deadline
  by unfold_locales (rule paced_confirm, simp add: millis_def, rule confirm_loop.simps)

definition confirm_local_sent :: "'j env \<Rightarrow> RunConfig \<Rightarrow> int \<Rightarrow> string \<Rightarrow> bool io" where
  "confirm_local_sent E cfg since eid =
     do {
       eprintln E (''fw-verify: waiting for report upload confirmation (event_id='' @ eid @ '')'');
       start \<leftarrow> instant_now E;
       now \<leftarrow> instant_now E;
       let deadline = now + millis 8000;
       State (confirm_loop E cfg since eid start deadline (start + millis 5000))
     }"

definition confirm_server_log :: "'j env \<Rightarrow> RunConfig \<Rightarrow> string io" where
  "confirm_server_log E cfg =
     (if rc_mode cfg = Host then ret ''server-log:n/a-host''
      else do {
        r \<leftarrow> shell E (rc_target cfg) ''logcat -d -t 400'';
        ret (case r of
               Inr log \<Rightarrow>
                 if contains log ''received report'' then ''server-log:found''
                 else ''server-log:absent''
             | Inl _ \<Rightarrow> ''server-log:unavailable'')
      })"

definition confirm_vsoc :: "'j env \<Rightarrow> RunConfig \<Rightarrow> string io" where
  "confirm_vsoc E cfg =
     do {
       r \<leftarrow> events_mention E cfg (show_ip (rc_target_ip cfg));
       ret (case r of
              Inr True \<Rightarrow> ''vsoc:found''
            | Inr False \<Rightarrow> ''vsoc:absent''
            | Inl error \<Rightarrow> ''vsoc:error('' @ show_err error @ '')'')
     }"

section \<open>A single case\<close>

definition LISTEN_SECS :: u64 where "LISTEN_SECS = 12"

definition LISTEN_READY :: nat where "LISTEN_READY = 500"

definition case_line :: "string \<Rightarrow> string \<Rightarrow> string" where
  "case_line cid text = ''fw-verify: case '' @ cid @ '' '' @ text"

text \<open>Cleaning up: kill the background children, then stop listeners by name.\<close>

fun kill_all :: "'j env \<Rightarrow> nat list \<Rightarrow> unit io" where
  "kill_all E [] = ret ()"
| "kill_all E (child # children) = do { kill E child; kill_all E children }"

fun stop_all :: "'j env \<Rightarrow> RunConfig \<Rightarrow> Listen list \<Rightarrow> unit io" where
  "stop_all E cfg [] = ret ()"
| "stop_all E cfg (spec # specs) =
     do { stop_listeners E (endpoint cfg (l_side spec)); stop_all E cfg specs }"

definition finish_with ::
  "'j env \<Rightarrow> FwCase \<Rightarrow> string \<Rightarrow> string \<Rightarrow> CaseResult \<Rightarrow> nat list \<Rightarrow> RunConfig \<Rightarrow> CaseResult io" where
  "finish_with E c status detail res children cfg =
     do {
       kill_all E children;
       stop_all E cfg (fc_listen c);
       ret (res\<lparr>cr_result := status, cr_detail := detail\<rparr>)
     }"

definition finish ::
  "'j env \<Rightarrow> FwCase \<Rightarrow> string \<Rightarrow> string \<Rightarrow> nat list \<Rightarrow> RunConfig \<Rightarrow> CaseResult io" where
  "finish E c status detail children cfg =
     finish_with E c status detail (case_result c status detail) children cfg"

text \<open>The listeners that were started, or the first failure.\<close>

fun start_listeners ::
  "'j env \<Rightarrow> RunConfig \<Rightarrow> FwCase \<Rightarrow> Listen list \<Rightarrow> nat list \<Rightarrow> nat list res io" where
  "start_listeners E cfg c [] children = ret (Ok children)"
| "start_listeners E cfg c (spec # specs) children =
     do {
       eprintln E (case_line (fc_id c) (''starting '' @ l_proto spec @ '' listener on port '' @
         show_word (l_port spec)));
       r \<leftarrow> start_listener E (endpoint cfg (l_side spec)) (l_proto spec) (l_port spec) LISTEN_SECS;
       (case r of
          Inr child \<Rightarrow> start_listeners E cfg c specs (children @ [child])
        | Inl error \<Rightarrow> ret (Err error))
     }"

text \<open>
  What a case observes: the watermark, the outcome of the traffic and the events since the
  watermark; or the text of the failure.
\<close>

definition observe ::
  "'j env \<Rightarrow> RunConfig \<Rightarrow> FwCase \<Rightarrow> (string + int \<times> TrafficOutcome \<times> FwEvent list) io" where
  "observe E cfg c =
     (case flow cfg (fc_origin c) of (_, _, to) \<Rightarrow>
      do {
        eprintln E (case_line (fc_id c) ''reading event watermark'');
        wm \<leftarrow> target_now_ms E cfg;
        (case wm of
           Inl error \<Rightarrow> ret (Inl (''watermark failed: '' @ show_err error))
         | Inr since \<Rightarrow>
             do {
               let cmd = build_cmd c to;
               let uid = (if fc_uid c then Some (rc_app_uid cfg) else None);
               eprintln E (case_line (fc_id c) (''generating '' @ tc_proto cmd @ '' traffic toward '' @
                 show_ip to));
               tr \<leftarrow> traffic E (endpoint cfg (fc_origin c)) cmd uid;
               (case tr of
                  Inl error \<Rightarrow> ret (Inl (''traffic failed: '' @ show_err error))
                | Inr outcome \<Rightarrow>
                    do {
                      sleep E (rc_event_settle cfg);
                      eprintln E (case_line (fc_id c) ''reading firewall events'');
                      ev \<leftarrow> dump_events E cfg since;
                      (case ev of
                         Inr events \<Rightarrow> ret (Inr (since, outcome, events))
                       | Inl error \<Rightarrow>
                           do {
                             eprintln E (case_line (fc_id c) (''event query failed: '' @ show_err error));
                             ret (Inr (since, outcome, []))
                           })
                    })
             })
      })"

definition enforce_ok :: "Enforce \<Rightarrow> TrafficOutcome \<Rightarrow> bool" where
  "enforce_ok expected outcome =
     (case expected of
        Blocked \<Rightarrow> verdict outcome = ''blocked''
      | Allowed \<Rightarrow> verdict outcome = ''allowed''
      | Sent \<Rightarrow> verdict outcome = ''sent''
      | Refused \<Rightarrow> verdict outcome = ''refused'')"

text \<open>Detection: the verdict on the events, the matched event, the observed text and the details.\<close>

definition violates :: "RunConfig \<Rightarrow> FwCase \<Rightarrow> FwEvent \<Rightarrow> bool" where
  "violates cfg c ev =
     (case flow cfg (fc_origin c) of (src, _, _) \<Rightarrow>
        src_ip ev = src \<and> (case case_dport c of None \<Rightarrow> False | Some d \<Rightarrow> dst_port ev = d))"

definition rule_id_detail :: "ExpectEvent \<Rightarrow> FwEvent \<Rightarrow> string list" where
  "rule_id_detail x ev =
     (case (x_rule_id x, ev_rule_id ev) of
        (Some want, Some got) \<Rightarrow>
          if want \<noteq> got then [''rule_id expected '' @ dec_int want @ '' got '' @ dec_int got] else []
      | _ \<Rightarrow> [])"

definition judge_event ::
  "RunConfig \<Rightarrow> FwCase \<Rightarrow> FwEvent list \<Rightarrow> bool \<times> FwEvent option \<times> string \<times> string list" where
  "judge_event cfg c events =
     (case fc_expect_event c of
        Some x \<Rightarrow>
          (case find (\<lambda>ev. event_matches cfg c ev x) events of
             Some ev \<Rightarrow>
               (True, Some ev, event_type ev @ ''/'' @ ev_action ev @ ''/'' @ ev_proto ev,
                rule_id_detail x ev)
           | None \<Rightarrow> (False, None, ''none'', []))
      | None \<Rightarrow>
          (case find (violates cfg c) events of
             Some ev \<Rightarrow> (False, None, ''unexpected '' @ event_type ev @ ''/'' @ ev_action ev, [])
           | None \<Rightarrow> (True, None, ''none'', [])))"

definition confirm_report ::
  "'j env \<Rightarrow> RunConfig \<Rightarrow> int \<Rightarrow> FwEvent option \<Rightarrow> (bool option \<times> string list) io" where
  "confirm_report E cfg since matched =
     (case matched of
        None \<Rightarrow> ret (None, [])
      | Some ev \<Rightarrow>
          do {
            sent \<leftarrow> confirm_local_sent E cfg since (event_id ev);
            let detail = (if sent then [] else [''report not confirmed sent to idps-server'']);
            more \<leftarrow>
              (case rc_report_confirm cfg of
                 ConfirmLocal \<Rightarrow> ret []
               | ConfirmServer \<Rightarrow> do { s \<leftarrow> confirm_server_log E cfg; ret [s] }
               | ConfirmVsoc \<Rightarrow>
                   do { s \<leftarrow> confirm_server_log E cfg; v \<leftarrow> confirm_vsoc E cfg; ret [s, v] });
            ret (Some sent, detail @ more)
          })"

definition judge ::
  "'j env \<Rightarrow> RunConfig \<Rightarrow> FwCase \<Rightarrow> nat list \<Rightarrow> int \<Rightarrow> TrafficOutcome \<Rightarrow> FwEvent list \<Rightarrow> CaseResult io"
  where
  "judge E cfg c children since outcome events =
     (case judge_event cfg c events of (event_ok, matched, observed, detail) \<Rightarrow>
      do {
        (confirmed, detail') \<leftarrow> confirm_report E cfg since matched;
        let res = (case_result c ''PASS'' [])\<lparr>cr_enforce_observed := verdict outcome,
          cr_event_observed := observed, cr_report_confirmed := confirmed\<rparr>;
        let ok = enforce_ok (fc_expect_enforce c) outcome;
        let report_gate = (confirmed \<noteq> Some False);
        let pass = (ok \<and> event_ok \<and> report_gate);
        let status = (if pass then ''PASS'' else ''FAIL'');
        let why = (if pass then []
                   else (if ok then []
                         else [''enforce expected '' @ enforce_str (fc_expect_enforce c) @ '' got '' @
                               verdict outcome]) @
                        (if event_ok then [] else [''event expectation not met'']));
        finish_with E c status (join ''; '' (detail @ detail' @ why)) res children cfg
      })"

definition get_count :: "'j env \<Rightarrow> 'j \<Rightarrow> string \<Rightarrow> int" where
  "get_count E v k = opt_or 0 (j_field_i64 E v k)"

definition traffic_verdict ::
  "'j env \<Rightarrow> 'j \<Rightarrow> 'j \<Rightarrow> string \<Rightarrow> string \<Rightarrow> string \<Rightarrow> bool \<times> string" where
  "traffic_verdict E before after bytes windows short =
     (get_count E after bytes > get_count E before bytes \<and>
      get_count E after windows > get_count E before windows,
      bytes @ '' +'' @ dec_int (wrap_i64 (get_count E after bytes - get_count E before bytes)) @
      '', '' @ short @ '' +'' @
      dec_int (wrap_i64 (get_count E after windows - get_count E before windows)))"

definition run_traffic_case :: "'j env \<Rightarrow> RunConfig \<Rightarrow> FwCase \<Rightarrow> CaseResult io" where
  "run_traffic_case E cfg c =
     do {
       eprintln E (case_line (fc_id c) ''reading baseline statistics'');
       s1 \<leftarrow> statistics E cfg;
       (case s1 of
          Inl error \<Rightarrow> ret (case_result c ''FAIL'' (''stats failed: '' @ show_err error))
        | Inr before \<Rightarrow>
            (case flow cfg (fc_origin c) of (_, _, to) \<Rightarrow>
             do {
               let cmd = build_cmd c to;
               let uid = (if fc_uid c then Some (rc_app_uid cfg) else None);
               eprintln E (case_line (fc_id c) (''generating '' @ tc_proto cmd @ '' traffic toward '' @
                 show_ip to));
               tr \<leftarrow> traffic E (endpoint cfg (fc_origin c)) cmd uid;
               (case tr of
                  Inl error \<Rightarrow> ret (case_result c ''FAIL'' (''traffic failed: '' @ show_err error))
                | Inr _ \<Rightarrow>
                    do {
                      eprintln E (case_line (fc_id c) ''waiting 7s for traffic statistics window'');
                      sleep E 7000;
                      eprintln E (case_line (fc_id c) ''reading updated statistics'');
                      s2 \<leftarrow> statistics E cfg;
                      ret (case s2 of
                             Inl error \<Rightarrow>
                               case_result c ''FAIL'' (''stats failed: '' @ show_err error)
                           | Inr after \<Rightarrow>
                               (case (if fc_id c = ''traffic-per-app''
                                      then traffic_verdict E before after ''egress_bytes''
                                             ''app_traffic_windows'' ''app_windows''
                                      else traffic_verdict E before after ''ingress_bytes''
                                             ''global_traffic_windows'' ''global_windows'') of
                                  (ok, detail) \<Rightarrow>
                                    (case_result c ''PASS'' [])
                                      \<lparr>cr_enforce_observed := ''allowed'', cr_event_observed := detail,
                                       cr_result := (if ok then ''PASS'' else ''FAIL''),
                                       cr_detail := detail\<rparr>))
                    })
             }))
     }"

definition run_case :: "'j env \<Rightarrow> RunConfig \<Rightarrow> FwCase \<Rightarrow> CaseResult io" where
  "run_case E cfg c =
     (case fc_skip c of
        Some reason \<Rightarrow>
          do {
            eprintln E (case_line (fc_id c) (''skipped: '' @ reason));
            ret (case_result c ''SKIP'' reason)
          }
      | None \<Rightarrow>
          if fc_group c = G_Traffic then run_traffic_case E cfg c
          else do {
            ls \<leftarrow> start_listeners E cfg c (fc_listen c) [];
            (case ls of
               Inl error \<Rightarrow> ret (case_result c ''SKIP'' (''listener failed: '' @ show_err error))
             | Inr children \<Rightarrow>
                 do {
                   (if fc_listen c \<noteq> [] then sleep E LISTEN_READY else ret ());
                   ob \<leftarrow> observe E cfg c;
                   (case ob of
                      Inl text \<Rightarrow> finish E c ''FAIL'' text children cfg
                    | Inr (since, outcome, events) \<Rightarrow>
                        judge E cfg c children since outcome events)
                 })
          })"

section \<open>Bundles\<close>

definition provision_bundle :: "'j env \<Rightarrow> RunConfig \<Rightarrow> Bundle \<Rightarrow> unit res io" where
  "provision_bundle E cfg bundle =
     do {
       eprintln E (''fw-verify: provisioning bundle '' @ bundle_name bundle);
       and_then (provision_firewall E cfg (firewall_text bundle cfg)) (\<lambda>_.
       and_then (case traffic_cycle bundle of
                   None \<Rightarrow> ret (Ok ())
                 | Some cycle \<Rightarrow> provision_traffic_cycle E cfg cycle) (\<lambda>_.
       do {
         eprintln E (''fw-verify: bundle '' @ bundle_name bundle @ '' is ready'');
         ret (Ok ())
       }))
     }"

definition provision_error :: "FwCase \<Rightarrow> err \<Rightarrow> CaseResult" where
  "provision_error c error = case_result c ''FAIL'' (''provision failed: '' @ show_err error)"

text \<open>The members of a bundle, after the bundle could not be provisioned and after it could.\<close>

fun fail_members :: "'j env \<Rightarrow> err \<Rightarrow> FwCase list \<Rightarrow> CaseResult list io" where
  "fail_members E error [] = ret []"
| "fail_members E error (c # cs) =
     do {
       eprintln E (''fw-verify: case '' @ fc_id c @ '' -> FAIL'');
       rs \<leftarrow> fail_members E error cs;
       ret (provision_error c error # rs)
     }"

fun run_members ::
  "'j env \<Rightarrow> RunConfig \<Rightarrow> nat \<Rightarrow> nat \<Rightarrow> FwCase list \<Rightarrow> CaseResult list io" where
  "run_members E cfg tot completed [] = ret []"
| "run_members E cfg tot completed (c # cs) =
     do {
       eprintln E (''fw-verify: running case '' @ dec (completed + 1) @ ''/'' @ dec tot @ '': '' @ fc_id c);
       r \<leftarrow> run_case E cfg c;
       eprintln E (''fw-verify: case '' @ fc_id c @ '' -> '' @ cr_result r);
       rs \<leftarrow> run_members E cfg tot (completed + 1) cs;
       ret (r # rs)
     }"

definition bundle_members :: "(FwCase \<Rightarrow> bool) \<Rightarrow> Bundle \<Rightarrow> FwCase list" where
  "bundle_members keep bundle = filter (\<lambda>c. fc_bundle c = bundle \<and> keep c) all_cases"

definition run_bundle ::
  "'j env \<Rightarrow> RunConfig \<Rightarrow> (FwCase \<Rightarrow> bool) \<Rightarrow> nat \<Rightarrow> nat \<Rightarrow> Bundle \<Rightarrow> CaseResult list io" where
  "run_bundle E cfg keep tot completed bundle =
     (let members = bundle_members keep bundle in
      if members = [] then ret []
      else do {
        eprintln E (''fw-verify: bundle '' @ bundle_name bundle @ '' contains '' @
          dec (length members) @ '' selected cases'');
        p \<leftarrow> provision_bundle E cfg bundle;
        (case p of
           Inl error \<Rightarrow>
             do {
               eprintln E (''fw-verify: bundle '' @ bundle_name bundle @ '' provisioning failed: '' @
                 show_err error);
               fail_members E error members
             }
         | Inr _ \<Rightarrow> run_members E cfg tot completed members)
      })"

fun run_bundles ::
  "'j env \<Rightarrow> RunConfig \<Rightarrow> (FwCase \<Rightarrow> bool) \<Rightarrow> nat \<Rightarrow> nat \<Rightarrow> Bundle list \<Rightarrow> CaseResult list io" where
  "run_bundles E cfg keep tot completed [] = ret []"
| "run_bundles E cfg keep tot completed (b # bs) =
     do {
       rs \<leftarrow> run_bundle E cfg keep tot completed b;
       rest \<leftarrow> run_bundles E cfg keep tot (completed + length rs) bs;
       ret (rs @ rest)
     }"

definition run_filtered :: "'j env \<Rightarrow> RunConfig \<Rightarrow> (FwCase \<Rightarrow> bool) \<Rightarrow> CaseResult list io" where
  "run_filtered E cfg keep =
     do {
       write_traffic_rule E cfg 5;
       let tot = length (filter keep all_cases);
       eprintln E (''fw-verify: starting '' @ dec tot @ '' firewall cases'');
       run_bundles E cfg keep tot 0 bundle_order
     }"

section \<open>Runners of cases\<close>

text \<open>
  What a suite needs from the function that runs one case: it moves forward, and its result carries
  the id of the case and one of the three statuses. The batch runner of the monitors and the bundle
  runner rely on this contract only.
\<close>

definition statuses :: "string set" where
  "statuses = {''PASS'', ''FAIL'', ''SKIP''}"

locale case_runner =
  fixes run :: "'c \<Rightarrow> CaseResult io" and ident :: "'c \<Rightarrow> string"
  assumes run_steady: "steady (run c)"
    and run_result: "returns (run c) (\<lambda>r. cr_id r = ident c \<and> cr_result r \<in> statuses)"
begin

lemma batch:
  assumes "\<And>k. batch k [] = ret []"
    and "\<And>k c cs. batch k (c # cs) =
      do { before k c; r \<leftarrow> run c; after c r; rs \<leftarrow> batch (k + 1) cs; ret (r # rs) }"
  shows "returns (batch k cs)
     (\<lambda>rs. map cr_id rs = map ident cs \<and> (\<forall>r \<in> set rs. cr_result r \<in> statuses))"
proof (induction cs arbitrary: k)
  case (Cons c cs)
  show ?case
    unfolding assms(2)
    by (intro returns_bind_any returns_bind [OF run_result] returns_bind [OF Cons.IH])
      (auto intro!: returns_return)
qed (simp add: assms(1) returns_return)

end

section \<open>Lemmas\<close>

lemma steady_confirm [later_intros]:
  "steady (confirm_local_sent E cfg since eid)" "steady (confirm_server_log E cfg)"
  "steady (confirm_vsoc E cfg)" "steady (confirm_report E cfg since matched)"
proof -
  show l: "steady (confirm_local_sent E cfg since eid)" for eid
    unfolding confirm_local_sent_def Let_def
    by (intro later_intros confirm_wait.steady_loop)
  show s: "steady (confirm_server_log E cfg)"
    unfolding confirm_server_log_def by (intro later_intros)
  show v: "steady (confirm_vsoc E cfg)"
    unfolding confirm_vsoc_def by (intro later_intros)
  show "steady (confirm_report E cfg since matched)"
    unfolding confirm_report_def Let_def
    by (cases "rc_report_confirm cfg") (auto intro!: later_intros l s v)
qed

lemma steady_finish [later_intros]:
  "steady (kill_all E children)" "steady (stop_all E cfg specs)"
  "steady (finish_with E c status detail res children cfg)"
  "steady (finish E c status detail children cfg)"
proof -
  show k: "steady (kill_all E children)" for children
    by (induction children) (auto intro!: later_intros)
  show s: "steady (stop_all E cfg specs)" for specs
    by (induction specs) (auto intro!: later_intros)
  show f: "steady (finish_with E c status detail res children cfg)" for status detail res
    unfolding finish_with_def by (intro later_intros k s)
  show "steady (finish E c status detail children cfg)"
    unfolding finish_def by (rule f)
qed

lemma steady_observe [later_intros]: "steady (observe E cfg c)"
  unfolding observe_def Let_def by (intro later_intros)

lemma steady_judge [later_intros]: "steady (judge E cfg c children since outcome events)"
  unfolding judge_def Let_def by (intro later_intros)

lemma steady_start [later_intros]: "steady (start_listeners E cfg c specs children)"
  by (induction specs arbitrary: children) (auto intro!: later_intros)

lemma steady_run_case [later_intros]: "steady (run_case E cfg c)"
  unfolding run_case_def run_traffic_case_def Let_def by (intro later_intros)

lemma case_result_simps [simp]:
  "cr_id (case_result c st d) = fc_id c" "cr_result (case_result c st d) = st"
  "cr_detail (case_result c st d) = d" "cr_report_confirmed (case_result c st d) = None"
  by (simp_all add: case_result_def)

lemma returns_finish_with:
  "returns (finish_with E c st d res children cfg) (\<lambda>r. r = res\<lparr>cr_result := st, cr_detail := d\<rparr>)"
  unfolding finish_with_def by (intro returns_bind_any returns_return refl)

lemma returns_judge:
  "returns (judge E cfg c children since outcome events)
     (\<lambda>r. cr_id r = fc_id c \<and> cr_result r \<in> statuses)"
  unfolding judge_def Let_def
  by (intro returns_case_prod returns_bind_any)
    (rule returns_mono [OF returns_finish_with], auto simp: statuses_def)

lemma returns_traffic_case:
  "returns (run_traffic_case E cfg c) (\<lambda>r. cr_id r = fc_id c \<and> cr_result r \<in> statuses)"
  unfolding run_traffic_case_def Let_def
  by (intro returns_intros) (auto simp: statuses_def split: sum.split prod.split)

lemma returns_run_case:
  "returns (run_case E cfg c) (\<lambda>r. cr_id r = fc_id c \<and> cr_result r \<in> statuses)"
  unfolding run_case_def
  by (intro returns_intros returns_traffic_case returns_judge)
    (auto simp: statuses_def finish_def intro: returns_mono [OF returns_finish_with])

interpretation fw_cases: case_runner "run_case E cfg" fc_id for E cfg
  by unfold_locales (intro later_intros, rule returns_run_case)

definition lists_cases :: "FwCase list \<Rightarrow> CaseResult list \<Rightarrow> bool" where
  "lists_cases cs rs \<longleftrightarrow> map cr_id rs = map fc_id cs \<and> (\<forall>r \<in> set rs. cr_result r \<in> statuses)"

lemma returns_run_members: "returns (run_members E cfg tot k cs) (lists_cases cs)"
  unfolding lists_cases_def by (rule fw_cases.batch) simp_all

lemma returns_fail_members: "returns (fail_members E error cs) (lists_cases cs)"
proof (induction cs)
  case (Cons c cs)
  show ?case
    unfolding fail_members.simps
    by (intro returns_bind_any returns_bind [OF Cons.IH] returns_return)
      (auto simp: lists_cases_def provision_error_def statuses_def)
qed (simp add: returns_return lists_cases_def)

lemma returns_run_bundle:
  "returns (run_bundle E cfg keep tot k b) (lists_cases (bundle_members keep b))"
  unfolding run_bundle_def Let_def
  by (intro returns_intros returns_run_members returns_fail_members) (simp add: lists_cases_def)

lemma returns_run_bundles:
  "returns (run_bundles E cfg keep tot k bs) (lists_cases (concat (map (bundle_members keep) bs)))"
proof (induction bs arbitrary: k)
  case (Cons b bs)
  show ?case
    unfolding run_bundles.simps
    by (intro returns_bind [OF returns_run_bundle] returns_bind [OF Cons.IH] returns_return)
      (auto simp: lists_cases_def)
qed (simp add: returns_return lists_cases_def)

lemma returns_run_filtered:
  "returns (run_filtered E cfg keep) (lists_cases (concat (map (bundle_members keep) bundle_order)))"
  unfolding run_filtered_def Let_def
  by (intro returns_bind_any returns_run_bundles)

text \<open>Grouping a list by a key with distinct values only reorders it.\<close>

lemma mset_concat_filter:
  assumes "distinct ks" and "\<And>x. x \<in> set xs \<Longrightarrow> f x \<in> set ks"
  shows "mset (concat (map (\<lambda>k. filter (\<lambda>x. f x = k \<and> keep x) xs) ks)) = mset (filter keep xs)"
  using assms(2)
proof (induction xs)
  case (Cons x xs)
  have "mset (concat (map (\<lambda>k. filter (\<lambda>y. f y = k \<and> keep y) (x # xs)) ks)) =
      (if keep x then {#x#} else {#}) + mset (concat (map (\<lambda>k. filter (\<lambda>y. f y = k \<and> keep y) xs) ks))"
    if "distinct ks" "f x \<in> set ks" for ks
    using that
  proof (induction ks)
    case (Cons k ks)
    show ?case
    proof (cases "f x = k")
      case True
      with Cons.prems have "filter (\<lambda>y. f y = k' \<and> keep y) (x # xs) =
          filter (\<lambda>y. f y = k' \<and> keep y) xs" if "k' \<in> set ks" for k'
        using that by auto
      then have m: "map (\<lambda>k. filter (\<lambda>y. f y = k \<and> keep y) (x # xs)) ks =
          map (\<lambda>k. filter (\<lambda>y. f y = k \<and> keep y) xs) ks"
        by (rule map_cong [OF refl])
      show ?thesis
        by (simp only: list.map concat.simps m mset_append) (simp add: True)
    next
      case False
      with Cons show ?thesis by simp
    qed
  qed simp
  with Cons assms(1) show ?case by simp
qed (induction ks, simp_all)

lemma confirm_round_stop:
  assumes "run_state (confirm_round E cfg since eid start deadline nl) w = (Inl r, w')"
  shows "(\<exists>events w2. r \<and> run_state (dump_events E cfg since) w = (Ok events, w2) \<and> later w2 w' \<and>
      (\<exists>e \<in> set events. event_id e = eid \<and> report_state e = ''sent'')) \<or> \<not> r \<and> deadline \<le> clock w'"
proof -
  obtain d w2 where d: "run_state (dump_events E cfg since) w = (d, w2)"
    by (cases "run_state (dump_events E cfg since) w")
  show ?thesis
  proof (cases "is_sent eid d")
    case True
    then obtain events where "d = Ok events" "\<exists>e \<in> set events. event_id e = eid \<and> report_state e = ''sent''"
      by (auto simp: is_sent_def list_ex_iff split: sum.splits)
    moreover have "r" "later w2 w'"
      using assms d True
      by (auto simp: confirm_round_def elapsed_def run_io simp del: append.simps append_assoc
          intro!: later_step_trans)
    ultimately show ?thesis
      using d by blast
  next
    case False
    with assms d show ?thesis
      by (auto simp: confirm_round_def elapsed_def run_io split: if_splits)
  qed
qed

lemma confirm_local_sent_run:
  assumes "run_state (confirm_local_sent E cfg since eid) w = (r, w')"
  shows "(\<exists>events w1 w2. r \<and> later w w1 \<and> run_state (dump_events E cfg since) w1 = (Ok events, w2) \<and>
       later w2 w' \<and> (\<exists>e \<in> set events. event_id e = eid \<and> report_state e = ''sent'')) \<or>
     \<not> r \<and> clock w + millis 8000 \<le> clock w'"
proof -
  define m where "m = ''fw-verify: waiting for report upload confirmation (event_id='' @ eid @ '')''"
  define w0 where "w0 = step E InstantNow (step E InstantNow (step E (Eprintln m) w))"
  define dl where "dl = clock (step E InstantNow (step E (Eprintln m) w)) + millis 8000"
  obtain st nl where lp: "confirm_loop E cfg since eid st dl nl w0 = (r, w')"
    using assms
    by (simp add: confirm_local_sent_def run_io Let_def w0_def dl_def flip: m_def
        del: append.simps append_assoc)
  obtain s1 w1 where w1: "later w0 w1"
    and rd: "run_state (confirm_round E cfg since eid st dl s1) w1 = (Inl r, w')"
    using confirm_wait.last_round [of w0 E cfg since eid st dl nl] lp by auto
  have "later w w0"
    by (simp add: w0_def later_step_trans)
  then have "later w w1"
    using w1 by (rule later_trans)
  moreover have "clock w + millis 8000 \<le> dl"
    by (simp add: dl_def)
  ultimately show ?thesis
    using confirm_round_stop [OF rd] by (elim disjE) (blast, linarith)
qed

lemma judge_event_ok:
  "fst (judge_event cfg c events) \<longleftrightarrow>
     (case fc_expect_event c of
        Some x \<Rightarrow> \<exists>ev \<in> set events. event_matches cfg c ev x
      | None \<Rightarrow> \<not> (\<exists>ev \<in> set events. violates cfg c ev))"
  by (auto simp: judge_event_def find_None_iff find_Some_iff split: option.splits)

lemma judge_event_matched:
  "fst (snd (judge_event cfg c events)) = Some ev \<Longrightarrow>
   \<exists>x. fc_expect_event c = Some x \<and> ev \<in> set events \<and> event_matches cfg c ev x"
  by (auto simp: judge_event_def find_Some_iff split: option.splits)

lemma enforce_ok_str: "enforce_ok x outcome \<longleftrightarrow> verdict outcome = enforce_str x"
  by (cases x) (simp_all add: enforce_ok_def)

lemma confirm_report_first:
  "fst (fst (run_state (confirm_report E cfg since matched) w)) =
     (case matched of
        None \<Rightarrow> None
      | Some ev \<Rightarrow> Some (fst (run_state (confirm_local_sent E cfg since (event_id ev)) w)))"
  by (auto simp: confirm_report_def Let_def split: option.splits prod.splits ReportConfirm.splits)

lemma judge_result:
  assumes "run_state (judge E cfg c children since outcome events) w = (r, w')"
  shows "cr_result r = ''PASS'' \<longleftrightarrow>
      verdict outcome = enforce_str (fc_expect_enforce c) \<and> fst (judge_event cfg c events) \<and>
      (\<forall>ev. fst (snd (judge_event cfg c events)) = Some ev \<longrightarrow>
         fst (run_state (confirm_local_sent E cfg since (event_id ev)) w))"
    and "cr_result r = ''PASS'' \<or> cr_result r = ''FAIL''"
proof -
  obtain ok m obs det where je: "judge_event cfg c events = (ok, m, obs, det)"
    by (cases "judge_event cfg c events") auto
  obtain conf det' w1 where cr: "run_state (confirm_report E cfg since m) w = ((conf, det'), w1)"
    by (metis surj_pair)
  have conf: "conf = (case m of None \<Rightarrow> None
      | Some ev \<Rightarrow> Some (fst (run_state (confirm_local_sent E cfg since (event_id ev)) w)))"
    using confirm_report_first [of E cfg since m w] by (simp add: cr)
  have res: "cr_result r =
      (if enforce_ok (fc_expect_enforce c) outcome \<and> ok \<and> conf \<noteq> Some False then ''PASS'' else ''FAIL'')"
    using assms returns_finish_with
    by (auto simp: judge_def je cr Let_def dest!: returnsD [OF returns_finish_with])
  show "cr_result r = ''PASS'' \<or> cr_result r = ''FAIL''"
    using res by auto
  show "cr_result r = ''PASS'' \<longleftrightarrow>
      verdict outcome = enforce_str (fc_expect_enforce c) \<and> fst (judge_event cfg c events) \<and>
      (\<forall>ev. fst (snd (judge_event cfg c events)) = Some ev \<longrightarrow>
         fst (run_state (confirm_local_sent E cfg since (event_id ev)) w))"
    unfolding res enforce_ok_str by (auto simp: je conf split: option.splits)
qed

lemma run_case_judged:
  assumes "fc_skip c = None" and "fc_group c \<noteq> G_Traffic"
    and "run_state (run_case E cfg c) w = (r, w')" and "cr_result r = ''PASS''"
  shows "\<exists>w1 since outcome events w2 children. later w w1 \<and>
     run_state (observe E cfg c) w1 = (Inr (since, outcome, events), w2) \<and>
     run_state (judge E cfg c children since outcome events) w2 = (r, w')"
proof -
  obtain ls w0 where ls: "run_state (start_listeners E cfg c (fc_listen c) []) w = (ls, w0)"
    by (cases "run_state (start_listeners E cfg c (fc_listen c) []) w")
  then have "later w w0"
    by (rule steadyD [OF steady_start])
  define w1 where "w1 = (if fc_listen c \<noteq> [] then step E (Sleep LISTEN_READY) w0 else w0)"
  have l1: "later w w1"
    using \<open>later w w0\<close> by (simp add: w1_def later_step_trans)
  obtain ob w2 where ob: "run_state (observe E cfg c) w1 = (ob, w2)"
    by (cases "run_state (observe E cfg c) w1")
  obtain children where ch: "ls = Inr children"
    using assms ls by (cases ls) (auto simp: run_case_def)
  have body: "run_state (case ob of Inl text \<Rightarrow> finish E c ''FAIL'' text children cfg
      | Inr (since, outcome, events) \<Rightarrow> judge E cfg c children since outcome events) w2 = (r, w')"
    using assms(1-3) ls ch ob by (auto simp: run_case_def w1_def run_io split: if_splits)
  show ?thesis
  proof (cases ob)
    case (Inl t)
    with body assms(4) show ?thesis
      by (auto simp: finish_def dest!: returnsD [OF returns_finish_with])
  next
    case (Inr x)
    obtain since outcome events where x: "x = (since, outcome, events)"
      by (cases x) auto
    have "run_state (judge E cfg c children since outcome events) w2 = (r, w')"
      using body by (simp add: Inr x)
    with ob l1 show ?thesis
      unfolding Inr x by blast
  qed
qed

lemma run_case_reaches_judge:
  assumes "fc_skip c = None" and "fc_group c \<noteq> G_Traffic"
    and "run_state (start_listeners E cfg c (fc_listen c) []) w = (Ok children, w0)"
    and "w1 = (if fc_listen c \<noteq> [] then step E (Sleep LISTEN_READY) w0 else w0)"
    and "run_state (observe E cfg c) w1 = (Inr (since, outcome, events), w2)"
  shows "run_state (run_case E cfg c) w = run_state (judge E cfg c children since outcome events) w2"
  using assms by (auto simp: run_case_def run_io)

lemma kill_all_trace: "trace (snd (run_state (kill_all E cs) w)) = trace w @ map Kill cs"
  by (induction cs arbitrary: w) (simp_all add: kill_def)

text \<open>
  The end of a case in the trace: the children are killed in the order in which they were started,
  then for every listener of the case the stop command is started on the side of that listener.
\<close>

definition cleaned_up ::
  "RunConfig \<Rightarrow> Listen list \<Rightarrow> nat list \<Rightarrow> action list \<Rightarrow> bool" where
  "cleaned_up cfg specs children acts \<longleftrightarrow>
     (\<exists>pre sweeps. acts = pre @ map Kill children @ concat sweeps \<and>
        list_all2 (\<lambda>spec. list_ex (starts_on (endpoint cfg (l_side spec)) [''sh'', ''-c'', stop_cmd]))
          specs sweeps)"

lemma cleaned_up_append: "cleaned_up cfg specs cs acts \<Longrightarrow> cleaned_up cfg specs cs (pre @ acts)"
  unfolding cleaned_up_def by (metis append.assoc)

lemma cleaned_up_after:
  assumes "later w w1" and "\<exists>acts. trace w' = trace w1 @ acts \<and> cleaned_up cfg specs cs acts"
  shows "\<exists>acts. trace w' = trace w @ acts \<and> cleaned_up cfg specs cs acts"
  using assms by (fastforce simp: later_def prefix_def intro: cleaned_up_append)

lemma stop_all_sweeps:
  assumes "run_state (stop_all E cfg specs) w = (u, w')"
  shows "\<exists>sweeps. trace w' = trace w @ concat sweeps \<and>
    list_all2 (\<lambda>spec. list_ex (starts_on (endpoint cfg (l_side spec)) [''sh'', ''-c'', stop_cmd]))
      specs sweeps"
  using assms
proof (induction specs arbitrary: w)
  case (Cons spec specs)
  obtain r w1 where sh: "run_state (shell E (endpoint cfg (l_side spec)) stop_cmd) w = (r, w1)"
    by (cases "run_state (shell E (endpoint cfg (l_side spec)) stop_cmd) w")
  then obtain block where bl: "trace w1 = trace w @ block"
    "list_ex (starts_on (endpoint cfg (l_side spec)) [''sh'', ''-c'', stop_cmd]) block"
    using shell_starts by blast
  have "run_state (stop_all E cfg specs) w1 = (u, w')"
    using Cons.prems sh by (simp add: stop_listeners_def)
  from Cons.IH [OF this] obtain sweeps where "trace w' = trace w1 @ concat sweeps"
    "list_all2 (\<lambda>spec. list_ex (starts_on (endpoint cfg (l_side spec)) [''sh'', ''-c'', stop_cmd]))
      specs sweeps"
    by blast
  with bl show ?case
    by (intro exI [of _ "block # sweeps"]) simp
qed simp

lemma finish_with_cleans:
  assumes "run_state (finish_with E c st d res children cfg) w = (r, w')"
  shows "\<exists>acts. trace w' = trace w @ acts \<and> cleaned_up cfg (fc_listen c) children acts"
proof -
  obtain u w1 where k: "run_state (kill_all E children) w = (u, w1)"
    by (cases "run_state (kill_all E children) w")
  then have "trace w1 = trace w @ map Kill children"
    using kill_all_trace [of E children w] by simp
  moreover obtain v where "run_state (stop_all E cfg (fc_listen c)) w1 = (v, w')"
    using assms k by (auto simp: finish_with_def split: prod.splits)
  ultimately show ?thesis
    using stop_all_sweeps [of E cfg "fc_listen c" w1 v w'] unfolding cleaned_up_def
    by (metis append.assoc append_Nil)
qed

lemma judge_cleans:
  assumes "run_state (judge E cfg c children since outcome events) w = (r, w')"
  shows "\<exists>acts. trace w' = trace w @ acts \<and> cleaned_up cfg (fc_listen c) children acts"
proof -
  obtain w1 st d res where "later w w1"
    and "run_state (finish_with E c st d res children cfg) w1 = (r, w')"
    using assms by (auto simp: judge_def Let_def split: prod.splits dest: steadyD [OF steady_confirm(4)])
  then show ?thesis
    using finish_with_cleans by (meson cleaned_up_after)
qed

section \<open>Properties\<close>


text \<open>A TARGET whose outbound connects are dropped and whose daemon has reported it.\<close>

definition pass_event :: FwEvent where
  "pass_event =
     \<lparr>event_id = ''e1'', event_time_ms = 5, event_type = ''NetworkBlock'', ev_action = ''Block'',
      src_ip = ''10.123.0.1'', src_port = 40001, dst_ip = ''10.123.0.2'', dst_port = 6001,
      ev_proto = ''tcp'', ev_rule_id = Some 2, ev_detail = ''connection state invalid attack'',
      report_state = ''sent''\<rparr>"

definition pass_env :: "jv env" where
  "pass_env =
     demo_env
       \<lparr>os := demo_os\<lparr>ans_output := \<lambda>_ _. Inr \<lparr>status_code = Some 0, stdout = ''blocked'', stderr = []\<rparr>\<rparr>,
        json := demo_json\<lparr>de_events := \<lambda>_. Inr [pass_event]\<rparr>\<rparr>"

definition pass_case :: FwCase where
  "pass_case = egress_cases ! 0"

lemma pass_traffic:
  "\<exists>w'. run_state (traffic pass_env ep cmd uid) w = (Ok (demo_outcome ''blocked''), w')"
  by (cases ep)
    (simp_all add: traffic_def agent_json_def agent_argv_def current_exe_def run_program_def
      spawn_program_def spawn_via_ip_def run_io pass_env_def demo_defs parse_json_def trim_def
      trim_by_def is_ws_def)

lemma pass_events: "\<exists>w'. run_state (dump_events pass_env cfg since) w = (Ok [pass_event], w')"
  by (simp add: dump_events_def query_events_def open_db_def db_prepare_def run_io pass_env_def
      demo_defs)

lemma pass_listener: "\<exists>w'. run_state (start_listener pass_env ep proto port d) w = (Ok 7, w')"
  by (cases ep)
    (simp_all add: start_listener_def agent_spawn_def agent_argv_def current_exe_def
      spawn_program_def spawn_via_ip_def run_io pass_env_def demo_defs)

lemma pass_confirm: "fst (run_state (confirm_local_sent pass_env cfg since ''e1'') w)"
proof -
  have "fst (confirm_loop pass_env cfg since ''e1'' st dl nl w)" for st dl nl w
    using pass_events [of cfg since w]
    by (subst confirm_loop.simps)
      (auto simp: confirm_round_def is_sent_def pass_event_def elapsed_def run_io)
  then show ?thesis
    by (simp add: confirm_local_sent_def run_io Let_def)
qed

lemma observe_returns:
  assumes t: "\<And>cmd uid. returns (traffic E (endpoint cfg (fc_origin c)) cmd uid) (\<lambda>r. r = Ok out)"
    and e: "\<And>since. returns (dump_events E cfg since) (\<lambda>r. r = Ok evs)"
  shows "returns (observe E cfg c) (\<lambda>r. \<exists>since. r = Inr (since, out, evs))"
proof -
  have n: "returns (target_now_ms E cfg) (\<lambda>r. \<exists>s. r = Inr s)"
    unfolding target_now_ms_def by (rule returns_map_res) (simp add: returns_def)
  show ?thesis
    unfolding observe_def Let_def
    apply (rule returns_case_prod)+
    apply (rule returns_bind_any, rule returns_bind [OF n], erule exE, simp only: sum.case)
    apply (rule returns_bind_any, rule returns_bind [OF t], simp only: sum.case)
    apply (rule returns_bind_any, rule returns_bind_any, rule returns_bind [OF e], simp only: sum.case)
    apply (rule returns_return, blast)
    done
qed

lemma pass_observe:
  "\<exists>since w'. run_state (observe pass_env demo_cfg pass_case) w =
     (Inr (since, demo_outcome ''blocked'', [pass_event]), w')"
proof -
  have "returns (observe pass_env demo_cfg pass_case)
      (\<lambda>r. \<exists>since. r = Inr (since, demo_outcome ''blocked'', [pass_event]))"
  proof (rule observe_returns)
    show "returns (traffic pass_env ep cmd uid) (\<lambda>r. r = Ok (demo_outcome ''blocked''))" for ep cmd uid
      unfolding returns_def by (metis fst_conv pass_traffic)
    show "returns (dump_events pass_env demo_cfg since) (\<lambda>r. r = Ok [pass_event])" for since
      unfolding returns_def by (metis fst_conv pass_events)
  qed
  then show ?thesis
    unfolding returns_def by (metis prod.collapse)
qed

lemma pass_case_listen: "fc_listen pass_case = [\<lparr>l_side = Peer, l_proto = ''tcp'', l_port = 6001\<rparr>]"
  by (simp add: pass_case_def egress_cases_def listen_def)

lemma pass_start:
  "\<exists>w0. run_state (start_listeners pass_env cfg c [spec] []) w = (Ok [7], w0)"
proof -
  define w1 where "w1 = step pass_env (Eprintln (case_line (fc_id c) (''starting '' @ l_proto spec @
      '' listener on port '' @ show_word (l_port spec)))) w"
  obtain w0 where "run_state (start_listener pass_env (endpoint cfg (l_side spec)) (l_proto spec)
      (l_port spec) LISTEN_SECS) w1 = (Ok 7, w0)"
    using pass_listener by blast
  then show ?thesis
    by (simp add: eprintln_def w1_def)
qed

lemma pass_case_run:
  "cr_result (fst (run_state (run_case pass_env demo_cfg pass_case) demo_world)) = ''PASS''"
proof -
  obtain w0 where ls: "run_state (start_listeners pass_env demo_cfg pass_case (fc_listen pass_case) [])
      demo_world = (Ok [7], w0)"
    using pass_start unfolding pass_case_listen by blast
  obtain since w2 where ob: "run_state (observe pass_env demo_cfg pass_case)
      (step pass_env (Sleep LISTEN_READY) w0) = (Inr (since, demo_outcome ''blocked'', [pass_event]), w2)"
    using pass_observe by blast
  obtain r w' where jd: "run_state (judge pass_env demo_cfg pass_case [7] since (demo_outcome ''blocked'')
      [pass_event]) w2 = (r, w')"
    by (metis surj_pair)
  have "judge_event demo_cfg pass_case [pass_event] = (True, Some pass_event, ''NetworkBlock/Block/tcp'', [])"
    by (simp add: judge_event_def pass_case_def egress_cases_def event_d_def event_matches_def
        pass_event_def demo_cfg_def show_ipv4_def show_word_def rule_id_detail_def)
  moreover have "verdict (demo_outcome ''blocked'') = enforce_str (fc_expect_enforce pass_case)"
    by (simp add: demo_outcome_def pass_case_def egress_cases_def)
  moreover have "event_id pass_event = ''e1''"
    by (simp add: pass_event_def)
  ultimately have "cr_result r = ''PASS''"
    using judge_result(1) [OF jd] pass_confirm by auto
  moreover have "run_state (run_case pass_env demo_cfg pass_case) demo_world = (r, w')"
    using run_case_reaches_judge [OF _ _ ls refl, unfolded pass_case_listen, simplified, OF _ _ ob] jd
    by (simp add: pass_case_def egress_cases_def)
  ultimately show ?thesis by simp
qed


text \<open>
  C2. The judgement of a case is exact: with the observations given, the case passes if and only if
  the verdict is the expected one, the event expectation holds, and for a matched event the upload
  is confirmed; in every other case it fails. In particular a mismatch of the rule id alone does
  not fail a case.
\<close>

theorem judge_exact:
  assumes "run_state (judge E cfg c children since outcome events) w = (r, w')"
  shows "cr_result r =
     (if verdict outcome = enforce_str (fc_expect_enforce c) \<and>
         (case fc_expect_event c of
            None \<Rightarrow> \<not> (\<exists>ev \<in> set events. violates cfg c ev)
          | Some x \<Rightarrow> \<exists>ev. find (\<lambda>ev. event_matches cfg c ev x) events = Some ev \<and>
              fst (run_state (confirm_local_sent E cfg since (event_id ev)) w))
      then ''PASS'' else ''FAIL'')"
proof -
  have "(case fc_expect_event c of
            None \<Rightarrow> \<not> (\<exists>ev \<in> set events. violates cfg c ev)
          | Some x \<Rightarrow> \<exists>ev. find (\<lambda>ev. event_matches cfg c ev x) events = Some ev \<and>
              fst (run_state (confirm_local_sent E cfg since (event_id ev)) w)) \<longleftrightarrow>
      fst (judge_event cfg c events) \<and> (\<forall>ev. fst (snd (judge_event cfg c events)) = Some ev \<longrightarrow>
         fst (run_state (confirm_local_sent E cfg since (event_id ev)) w))"
  proof (cases "fc_expect_event c")
    case None
    then show ?thesis
      using judge_event_ok [of cfg c events] judge_event_matched [of cfg c events] by auto
  next
    case (Some x)
    then show ?thesis
      by (cases "find (\<lambda>ev. event_matches cfg c ev x) events") (simp_all add: judge_event_def)
  qed
  then show ?thesis
    using judge_result [OF assms] by auto
qed

theorem judge_exact_witness:
  "cr_result (fst (run_state (judge pass_env demo_cfg pass_case [7] 0 (demo_outcome ''allowed'')
     [pass_event]) demo_world)) = ''FAIL''"
  using judge_exact [of pass_env demo_cfg pass_case "[7]" 0 "demo_outcome ''allowed''" "[pass_event]"
      demo_world, OF prod.collapse [symmetric]]
  by (simp add: demo_outcome_def pass_case_def egress_cases_def)

text \<open>
  C6. The bundle runner reports every selected case exactly once, whatever the TARGET, the PEER and
  the daemon do: the ids come in provisioning order of the bundles, they are the selected catalog
  cases as a multiset, and every status is PASS, FAIL or SKIP.
\<close>

theorem run_filtered_complete:
  assumes "run_state (run_filtered E cfg keep) w = (rs, w')"
  shows "map cr_id rs = map fc_id (concat (map (bundle_members keep) bundle_order)) \<and>
     mset (map cr_id rs) = mset (map fc_id (filter keep all_cases)) \<and>
     (\<forall>r \<in> set rs. cr_result r \<in> {''PASS'', ''FAIL'', ''SKIP''})"
proof -
  have l: "lists_cases (concat (map (bundle_members keep) bundle_order)) rs"
    using returnsD [OF returns_run_filtered assms] .
  have "mset (concat (map (bundle_members keep) bundle_order)) = mset (filter keep all_cases)"
    unfolding bundle_members_def
    by (rule mset_concat_filter [OF bundle_order_distinct]) simp
  then have "mset (map fc_id (concat (map (bundle_members keep) bundle_order))) =
      mset (map fc_id (filter keep all_cases))"
    by (metis mset_map)
  with l show ?thesis
    by (simp add: lists_cases_def statuses_def)
qed

theorem run_filtered_complete_witness:
  "mset (map cr_id (fst (run_state (run_filtered demo_env demo_cfg (\<lambda>c. fc_group c = G_App)) demo_world))) =
   {#''app-policy-deny'', ''app-policy-allow''#}"
proof -
  have "map fc_id (filter (\<lambda>c. fc_group c = G_App) all_cases) = [''app-policy-deny'', ''app-policy-allow'']"
    by (simp add: all_cases_def case_lists)
  then show ?thesis
    using run_filtered_complete [of demo_env demo_cfg "\<lambda>c. fc_group c = G_App" demo_world,
        OF prod.collapse [symmetric], THEN conjunct2, THEN conjunct1]
    by simp
qed

text \<open>
  C7. A bundle that cannot be provisioned fails all its selected cases and runs none of them: no
  traffic is generated under the rules of another bundle.
\<close>

theorem unprovisioned_bundle_fails:
  assumes "bundle_members keep b \<noteq> []"
    and "run_state (provision_bundle E cfg b) (step E (Eprintln (''fw-verify: bundle '' @ bundle_name b @
      '' contains '' @ dec (length (bundle_members keep b)) @ '' selected cases'')) w) = (Err e, w1)"
    and "run_state (run_bundle E cfg keep tot k b) w = (rs, w')"
  shows "rs = map (\<lambda>c. provision_error c e) (bundle_members keep b) \<and>
     (\<forall>r \<in> set rs. cr_result r = ''FAIL'') \<and>
     (\<exists>lines. trace w' = trace w1 @ map Eprintln lines)"
proof -
  have fm: "fst (run_state (fail_members E e cs) v) = map (\<lambda>c. provision_error c e) cs \<and>
      (\<exists>lines. trace (snd (run_state (fail_members E e cs) v)) = trace v @ map Eprintln lines)" for cs v
  proof (induction cs arbitrary: v)
    case (Cons c cs)
    define m where "m = ''fw-verify: case '' @ fc_id c @ '' -> FAIL''"
    obtain lines where l: "trace (snd (run_state (fail_members E e cs) (step E (Eprintln m) v))) =
        (trace v @ [Eprintln m]) @ map Eprintln lines"
      using Cons.IH [of "step E (Eprintln m) v"] by auto
    have "run_state (fail_members E e (c # cs)) v =
        (provision_error c e # fst (run_state (fail_members E e cs) (step E (Eprintln m) v)),
         snd (run_state (fail_members E e cs) (step E (Eprintln m) v)))"
      unfolding fail_members.simps m_def [symmetric] by (simp add: eprintln_def split: prod.splits)
    with l Cons.IH [of "step E (Eprintln m) v"] show ?case
      by (auto intro!: exI [of _ "m # lines"])
  qed (auto intro: exI [of _ "[]"])
  define m1 where "m1 = ''fw-verify: bundle '' @ bundle_name b @ '' contains '' @
      dec (length (bundle_members keep b)) @ '' selected cases''"
  define m where "m = ''fw-verify: bundle '' @ bundle_name b @ '' provisioning failed: '' @ show_err e"
  have "run_state (run_bundle E cfg keep tot k b) w =
      run_state (fail_members E e (bundle_members keep b)) (step E (Eprintln m) w1)"
    using assms(1) assms(2) [folded m1_def]
    unfolding run_bundle_def Let_def m1_def [symmetric]
    by (simp add: eprintln_def m_def)
  with assms(3) fm [of "bundle_members keep b" "step E (Eprintln m) w1"]
  obtain lines where "rs = map (\<lambda>c. provision_error c e) (bundle_members keep b)"
    "trace w' = (trace w1 @ [Eprintln m]) @ map Eprintln lines"
    by auto
  then show ?thesis
    by (auto simp: provision_error_def intro!: exI [of _ "m # lines"])
qed

definition fail_env :: "jv env" where
  "fail_env = demo_env\<lparr>idps := demo_idps\<lparr>idps_config := \<lambda>_ _. Inl [''no config'']\<rparr>\<rparr>"

lemma returns_and_then_err:
  "returns m (\<lambda>r. \<not> is_ok r) \<Longrightarrow> returns (and_then m f) (\<lambda>r. \<not> is_ok r)"
  unfolding and_then_def
  by (rule returns_bind, assumption) (auto intro: returns_return split: sum.splits)

lemma fail_provision: "\<exists>e w'. run_state (provision_bundle fail_env demo_cfg b) w = (Err e, w')"
proof -
  have mode: "rc_mode demo_cfg = Android"
    by (simp add: demo_cfg_def)
  have "returns (write_depot_rule fail_env demo_cfg f v t) (\<lambda>r. \<not> is_ok r)" for f v t
    by (simp add: returns_def write_depot_rule_def provision_rule_def run_io fail_env_def)
  then have "returns (provision_firewall fail_env demo_cfg t) (\<lambda>r. \<not> is_ok r)" for t
    unfolding provision_firewall_def mode Mode.case provision_firewall_android_def Let_def
    by (intro returns_bind_any returns_and_then_err)
  then have "returns (provision_bundle fail_env demo_cfg b) (\<lambda>r. \<not> is_ok r)"
    unfolding provision_bundle_def by (intro returns_bind_any returns_and_then_err)
  then show ?thesis
    unfolding returns_def is_ok_def by (metis (no_types, lifting) old.sum.exhaust prod.collapse sum.simps(6))
qed

theorem unprovisioned_bundle_fails_witness:
  "list_all (\<lambda>r. cr_result r = ''FAIL'')
     (fst (run_state (run_bundle fail_env demo_cfg (\<lambda>_. True) 30 0 AppDeny) demo_world))"
proof -
  obtain rs w' where r: "run_state (run_bundle fail_env demo_cfg (\<lambda>_. True) 30 0 AppDeny) demo_world = (rs, w')"
    by (metis surj_pair)
  have "bundle_members (\<lambda>_. True) AppDeny \<noteq> []"
    by (simp add: bundle_members_def all_cases_def case_lists)
  from unprovisioned_bundle_fails [OF this _ r] fail_provision show ?thesis
    unfolding list_all_iff by (metis fst_conv r)
qed

text \<open>
  C8. No listener outlives its case: however a case ends once its listeners are started, whether the
  watermark or the traffic fails or the case is judged, what it does after the start ends with a kill
  of every started listener, in their order, followed by the sweep: for every listener of the case,
  in order, the stop command (\<open>pkill\<close> on the listener's command line) is started on the side that
  listener runs on, inside the namespace when that is the PEER.
\<close>

theorem run_case_kills_listeners:
  assumes "fc_skip c = None" and "fc_group c \<noteq> G_Traffic"
    and "run_state (start_listeners E cfg c (fc_listen c) []) w = (Ok children, w0)"
    and "run_state (run_case E cfg c) w = (r, w')"
  shows "\<exists>before sweeps. trace w' = trace w0 @ before @ map Kill children @ concat sweeps \<and>
     list_all2 (\<lambda>spec sweep. list_ex
         (starts_on (endpoint cfg (l_side spec)) [''sh'', ''-c'', stop_cmd]) sweep) (fc_listen c) sweeps"
proof -
  define w1 where "w1 = (if fc_listen c \<noteq> [] then step E (Sleep LISTEN_READY) w0 else w0)"
  obtain ob w2 where ob: "run_state (observe E cfg c) w1 = (ob, w2)"
    by (cases "run_state (observe E cfg c) w1")
  have "later w0 w1"
    by (simp add: w1_def)
  also have "later w1 w2"
    using steady_observe ob by (rule steadyD)
  finally have "later w0 w2" .
  moreover have "run_state (case ob of Inl text \<Rightarrow> finish E c ''FAIL'' text children cfg
      | Inr (since, outcome, events) \<Rightarrow> judge E cfg c children since outcome events) w2 = (r, w')"
    using assms ob by (auto simp: run_case_def w1_def run_io split: if_splits)
  then have "\<exists>acts. trace w' = trace w2 @ acts \<and> cleaned_up cfg (fc_listen c) children acts"
    by (cases ob) (auto simp: finish_def dest!: finish_with_cleans judge_cleans)
  ultimately have "\<exists>acts. trace w' = trace w0 @ acts \<and> cleaned_up cfg (fc_listen c) children acts"
    by (rule cleaned_up_after)
  then show ?thesis
    unfolding cleaned_up_def by auto
qed

theorem run_case_kills_listeners_witness:
  "\<exists>acts sweep. trace (snd (run_state (run_case pass_env demo_cfg pass_case) demo_world)) =
     acts @ Kill 7 # sweep \<and>
     list_ex (starts_on (endpoint demo_cfg Peer) [''sh'', ''-c'', stop_cmd]) sweep"
proof -
  obtain w0 where ls: "run_state (start_listeners pass_env demo_cfg pass_case (fc_listen pass_case) [])
      demo_world = (Ok [7], w0)"
    using pass_start unfolding pass_case_listen by blast
  obtain r w' where r: "run_state (run_case pass_env demo_cfg pass_case) demo_world = (r, w')"
    by (metis surj_pair)
  have "fc_skip pass_case = None" "fc_group pass_case \<noteq> G_Traffic"
    by (simp_all add: pass_case_def egress_cases_def)
  from run_case_kills_listeners [OF this ls r] r show ?thesis
    unfolding pass_case_listen by (auto simp: list_all2_Cons1) (metis append.assoc)
qed

text \<open>
  C40. Detection is not checked for a case that expects no event and whose traffic has no single
  destination port: every list of events is accepted, so the below-threshold scan and the ICMP
  matching case can never fail on an unexpected event.
\<close>

theorem negative_check_vacuous:
  assumes "fc_expect_event c = None" and "case_dport c = None"
  shows "fst (judge_event cfg c events)"
  using assms by (simp add: judge_event_ok violates_def split: prod.splits)

theorem negative_check_vacuous_witness:
  "list_all (\<lambda>c. fst (judge_event demo_cfg c [pass_event]))
     (filter (\<lambda>c. fc_id c = ''detect-below-threshold'' \<or> fc_id c = ''match-proto-icmp'') all_cases) \<and>
   length (filter (\<lambda>c. fc_id c = ''detect-below-threshold'' \<or> fc_id c = ''match-proto-icmp'') all_cases) = 2"
proof -
  define cs where "cs = filter (\<lambda>c. fc_id c = ''detect-below-threshold'' \<or> fc_id c = ''match-proto-icmp'') all_cases"
  have "list_all (\<lambda>c. fc_expect_event c = None \<and> case_dport c = None) cs \<and> length cs = 2"
    by (simp add: cs_def all_cases_def case_lists case_dport_def event_def event_d_def)
  then show ?thesis
    unfolding cs_def [symmetric] using negative_check_vacuous by (auto simp: list_all_iff)
qed

end
