(* ===== verification/Monitor.thy ===== *)
theory Monitor
  imports Verify
begin

text \<open>
  The side-channel monitor cases of \<open>monitor.rs\<close>: features the daemon reports outside the per-packet
  event path. They run under an allow-all rule that is provisioned once, and each drives its own
  stimulus (an ICMP timestamp probe, a held connection flood, gratuitous ARP replies, or nothing)
  and looks for the report that must follow.
\<close>

section \<open>The monitor catalog\<close>

definition MONITOR_SETTLE :: nat where "MONITOR_SETTLE = 13000"

definition HOLD_SECS :: nat where "HOLD_SECS = 22"

definition CONN_FLOOD_COUNT :: u32 where "CONN_FLOOD_COUNT = 60"

definition FLOOD_PORT :: u16 where "FLOOD_PORT = 7400"

definition ARP_CLAIM_IP :: string where "ARP_CLAIM_IP = ''10.123.0.250''"

datatype MonitorKind = M_IcmpTimestamp | M_ConnPerIp | M_ConnTotal | M_ArpSpoof

record MonitorCase =
  mc_id :: string
  mc_kind :: MonitorKind
  mc_notes :: string

definition monitor_cases :: "MonitorCase list" where
  "monitor_cases =
     [\<lparr>mc_id = ''monitor-icmp-timestamp'', mc_kind = M_IcmpTimestamp,
       mc_notes = ''ICMP timestamp request (type 13) -> IcmpTimestampProbe event (232)''\<rparr>,
      \<lparr>mc_id = ''monitor-conn-total'', mc_kind = M_ConnTotal,
       mc_notes = ''always-on total established-TCP monitor emits a sample (102)''\<rparr>,
      \<lparr>mc_id = ''monitor-conn-perip'', mc_kind = M_ConnPerIp,
       mc_notes = ''many held target->peer connections push the peer IP past the threshold (231)''\<rparr>,
      \<lparr>mc_id = ''monitor-arp-spoof'', mc_kind = M_ArpSpoof,
       mc_notes = ''gratuitous ARP replies for a spoofed IP -> ArpSpoof event (303)''\<rparr>]"

definition monitor_case_by_id :: "string \<Rightarrow> MonitorCase option" where
  "monitor_case_by_id cid = find (\<lambda>c. mc_id c = cid) monitor_cases"

fun monitor_expect_label :: "MonitorKind \<Rightarrow> string" where
  "monitor_expect_label M_IcmpTimestamp = ''IcmpTimestampProbe''"
| "monitor_expect_label M_ConnPerIp = ''tcp_conn_per_ip''"
| "monitor_expect_label M_ConnTotal = ''tcp_conn_total''"
| "monitor_expect_label M_ArpSpoof = ''arp_spoof''"

definition monitor_result :: "MonitorCase \<Rightarrow> string \<Rightarrow> string \<Rightarrow> string \<Rightarrow> CaseResult" where
  "monitor_result c status observed detail =
     \<lparr>cr_id = mc_id c, cr_group = ''monitor'', cr_bundle = ''monitor'', cr_result = status,
      cr_enforce_expected = ''report'', cr_enforce_observed = observed,
      cr_event_expected = monitor_expect_label (mc_kind c), cr_event_observed = observed,
      cr_report_confirmed = None, cr_rule_id = None, cr_detail = detail\<rparr>"

definition monitor_line :: "MonitorCase \<Rightarrow> string \<Rightarrow> string" where
  "monitor_line c text = ''fw-verify: monitor case '' @ mc_id c @ '' '' @ text"

section \<open>Watermark and evidence\<close>

text \<open>Every monitor case starts with a watermark; without one it fails.\<close>

definition with_watermark ::
  "'j env \<Rightarrow> RunConfig \<Rightarrow> MonitorCase \<Rightarrow> (int \<Rightarrow> CaseResult io) \<Rightarrow> CaseResult io" where
  "with_watermark E cfg c body =
     do {
       eprintln E (monitor_line c ''reading watermark'');
       wm \<leftarrow> target_now_ms E cfg;
       (case wm of
          Inr since \<Rightarrow> body since
        | Inl error \<Rightarrow> ret (monitor_result c ''FAIL'' ''none'' (''watermark failed: '' @ show_err error)))
     }"

definition events_or_none :: "'j env \<Rightarrow> RunConfig \<Rightarrow> MonitorCase \<Rightarrow> int \<Rightarrow> FwEvent list io" where
  "events_or_none E cfg c since =
     do {
       r \<leftarrow> dump_events E cfg since;
       (case r of
          Inr events \<Rightarrow> ret events
        | Inl error \<Rightarrow>
            do {
              eprintln E (''fw-verify: case '' @ mc_id c @ '' event query failed: '' @ show_err error);
              ret []
            })
     }"

definition reports_or_none ::
  "'j env \<Rightarrow> RunConfig \<Rightarrow> MonitorCase \<Rightarrow> int \<Rightarrow> 'j FwReport list io" where
  "reports_or_none E cfg c since =
     do {
       r \<leftarrow> dump_reports E cfg since;
       (case r of
          Inr reports \<Rightarrow> ret reports
        | Inl error \<Rightarrow>
            do {
              eprintln E (''fw-verify: case '' @ mc_id c @ '' report query failed: '' @ show_err error);
              ret []
            })
     }"

definition settle :: "'j env \<Rightarrow> MonitorCase \<Rightarrow> string \<Rightarrow> unit io" where
  "settle E c what =
     do {
       eprintln E (monitor_line c (''waiting '' @ dec (MONITOR_SETTLE div 1000) @ ''s for '' @ what));
       sleep E MONITOR_SETTLE
     }"

text \<open>The evidence each monitor looks for.\<close>

definition is_timestamp_probe :: "RunConfig \<Rightarrow> FwEvent \<Rightarrow> bool" where
  "is_timestamp_probe cfg e \<longleftrightarrow>
     event_type e = ''IcmpTimestampProbe'' \<and> src_ip e = show_ip (rc_peer_ip cfg)"

definition is_breach_entry :: "'j env \<Rightarrow> string \<Rightarrow> 'j \<Rightarrow> bool" where
  "is_breach_entry E peer entry \<longleftrightarrow>
     Option.bind (j_get (json E) entry ''ip'') (j_as_str (json E)) = Some peer \<and>
     50 \<le> opt_or 0 (j_field_u64 E entry ''count'')"

definition is_breach :: "'j env \<Rightarrow> string \<Rightarrow> 'j FwReport \<Rightarrow> bool" where
  "is_breach E peer r \<longleftrightarrow>
     report_type r = ''tcp_conn_per_ip'' \<and>
     (case Option.bind (j_get (json E) (payload r) ''ips'') (j_as_array (json E)) of
        None \<Rightarrow> False
      | Some ips \<Rightarrow> list_ex (is_breach_entry E peer) ips)"

definition is_arp_spoof :: "'j env \<Rightarrow> 'j FwReport \<Rightarrow> bool" where
  "is_arp_spoof E r \<longleftrightarrow>
     report_type r = ''arp_spoof'' \<and>
     Option.bind (j_get (json E) (payload r) ''sip'') (j_as_str (json E)) = Some ARP_CLAIM_IP"

section \<open>The four cases\<close>

definition timestamp_cmd :: "RunConfig \<Rightarrow> TrafficCmd" where
  "timestamp_cmd cfg =
     \<lparr>tc_proto = ''icmp'', tc_to = rc_target_ip cfg, tc_dport = None, tc_dports = None,
      tc_sport = None, tc_count = 1, tc_timeout_ms = 500, tc_interval_ms = 0,
      tc_await_reply = False, tc_fin_only = False, tc_icmp_timestamp = True\<rparr>"

definition run_icmp_timestamp :: "'j env \<Rightarrow> RunConfig \<Rightarrow> MonitorCase \<Rightarrow> CaseResult io" where
  "run_icmp_timestamp E cfg c =
     with_watermark E cfg c (\<lambda>since.
     do {
       tr \<leftarrow> traffic E (rc_peer cfg) (timestamp_cmd cfg) None;
       (case tr of
          Inl error \<Rightarrow> ret (monitor_result c ''FAIL'' ''none'' (''probe failed: '' @ show_err error))
        | Inr _ \<Rightarrow>
            do {
              eprintln E (monitor_line c (''waiting '' @ dec (rc_event_settle cfg) @ ''ms for event settle''));
              sleep E (rc_event_settle cfg);
              events \<leftarrow> events_or_none E cfg c since;
              ret (if list_ex (is_timestamp_probe cfg) events
                   then monitor_result c ''PASS'' ''IcmpTimestampProbe'' []
                   else monitor_result c ''FAIL'' ''none'' ''no IcmpTimestampProbe event recorded'')
            })
     })"

definition held_listener_argv :: "string list" where
  "held_listener_argv =
     [''listen'', ''tcp'', ''--port'', show_word FLOOD_PORT, ''--duration-secs'', dec (HOLD_SECS + 6),
      ''--hold'']"

definition flood_argv :: "RunConfig \<Rightarrow> string list" where
  "flood_argv cfg =
     [''conn-flood'', ''--to'', show_ip (rc_peer_ip cfg), ''--dport'', show_word FLOOD_PORT,
      ''--count'', show_word CONN_FLOOD_COUNT, ''--hold-secs'', dec HOLD_SECS]"

definition run_conn_perip :: "'j env \<Rightarrow> RunConfig \<Rightarrow> MonitorCase \<Rightarrow> CaseResult io" where
  "run_conn_perip E cfg c =
     with_watermark E cfg c (\<lambda>since.
     do {
       eprintln E (monitor_line c (''starting held listener on port '' @ show_word FLOOD_PORT));
       l \<leftarrow> agent_spawn E (rc_peer cfg) held_listener_argv;
       (case l of
          Inl error \<Rightarrow> ret (monitor_result c ''FAIL'' ''none'' (''listener failed: '' @ show_err error))
        | Inr listener \<Rightarrow>
            do {
              sleep E 500;
              eprintln E (monitor_line c (''opening '' @ show_word CONN_FLOOD_COUNT @
                '' held TCP connections''));
              f \<leftarrow> agent_spawn E (rc_target cfg) (flood_argv cfg);
              (case f of
                 Inl error \<Rightarrow>
                   do {
                     kill E listener;
                     ret (monitor_result c ''FAIL'' ''none'' (''conn-flood failed: '' @ show_err error))
                   }
               | Inr flood \<Rightarrow>
                   do {
                     settle E c ''connection monitor sample'';
                     reports \<leftarrow> reports_or_none E cfg c since;
                     kill E flood;
                     kill E listener;
                     let peer = show_ip (rc_peer_ip cfg);
                     ret (if list_ex (is_breach E peer) reports
                          then monitor_result c ''PASS'' ''tcp_conn_per_ip'' (peer @ '' >= 50 conns'')
                          else monitor_result c ''FAIL'' ''none''
                                 ''no tcp_conn_per_ip breach for the peer IP'')
                   })
            })
     })"

definition run_conn_total :: "'j env \<Rightarrow> RunConfig \<Rightarrow> MonitorCase \<Rightarrow> CaseResult io" where
  "run_conn_total E cfg c =
     with_watermark E cfg c (\<lambda>since.
     do {
       settle E c ''total-connection monitor sample'';
       reports \<leftarrow> reports_or_none E cfg c since;
       ret (case find (\<lambda>r. report_type r = ''tcp_conn_total'') reports of
              Some report \<Rightarrow>
                monitor_result c ''PASS'' ''tcp_conn_total''
                  (''total='' @ dec (opt_or 0 (j_field_u64 E (payload report) ''total'')))
            | None \<Rightarrow> monitor_result c ''FAIL'' ''none'' ''no tcp_conn_total sample emitted'')
     })"

definition arp_argv :: "RunConfig \<Rightarrow> string list" where
  "arp_argv cfg =
     [''arp-spoof'', ''--iface'', rc_peer_iface cfg, ''--claim-ip'', ARP_CLAIM_IP, ''--count'', ''6'']"

definition run_arp_spoof :: "'j env \<Rightarrow> RunConfig \<Rightarrow> MonitorCase \<Rightarrow> CaseResult io" where
  "run_arp_spoof E cfg c =
     with_watermark E cfg c (\<lambda>since.
     do {
       arp \<leftarrow> agent_json E (rc_peer cfg) (arp_argv cfg);
       (case arp of
          Inl error \<Rightarrow> ret (monitor_result c ''FAIL'' ''none'' (''arp-spoof failed: '' @ show_err error))
        | Inr _ \<Rightarrow>
            do {
              settle E c ''ARP monitor sample'';
              reports \<leftarrow> reports_or_none E cfg c since;
              ret (if list_ex (is_arp_spoof E) reports
                   then monitor_result c ''PASS'' ''arp_spoof'' (''sip='' @ ARP_CLAIM_IP)
                   else monitor_result c ''FAIL'' ''none'' ''no arp_spoof event for the claimed IP'')
            })
     })"

definition run_monitor :: "'j env \<Rightarrow> RunConfig \<Rightarrow> MonitorCase \<Rightarrow> CaseResult io" where
  "run_monitor E cfg c =
     (case mc_kind c of
        M_IcmpTimestamp \<Rightarrow> run_icmp_timestamp E cfg c
      | M_ConnPerIp \<Rightarrow> run_conn_perip E cfg c
      | M_ConnTotal \<Rightarrow> run_conn_total E cfg c
      | M_ArpSpoof \<Rightarrow> run_arp_spoof E cfg c)"

section \<open>Running the monitors\<close>

fun monitor_batch ::
  "'j env \<Rightarrow> RunConfig \<Rightarrow> nat \<Rightarrow> nat \<Rightarrow> MonitorCase list \<Rightarrow> CaseResult list io" where
  "monitor_batch E cfg tot index [] = ret []"
| "monitor_batch E cfg tot index (c # cs) =
     do {
       eprintln E (''fw-verify: running monitor case '' @ dec (index + 1) @ ''/'' @ dec tot @ '': '' @
         mc_id c);
       r \<leftarrow> run_monitor E cfg c;
       eprintln E (''fw-verify: monitor case '' @ mc_id c @ '' -> '' @ cr_result r);
       rs \<leftarrow> monitor_batch E cfg tot (index + 1) cs;
       ret (r # rs)
     }"

definition allow_all :: string where
  "allow_all = ''chain=localin,action=P\<newline>''"

definition run_monitor_filtered ::
  "'j env \<Rightarrow> RunConfig \<Rightarrow> (MonitorCase \<Rightarrow> bool) \<Rightarrow> CaseResult list io" where
  "run_monitor_filtered E cfg keep =
     (let cases = filter keep monitor_cases in
      if cases = [] then ret []
      else do {
        eprintln E (''fw-verify: provisioning monitor allow-all baseline ('' @ dec (length cases) @
          '' cases)'');
        write_traffic_rule E cfg 5;
        p \<leftarrow> provision_firewall E cfg allow_all;
        (case p of
           Inl error \<Rightarrow>
             ret (map (\<lambda>c. monitor_result c ''FAIL'' ''none'' (''provision failed: '' @ show_err error))
                    cases)
         | Inr _ \<Rightarrow> monitor_batch E cfg (length cases) 0 cases)
      })"

definition run_monitor_all :: "'j env \<Rightarrow> RunConfig \<Rightarrow> CaseResult list io" where
  "run_monitor_all E cfg = run_monitor_filtered E cfg (\<lambda>_. True)"

definition run_monitor_one :: "'j env \<Rightarrow> RunConfig \<Rightarrow> string \<Rightarrow> CaseResult list io option" where
  "run_monitor_one E cfg cid =
     map_option (\<lambda>_. run_monitor_filtered E cfg (\<lambda>c. mc_id c = cid)) (monitor_case_by_id cid)"

section \<open>Lemmas\<close>

lemma monitor_result_simps [simp]:
  "cr_id (monitor_result c st ob d) = mc_id c" "cr_result (monitor_result c st ob d) = st"
  "cr_event_observed (monitor_result c st ob d) = ob"
  by (simp_all add: monitor_result_def)

lemma steady_with_watermark [later_intros]:
  "(\<And>since. steady (body since)) \<Longrightarrow> steady (with_watermark E cfg c body)"
  unfolding with_watermark_def by (intro later_intros)

lemma steady_evidence [later_intros]:
  "steady (events_or_none E cfg c since)" "steady (reports_or_none E cfg c since)"
  "steady (settle E c what)"
  unfolding events_or_none_def reports_or_none_def settle_def by (intro later_intros)+

lemma steady_run_monitor [later_intros]: "steady (run_monitor E cfg c)"
  unfolding run_monitor_def run_icmp_timestamp_def run_conn_perip_def run_conn_total_def
    run_arp_spoof_def Let_def
  by (cases "mc_kind c") (auto intro!: later_intros)

definition monitored :: "MonitorCase \<Rightarrow> CaseResult \<Rightarrow> bool" where
  "monitored c r \<longleftrightarrow> cr_id r = mc_id c \<and> cr_result r \<in> statuses"

lemma monitored_result [simp]:
  "monitored c (monitor_result c ''PASS'' ob d)" "monitored c (monitor_result c ''FAIL'' ob d)"
  by (simp_all add: monitored_def statuses_def)

lemma returns_with_watermark:
  "(\<And>since. returns (body since) (monitored c)) \<Longrightarrow> returns (with_watermark E cfg c body) (monitored c)"
  unfolding with_watermark_def by (intro returns_intros) simp_all

lemma returns_run_monitor: "returns (run_monitor E cfg c) (monitored c)"
  unfolding run_monitor_def run_icmp_timestamp_def run_conn_perip_def run_conn_total_def
    run_arp_spoof_def Let_def
  by (cases "mc_kind c")
    (auto intro!: returns_with_watermark returns_intros split: option.split)

interpretation monitors: case_runner "run_monitor E cfg" mc_id for E cfg
  by unfold_locales
    (intro later_intros, rule returns_mono [OF returns_run_monitor], simp add: monitored_def)

lemma returns_monitor_batch:
  "returns (monitor_batch E cfg tot k cs)
     (\<lambda>rs. map cr_id rs = map mc_id cs \<and> (\<forall>r \<in> set rs. cr_result r \<in> statuses))"
  by (rule monitors.batch) simp_all

lemma returns_monitor_filtered:
  "returns (run_monitor_filtered E cfg keep)
     (\<lambda>rs. map cr_id rs = map mc_id (filter keep monitor_cases) \<and>
           (\<forall>r \<in> set rs. cr_result r \<in> statuses))"
  unfolding run_monitor_filtered_def Let_def
  by (intro returns_intros returns_monitor_batch) (auto simp: statuses_def comp_def)

text \<open>
  Programs that report PASS only if some world of their run satisfies a condition. The rules follow
  the program text down to the query that provides the evidence.
\<close>

definition passes_on :: "(world \<Rightarrow> bool) \<Rightarrow> CaseResult io \<Rightarrow> bool" where
  "passes_on B m \<longleftrightarrow>
     (\<forall>w r w'. run_state m w = (r, w') \<longrightarrow> cr_result r = ''PASS'' \<longrightarrow>
        (\<exists>w1. later w w1 \<and> later w1 w' \<and> B w1))"

named_theorems passes_intros \<open>programs that pass on evidence only\<close>

lemma passes_onD:
  "passes_on B m \<Longrightarrow> run_state m w = (r, w') \<Longrightarrow> cr_result r = ''PASS'' \<Longrightarrow>
   \<exists>w1. later w w1 \<and> later w1 w' \<and> B w1"
  by (simp add: passes_on_def)

lemma passes_fail [passes_intros]: "passes_on B (ret (monitor_result c ''FAIL'' ob d))"
  by (simp add: passes_on_def)

lemma passes_case_sum [passes_intros]:
  "(\<And>e. passes_on B (f e)) \<Longrightarrow> (\<And>x. passes_on B (g x)) \<Longrightarrow>
   passes_on B (case r of Inl e \<Rightarrow> f e | Inr x \<Rightarrow> g x)"
  by (cases r) auto

lemma passes_bind [passes_intros]:
  assumes "steady m" and "\<And>x. passes_on B (f x)"
  shows "passes_on B (State_Monad.bind m f)"
  unfolding passes_on_def
proof (intro allI impI)
  fix w r w'
  assume "run_state (State_Monad.bind m f) w = (r, w')" and pass: "cr_result r = ''PASS''"
  then obtain x w1 where "later w w1" and "run_state (f x) w1 = (r, w')"
    using assms(1) by (elim run_bind_later)
  then show "\<exists>w1. later w w1 \<and> later w1 w' \<and> B w1"
    using passes_onD [OF assms(2) _ pass] by (meson later_trans)
qed

text \<open>
  The evidence of a case is gathered with the watermark that was read at its start: the watermark
  in the world \<open>w0\<close>, the evidence in the later world \<open>w2\<close>.
\<close>

definition passes_since ::
  "'j env \<Rightarrow> RunConfig \<Rightarrow> (int \<Rightarrow> world \<Rightarrow> bool) \<Rightarrow> CaseResult io \<Rightarrow> bool" where
  "passes_since E cfg B m \<longleftrightarrow>
     (\<forall>w r w'. run_state m w = (r, w') \<longrightarrow> cr_result r = ''PASS'' \<longrightarrow>
        (\<exists>since w0 w1 w2. run_state (target_now_ms E cfg) w0 = (Ok since, w1) \<and>
           later w w0 \<and> later w1 w2 \<and> later w2 w' \<and> B since w2))"

lemma passes_sinceD:
  "passes_since E cfg B m \<Longrightarrow> run_state m w = (r, w') \<Longrightarrow> cr_result r = ''PASS'' \<Longrightarrow>
   \<exists>since w0 w1 w2. run_state (target_now_ms E cfg) w0 = (Ok since, w1) \<and>
     later w w0 \<and> later w1 w2 \<and> later w2 w' \<and> B since w2"
  by (simp add: passes_since_def)

lemma passes_watermark:
  assumes "\<And>since. passes_on (B since) (body since)"
  shows "passes_since E cfg B (with_watermark E cfg c body)"
  unfolding passes_since_def
proof (intro allI impI)
  fix w r w'
  assume run: "run_state (with_watermark E cfg c body) w = (r, w')" and pass: "cr_result r = ''PASS''"
  let ?w0 = "step E (Eprintln (monitor_line c ''reading watermark'')) w"
  obtain wm w1 where wm: "run_state (target_now_ms E cfg) ?w0 = (wm, w1)"
    by fastforce
  with run pass obtain since where "wm = Ok since" and "run_state (body since) w1 = (r, w')"
    by (cases wm) (auto simp: with_watermark_def eprintln_def)
  then show "\<exists>since w0 w1 w2. run_state (target_now_ms E cfg) w0 = (Ok since, w1) \<and>
      later w w0 \<and> later w1 w2 \<and> later w2 w' \<and> B since w2"
    using passes_onD [OF assms _ pass] wm later_step by blast
qed

text \<open>The queries: without a fitting row the rest of the program does not pass.\<close>

lemma passes_query:
  assumes rest: "\<And>rows. \<not> list_ex K rows \<Longrightarrow> returns (f rows) (\<lambda>r. cr_result r \<noteq> ''PASS'')"
    and q: "\<And>w rows w1. run_state q w = (rows, w1) \<Longrightarrow> list_ex K rows \<Longrightarrow> B w"
    and st: "steady q" "\<And>rows. steady (f rows)"
  shows "passes_on B (State_Monad.bind q f)"
  unfolding passes_on_def
proof (intro allI impI)
  fix w r w'
  assume run: "run_state (State_Monad.bind q f) w = (r, w')" and pass: "cr_result r = ''PASS''"
  obtain rows w1 where q1: "run_state q w = (rows, w1)" and f1: "run_state (f rows) w1 = (r, w')"
    using run by (auto split: prod.splits)
  have "list_ex K rows"
  proof (rule ccontr)
    assume "\<not> list_ex K rows"
    from returnsD [OF rest [OF this] f1] pass show False by simp
  qed
  moreover have "later w w'"
    using steadyD [OF st(1) q1] steadyD [OF st(2) f1] by (rule later_trans)
  ultimately show "\<exists>w1. later w w1 \<and> later w1 w' \<and> B w1"
    using q [OF q1] later_refl by blast
qed

lemma passes_reports:
  assumes "\<And>rows. \<not> list_ex K rows \<Longrightarrow> returns (f rows) (\<lambda>r. cr_result r \<noteq> ''PASS'')"
    and "\<And>rows. steady (f rows)"
  shows "passes_on (\<lambda>w. \<exists>rows w2. run_state (dump_reports E cfg since) w = (Ok rows, w2) \<and>
      list_ex K rows) (State_Monad.bind (reports_or_none E cfg c since) f)"
  using assms(1)
proof (rule passes_query)
  fix w rows w1
  assume "run_state (reports_or_none E cfg c since) w = (rows, w1)" and "list_ex K rows"
  then show "\<exists>rows w2. run_state (dump_reports E cfg since) w = (Ok rows, w2) \<and> list_ex K rows"
    by (auto simp: reports_or_none_def split: sum.splits prod.splits)
qed (assumption | intro later_intros assms(2))+

lemma passes_events:
  assumes "\<And>rows. \<not> list_ex K rows \<Longrightarrow> returns (f rows) (\<lambda>r. cr_result r \<noteq> ''PASS'')"
    and "\<And>rows. steady (f rows)"
  shows "passes_on (\<lambda>w. \<exists>rows w2. run_state (dump_events E cfg since) w = (Ok rows, w2) \<and>
      list_ex K rows) (State_Monad.bind (events_or_none E cfg c since) f)"
  using assms(1)
proof (rule passes_query)
  fix w rows w1
  assume "run_state (events_or_none E cfg c since) w = (rows, w1)" and "list_ex K rows"
  then show "\<exists>rows w2. run_state (dump_events E cfg since) w = (Ok rows, w2) \<and> list_ex K rows"
    by (auto simp: events_or_none_def split: sum.splits prod.splits)
qed (assumption | intro later_intros assms(2))+

lemma timestamp_passes:
  "passes_since E cfg (\<lambda>since w. \<exists>rows w2. run_state (dump_events E cfg since) w = (Ok rows, w2) \<and>
         list_ex (is_timestamp_probe cfg) rows) (run_icmp_timestamp E cfg c)"
  unfolding run_icmp_timestamp_def
  by (intro passes_watermark passes_intros later_intros passes_events) (simp_all add: returns_return)

lemma perip_passes:
  "passes_since E cfg (\<lambda>since w. \<exists>rows w2. run_state (dump_reports E cfg since) w = (Ok rows, w2) \<and>
         list_ex (is_breach E (show_ip (rc_peer_ip cfg))) rows) (run_conn_perip E cfg c)"
  unfolding run_conn_perip_def Let_def
  by (intro passes_watermark passes_intros later_intros passes_reports returns_bind_any)
    (simp_all add: returns_return)

lemma total_passes:
  "passes_since E cfg (\<lambda>since w. \<exists>rows w2. run_state (dump_reports E cfg since) w = (Ok rows, w2) \<and>
         list_ex (\<lambda>r. report_type r = ''tcp_conn_total'') rows) (run_conn_total E cfg c)"
proof -
  have none: "find K rows = None" if "\<not> list_ex K rows" for K and rows :: "'a FwReport list"
    using that by (auto simp: find_None_iff list_ex_iff)
  show ?thesis
    unfolding run_conn_total_def
    by (intro passes_watermark passes_intros later_intros passes_reports) (simp_all add: returns_return none)
qed

lemma arp_passes:
  "passes_since E cfg (\<lambda>since w. \<exists>rows w2. run_state (dump_reports E cfg since) w = (Ok rows, w2) \<and>
         list_ex (is_arp_spoof E) rows) (run_arp_spoof E cfg c)"
  unfolding run_arp_spoof_def
  by (intro passes_watermark passes_intros later_intros passes_reports) (simp_all add: returns_return)

section \<open>Properties\<close>

text \<open>
  C5. A monitor case passes only on the report it is about. If \<open>run_monitor\<close> reports PASS then a
  watermark was read during the run, and afterwards, still during the run, the query of the daemon's
  database with exactly that watermark returned the matching row: a timestamp probe event from
  the PEER, a per-IP breach of at least fifty connections for the PEER, a total-connection sample,
  or an ARP spoof report for the claimed address.
\<close>

theorem monitor_pass_sound:
  assumes "run_state (run_monitor E cfg c) w = (r, w')" and "cr_result r = ''PASS''"
  shows "\<exists>since w0 w1 w2. run_state (target_now_ms E cfg) w0 = (Ok since, w1) \<and>
     later w w0 \<and> later w1 w2 \<and> later w2 w' \<and>
     (case mc_kind c of
        M_IcmpTimestamp \<Rightarrow> \<exists>events w3. run_state (dump_events E cfg since) w2 = (Ok events, w3) \<and>
          list_ex (\<lambda>e. event_type e = ''IcmpTimestampProbe'' \<and> src_ip e = show_ip (rc_peer_ip cfg)) events
      | M_ConnPerIp \<Rightarrow> \<exists>rows w3. run_state (dump_reports E cfg since) w2 = (Ok rows, w3) \<and>
          list_ex (is_breach E (show_ip (rc_peer_ip cfg))) rows
      | M_ConnTotal \<Rightarrow> \<exists>rows w3. run_state (dump_reports E cfg since) w2 = (Ok rows, w3) \<and>
          list_ex (\<lambda>r. report_type r = ''tcp_conn_total'') rows
      | M_ArpSpoof \<Rightarrow> \<exists>rows w3. run_state (dump_reports E cfg since) w2 = (Ok rows, w3) \<and>
          list_ex (is_arp_spoof E) rows)"
proof (cases "mc_kind c")
  case M_IcmpTimestamp
  with assms(1) have "run_state (run_icmp_timestamp E cfg c) w = (r, w')"
    by (simp add: run_monitor_def)
  from passes_sinceD [OF timestamp_passes this assms(2)] M_IcmpTimestamp show ?thesis
    by (simp add: is_timestamp_probe_def [abs_def])
next
  case M_ConnPerIp
  with assms(1) have "run_state (run_conn_perip E cfg c) w = (r, w')"
    by (simp add: run_monitor_def)
  from passes_sinceD [OF perip_passes this assms(2)] M_ConnPerIp show ?thesis by simp
next
  case M_ConnTotal
  with assms(1) have "run_state (run_conn_total E cfg c) w = (r, w')"
    by (simp add: run_monitor_def)
  from passes_sinceD [OF total_passes this assms(2)] M_ConnTotal show ?thesis by simp
next
  case M_ArpSpoof
  with assms(1) have "run_state (run_arp_spoof E cfg c) w = (r, w')"
    by (simp add: run_monitor_def)
  from passes_sinceD [OF arp_passes this assms(2)] M_ArpSpoof show ?thesis by simp
qed

definition sample_env :: "jv env" where
  "sample_env =
     demo_env\<lparr>json := demo_json\<lparr>de_reports := \<lambda>_. Inr
       [\<lparr>report_type = ''tcp_conn_total'', payload = JObj [(''total'', JInt 12)], created_at_ms = 3\<rparr>]\<rparr>\<rparr>"

definition total_case :: MonitorCase where
  "total_case = monitor_cases ! 1"

lemma sample_run:
  "\<exists>w'. run_state (run_monitor sample_env demo_cfg total_case) demo_world =
     (monitor_result total_case ''PASS'' ''tcp_conn_total'' ''total=12'', w')"
  by (simp add: run_monitor_def total_case_def monitor_cases_def run_conn_total_def with_watermark_def
      target_now_ms_def now_ms_def settle_def reports_or_none_def dump_reports_def query_reports_def
      open_db_def db_prepare_def run_io sample_env_def demo_defs j_field_u64_def)

theorem monitor_pass_sound_witness:
  "\<exists>since w0 w1 w2 rows w3. run_state (target_now_ms sample_env demo_cfg) w0 = (Ok since, w1) \<and>
     later w1 w2 \<and> run_state (dump_reports sample_env demo_cfg since) w2 = (Ok rows, w3) \<and>
     list_ex (\<lambda>r. report_type r = ''tcp_conn_total'') rows"
proof -
  obtain w' where r: "run_state (run_monitor sample_env demo_cfg total_case) demo_world =
      (monitor_result total_case ''PASS'' ''tcp_conn_total'' ''total=12'', w')"
    using sample_run by blast
  have "mc_kind total_case = M_ConnTotal"
    by (simp add: total_case_def monitor_cases_def)
  with monitor_pass_sound [OF r] show ?thesis
    by (simp del: ex_simps) blast
qed

end
