(* ===== verification/Suite.thy ===== *)
theory Suite
  imports Monitor
begin

text \<open>
  Whole runs: the entry points \<open>run_one\<close>, \<open>run_group\<close> and \<open>run_all\<close> of \<open>verify.rs\<close>, which cover the
  data-plane catalog and the monitors, and the result table and JSON document of \<open>report.rs\<close>.
\<close>

section \<open>Entry points\<close>

definition unknown_case :: "string \<Rightarrow> CaseResult" where
  "unknown_case cid =
     \<lparr>cr_id = cid, cr_group = [], cr_bundle = [], cr_result = ''FAIL'', cr_enforce_expected = [],
      cr_enforce_observed = [], cr_event_expected = [], cr_event_observed = [],
      cr_report_confirmed = None, cr_rule_id = None, cr_detail = ''unknown case id''\<rparr>"

definition run_one :: "'j env \<Rightarrow> RunConfig \<Rightarrow> string \<Rightarrow> CaseResult list io" where
  "run_one E cfg cid =
     (case run_monitor_one E cfg cid of
        Some m \<Rightarrow> m
      | None \<Rightarrow>
          (case case_by_id cid of
             None \<Rightarrow> ret [unknown_case cid]
           | Some c \<Rightarrow>
               do {
                 write_traffic_rule E cfg 5;
                 p \<leftarrow> provision_bundle E cfg (fc_bundle c);
                 (case p of
                    Inl error \<Rightarrow> ret [provision_error c error]
                  | Inr _ \<Rightarrow>
                      do {
                        eprintln E (''fw-verify: running case 1/1: '' @ fc_id c);
                        r \<leftarrow> run_case E cfg c;
                        eprintln E (''fw-verify: case '' @ fc_id c @ '' -> '' @ cr_result r);
                        ret [r]
                      })
               }))"

definition run_group :: "'j env \<Rightarrow> RunConfig \<Rightarrow> Group \<Rightarrow> CaseResult list io" where
  "run_group E cfg grp =
     (if grp = G_Monitor then run_monitor_all E cfg
      else run_filtered E cfg (\<lambda>c. fc_group c = grp))"

definition run_all :: "'j env \<Rightarrow> RunConfig \<Rightarrow> CaseResult list io" where
  "run_all E cfg =
     do {
       results \<leftarrow> run_filtered E cfg (\<lambda>_. True);
       eprintln E ''fw-verify: running monitor cases'';
       more \<leftarrow> run_monitor_all E cfg;
       ret (results @ more)
     }"

section \<open>Reporting\<close>

text \<open>\<open>{:<n}\<close>: padded on the right with blanks, never cut.\<close>

definition pad :: "nat \<Rightarrow> string \<Rightarrow> string" where
  "pad n s = s @ replicate (n - length s) (CHR '' '')"

definition table_line ::
  "string \<Rightarrow> string \<Rightarrow> string \<Rightarrow> string \<Rightarrow> string \<Rightarrow> string \<Rightarrow> string" where
  "table_line a b c d e rest =
     pad 26 a @ '' '' @ pad 9 b @ '' '' @ pad 7 c @ '' '' @ pad 8 d @ '' '' @ pad 8 e @ '' '' @ rest"

definition result_line :: "CaseResult \<Rightarrow> string" where
  "result_line r =
     table_line (cr_id r) (cr_group r) (cr_result r) (cr_enforce_observed r) (cr_event_observed r)
       (cr_detail r)"

definition count_status :: "string \<Rightarrow> CaseResult list \<Rightarrow> nat" where
  "count_status st rs = length (filter (\<lambda>r. cr_result r = st) rs)"

definition summary_line :: "CaseResult list \<Rightarrow> string" where
  "summary_line rs =
     ''\<newline>summary: total='' @ dec (length rs) @ '' passed='' @ dec (count_status ''PASS'' rs) @
     '' failed='' @ dec (count_status ''FAIL'' rs) @ '' skipped='' @ dec (count_status ''SKIP'' rs)"

definition case_json :: "'j env \<Rightarrow> CaseResult \<Rightarrow> 'j" where
  "case_json E r =
     j_obj (json E)
       [(''id'', j_str (json E) (cr_id r)), (''group'', j_str (json E) (cr_group r)),
        (''bundle'', j_str (json E) (cr_bundle r)), (''result'', j_str (json E) (cr_result r)),
        (''enforce_expected'', j_str (json E) (cr_enforce_expected r)),
        (''enforce_observed'', j_str (json E) (cr_enforce_observed r)),
        (''event_expected'', j_str (json E) (cr_event_expected r)),
        (''event_observed'', j_str (json E) (cr_event_observed r)),
        (''report_confirmed'', case cr_report_confirmed r of
            None \<Rightarrow> j_null (json E) | Some b \<Rightarrow> j_bool (json E) b),
        (''rule_id'', j_opt_int E (cr_rule_id r)),
        (''detail'', j_str (json E) (cr_detail r))]"

definition j_nat :: "'j env \<Rightarrow> nat \<Rightarrow> 'j" where
  "j_nat E n = j_int (json E) (int n)"

definition document :: "'j env \<Rightarrow> RunConfig \<Rightarrow> CaseResult list \<Rightarrow> 'j" where
  "document E cfg rs =
     j_obj (json E)
       [(''mode'', j_str (json E) (show_mode (rc_mode cfg))),
        (''target'', j_str (json E) (label (rc_target cfg))),
        (''peer'', j_str (json E) (label (rc_peer cfg))),
        (''target_ip'', j_str (json E) (show_ip (rc_target_ip cfg))),
        (''peer_ip'', j_str (json E) (show_ip (rc_peer_ip cfg))),
        (''cases'', j_arr (json E) (map (case_json E) rs)),
        (''summary'', j_obj (json E)
           [(''total'', j_nat E (length rs)), (''passed'', j_nat E (count_status ''PASS'' rs)),
            (''failed'', j_nat E (count_status ''FAIL'' rs)),
            (''skipped'', j_nat E (count_status ''SKIP'' rs))])]"

fun print_lines :: "'j env \<Rightarrow> string list \<Rightarrow> unit io" where
  "print_lines E [] = ret ()"
| "print_lines E (l # ls) = do { println E l; print_lines E ls }"

definition table :: "CaseResult list \<Rightarrow> string list" where
  "table rs =
     [table_line ''CASE'' ''GROUP'' ''RESULT'' ''ENFORCE'' ''EVENT'' ''DETAIL'', replicate 96 (CHR ''-'')] @
     map result_line rs @ [summary_line rs]"

definition write_report :: "'j env \<Rightarrow> string option \<Rightarrow> 'j \<Rightarrow> unit res io" where
  "write_report E path doc =
     (case path of
        None \<Rightarrow> ret (Ok ())
      | Some p \<Rightarrow>
          and_then (ret (j_pretty (json E) doc)) (\<lambda>text.
          and_then (ctx (''failed to write report '' @ p) (map_res lift_io (fs_write E p text))) (\<lambda>_.
          do { println E (''report written to '' @ p); ret (Ok ()) })))"

definition emit_report :: "'j env \<Rightarrow> GlobalArgs \<Rightarrow> RunConfig \<Rightarrow> CaseResult list \<Rightarrow> nat res io" where
  "emit_report E g cfg rs =
     do {
       print_lines E (table rs);
       let doc = document E cfg rs;
       and_then (if ga_json g
                 then and_then (ret (j_pretty (json E) doc)) (\<lambda>text.
                        do { println E text; ret (Ok ()) })
                 else ret (Ok ())) (\<lambda>_.
       and_then (write_report E (ga_report g) doc) (\<lambda>_.
         ret (Ok (count_status ''FAIL'' rs))))
     }"

section \<open>Lemmas\<close>

lemma steady_bundles [later_intros]:
  "steady (provision_bundle E cfg b)" "steady (run_filtered E cfg keep)"
proof -
  show p: "steady (provision_bundle E cfg b)" for b
    unfolding provision_bundle_def by (intro later_intros)
  have f: "steady (fail_members E e cs)" for e cs
    by (induction cs) (auto intro!: later_intros)
  have r: "steady (run_members E cfg t k cs)" for t k cs
    by (induction cs arbitrary: k) (auto intro!: later_intros)
  have b: "steady (run_bundle E cfg keep t k b)" for t k b
    unfolding run_bundle_def Let_def by (intro later_intros p f r)
  have "steady (run_bundles E cfg keep t k bs)" for t k bs
    by (induction bs arbitrary: k) (auto intro!: later_intros b)
  then show "steady (run_filtered E cfg keep)"
    unfolding run_filtered_def Let_def by (intro later_intros)
qed

lemma steady_monitors [later_intros]:
  "steady (run_monitor_filtered E cfg keep)" "steady (run_monitor_all E cfg)"
proof -
  have "steady (monitor_batch E cfg t k cs)" for t k cs
    by (induction cs arbitrary: k) (auto intro!: later_intros)
  then show m: "steady (run_monitor_filtered E cfg keep)" for keep
    unfolding run_monitor_filtered_def Let_def by (intro later_intros)
  show "steady (run_monitor_all E cfg)"
    unfolding run_monitor_all_def by (rule m)
qed

lemma steady_suite [later_intros]:
  "steady (run_one E cfg cid)" "steady (run_group E cfg grp)" "steady (run_all E cfg)"
  unfolding run_one_def run_group_def run_all_def run_monitor_one_def
  by (auto intro!: later_intros split: option.split)

lemma steady_print_lines [later_intros]: "steady (print_lines E ls)"
  by (induction ls) (auto intro!: later_intros)

lemma steady_emit_report [later_intros]: "steady (emit_report E g cfg rs)"
  unfolding emit_report_def write_report_def Let_def by (intro later_intros)

lemma returns_emit_report: "returns (emit_report E g cfg rs) (if_ok (\<lambda>n. n = count_status ''FAIL'' rs))"
  unfolding emit_report_def Let_def
  by (intro returns_bind_any returns_and_then_any returns_return) simp

definition legal :: "CaseResult list \<Rightarrow> bool" where
  "legal rs \<longleftrightarrow> (\<forall>r \<in> set rs. cr_result r \<in> statuses)"

definition suite_ids :: "string list" where
  "suite_ids =
     map fc_id (concat (map (bundle_members (\<lambda>_. True)) bundle_order)) @ map mc_id monitor_cases"

lemma returns_run_all:
  "returns (run_all E cfg) (\<lambda>rs. map cr_id rs = suite_ids \<and> legal rs)"
  unfolding run_all_def run_monitor_all_def
  by (intro returns_bind [OF returns_run_filtered] returns_bind_any
      returns_bind [OF returns_monitor_filtered] returns_return)
    (auto simp: lists_cases_def suite_ids_def legal_def)

lemma count_partition:
  "legal rs \<Longrightarrow> count_status ''PASS'' rs + count_status ''FAIL'' rs + count_status ''SKIP'' rs = length rs"
  by (induction rs) (auto simp: count_status_def legal_def statuses_def)

lemma run_print_lines: "trace (snd (run_state (print_lines E ls) w)) = trace w @ map Println ls"
  by (induction ls arbitrary: w) (simp_all add: println_def)

lemma suite_ids_mset:
  "mset suite_ids = mset (map fc_id all_cases @ map mc_id monitor_cases)"
proof -
  have "mset (concat (map (bundle_members (\<lambda>_. True)) bundle_order)) = mset (filter (\<lambda>_. True) all_cases)"
    unfolding bundle_members_def by (rule mset_concat_filter [OF bundle_order_distinct]) simp
  then have "mset (map fc_id (concat (map (bundle_members (\<lambda>_. True)) bundle_order))) = mset (map fc_id all_cases)"
    by (metis filter_True mset_map)
  then show ?thesis
    by (simp add: suite_ids_def)
qed

lemma all_ids_distinct: "distinct (map fc_id all_cases @ map mc_id monitor_cases)"
  by (simp add: all_cases_def case_lists monitor_cases_def)

lemma suite_ids_distinct: "distinct suite_ids"
  using suite_ids_mset all_ids_distinct by (metis mset_eq_imp_distinct_iff)

lemma returns_run_one:
  "returns (run_one E cfg cid) (\<lambda>rs. map cr_id rs = [cid] \<and> legal rs)"
proof (cases "monitor_case_by_id cid")
  case (Some m)
  have "filter (\<lambda>c. mc_id c = cid) monitor_cases = [m]"
    using Some by (auto simp: monitor_case_by_id_def monitor_cases_def split: if_splits)
  moreover have "mc_id m = cid"
    using Some by (auto simp: monitor_case_by_id_def find_Some_iff)
  ultimately show ?thesis
    using returns_monitor_filtered [of E cfg "\<lambda>c. mc_id c = cid"] Some
    by (simp add: run_one_def run_monitor_one_def legal_def)
next
  case None
  have c: "fc_id c = cid" if "case_by_id cid = Some c" for c
    using that by (auto simp: case_by_id_def find_Some_iff)
  show ?thesis
    unfolding run_one_def run_monitor_one_def None
    by (auto simp: unknown_case_def legal_def statuses_def provision_error_def c
        intro!: returns_return returns_bind_any returns_case_sum
          returns_bind [OF returns_run_case] split: option.split)
qed

section \<open>Properties\<close>

text \<open>
  C4. \<open>run-all\<close> covers the whole test plan: whatever happens on the TARGET, on the PEER and in the
  daemon, the result list names each of the thirty data-plane cases and four monitor cases exactly
  once, data plane first, and every status is PASS, FAIL or SKIP.
\<close>

theorem run_all_covers_plan:
  assumes "run_state (run_all E cfg) w = (rs, w')"
  shows "distinct (map cr_id rs) \<and> length rs = 34 \<and>
     mset (map cr_id rs) = mset (map fc_id all_cases @ map mc_id monitor_cases) \<and>
     map cr_id (drop 30 rs) = map mc_id monitor_cases \<and>
     list_all (\<lambda>r. cr_result r = ''PASS'' \<or> cr_result r = ''FAIL'' \<or> cr_result r = ''SKIP'') rs"
proof -
  have ids: "map cr_id rs = suite_ids" and "legal rs"
    using returnsD [OF returns_run_all assms] by simp_all
  have n: "length all_cases = 30" "length monitor_cases = 4"
    by (simp_all add: all_cases_def case_lists monitor_cases_def)
  have "length suite_ids = 34"
    using arg_cong [OF suite_ids_mset, of size] n by simp
  then have len: "length rs = 34"
    using ids by (metis length_map)
  have "length (concat (map (bundle_members (\<lambda>_. True)) bundle_order)) = 30"
    using \<open>length suite_ids = 34\<close> n by (simp add: suite_ids_def)
  then have "drop 30 suite_ids = map mc_id monitor_cases"
    by (simp add: suite_ids_def)
  then have "map cr_id (drop 30 rs) = map mc_id monitor_cases"
    by (metis drop_map ids)
  then show ?thesis
    using ids suite_ids_distinct suite_ids_mset \<open>legal rs\<close> len
    by (auto simp: legal_def statuses_def list_all_iff)
qed

theorem run_all_covers_plan_witness:
  "length (fst (run_state (run_all demo_env demo_cfg) demo_world)) = 34"
  using run_all_covers_plan [of demo_env demo_cfg demo_world, OF prod.collapse [symmetric]] by blast

text \<open>
  \<open>run-one\<close> always answers with exactly one result under the requested id, a monitor case, a
  catalog case or the failure for an unknown id.
\<close>

theorem run_one_single:
  "map cr_id (fst (run_state (run_one E cfg cid) w)) = [cid] \<and>
   list_all (\<lambda>r. cr_result r = ''PASS'' \<or> cr_result r = ''FAIL'' \<or> cr_result r = ''SKIP'')
     (fst (run_state (run_one E cfg cid) w))"
  using returns_run_one [of E cfg cid]
  by (auto simp: returns_def legal_def statuses_def list_all_iff)

text \<open>
  C30. The report accounts for every result: the returned number is the number of failures, passed,
  failed and skipped add up to the total for legal results, and the table printed first has one
  line per result in order, between the header and the summary.
\<close>

theorem report_accounts_for_results:
  assumes "run_state (emit_report E g cfg rs) w = (Ok n, w')"
    and "list_all (\<lambda>r. cr_result r = ''PASS'' \<or> cr_result r = ''FAIL'' \<or> cr_result r = ''SKIP'') rs"
  shows "n = count_status ''FAIL'' rs \<and>
     count_status ''PASS'' rs + n + count_status ''SKIP'' rs = length rs \<and>
     prefix (trace w @ map Println (table rs)) (trace w') \<and>
     map result_line rs = take (length rs) (drop 2 (table rs))"
proof -
  have legal: "legal rs"
    using assms(2) by (auto simp: legal_def statuses_def list_all_iff)
  obtain u w1 where pl: "run_state (print_lines E (table rs)) w = (u, w1)"
    by (cases "run_state (print_lines E (table rs)) w")
  have tr: "trace w1 = trace w @ map Println (table rs)"
    using run_print_lines [of E "table rs" w] pl by simp
  have "n = count_status ''FAIL'' rs \<and> later w1 w'"
  proof -
    have "run_state (and_then (if ga_json g
                 then and_then (ret (j_pretty (json E) (document E cfg rs))) (\<lambda>text.
                        do { println E text; ret (Ok ()) })
                 else ret (Ok ())) (\<lambda>_.
       and_then (write_report E (ga_report g) (document E cfg rs)) (\<lambda>_.
         ret (Ok (count_status ''FAIL'' rs))))) w1 = (Ok n, w')" (is "run_state ?m w1 = _")
      using assms(1) pl by (simp add: emit_report_def Let_def)
    moreover have "steady ?m"
      unfolding write_report_def by (intro later_intros)
    moreover have "returns ?m (if_ok (\<lambda>n. n = count_status ''FAIL'' rs))"
      by (intro returns_and_then_any returns_return) simp
    ultimately show ?thesis
      using steadyD returnsD by fastforce
  qed
  with legal tr show ?thesis
    using count_partition [OF legal] by (auto simp: table_def dest: later_trace)
qed

theorem report_accounts_for_results_witness:
  "fst (run_state (emit_report demo_env demo_args demo_cfg [unknown_case ''x'']) demo_world) = Ok 1"
proof -
  obtain r w' where run: "run_state (emit_report demo_env demo_args demo_cfg [unknown_case ''x'']) demo_world = (r, w')"
    by (cases "run_state (emit_report demo_env demo_args demo_cfg [unknown_case ''x'']) demo_world")
  obtain u w1 where pl: "run_state (print_lines demo_env (table [unknown_case ''x''])) demo_world = (u, w1)"
    by (cases "run_state (print_lines demo_env (table [unknown_case ''x''])) demo_world")
  have ok: "r = Ok (count_status ''FAIL'' [unknown_case ''x''])"
    using run pl by (simp add: emit_report_def write_report_def demo_args_def Let_def run_io)
  have one: "count_status ''FAIL'' [unknown_case ''x''] = 1"
    by (simp add: count_status_def unknown_case_def)
  show ?thesis
    using report_accounts_for_results [OF run [unfolded ok]] run ok one by (simp add: unknown_case_def)
qed

end
