(* ===== verification/FileLogic.thy ===== *)
theory FileLogic
  imports Provision
begin

text \<open>
  Two small program logics for the environment setup: triples about the files before and after a
  program, where other processes leave a given set of files alone, and a reference interpreter of
  command scripts with what it means for a program to implement a script.
\<close>

section \<open>Triples about files\<close>

text \<open>
  A triple speaks about the files before a program, and about its result and the files after it.
  Programs whose external actions leave two files alone are described by their own file operations.
\<close>

type_synonym fs = "string \<rightharpoonup> string"

definition valid :: "(fs \<Rightarrow> bool) \<Rightarrow> 'a io \<Rightarrow> ('a \<Rightarrow> fs \<Rightarrow> bool) \<Rightarrow> bool" where
  "valid P m Q \<longleftrightarrow> (\<forall>w r w'. P (files w) \<longrightarrow> run_state m w = (r, w') \<longrightarrow> Q r (files w'))"

named_theorems valid_intros \<open>rules for triples about files\<close>

lemma validD: "valid P m Q \<Longrightarrow> P (files w) \<Longrightarrow> run_state m w = (r, w') \<Longrightarrow> Q r (files w')"
  by (auto simp: valid_def)

lemma valid_conseq:
  "valid P m Q \<Longrightarrow> (\<And>fs. P' fs \<Longrightarrow> P fs) \<Longrightarrow> (\<And>r fs. Q r fs \<Longrightarrow> Q' r fs) \<Longrightarrow> valid P' m Q'"
  by (simp add: valid_def) blast

lemma valid_bind:
  assumes "valid P m R" and "\<And>x. valid (R x) (f x) Q"
  shows "valid P (State_Monad.bind m f) Q"
  unfolding valid_def
proof (intro allI impI)
  fix w r w'
  assume P: "P (files w)" and "run_state (State_Monad.bind m f) w = (r, w')"
  then obtain x w1 where m: "run_state m w = (x, w1)" and f: "run_state (f x) w1 = (r, w')"
    by (auto split: prod.splits)
  have "R x (files w1)"
    by (rule validD [OF assms(1) P m])
  then show "Q r (files w')"
    using f by (rule validD [OF assms(2)])
qed

text \<open>An invariant of the files, kept on every path.\<close>

abbreviation keeps :: "(fs \<Rightarrow> bool) \<Rightarrow> 'a io \<Rightarrow> bool" where
  "keeps I m \<equiv> valid I m (\<lambda>_. I)"

lemma keeps_ret [valid_intros]: "keeps I (ret x)"
  by (simp add: valid_def)

lemma keeps_bind [valid_intros]:
  "keeps I m \<Longrightarrow> (\<And>x. keeps I (f x)) \<Longrightarrow> keeps I (State_Monad.bind m f)"
  by (rule valid_bind)

lemma keeps_case_sum [valid_intros]:
  "(\<And>e. keeps I (f e)) \<Longrightarrow> (\<And>x. keeps I (g x)) \<Longrightarrow> keeps I (case r of Inl e \<Rightarrow> f e | Inr x \<Rightarrow> g x)"
  by (cases r) auto

lemma keeps_if [valid_intros]: "keeps I m \<Longrightarrow> keeps I n \<Longrightarrow> keeps I (if b then m else n)"
  by simp

lemma keeps_let [valid_intros]: "(\<And>x. keeps I (f x)) \<Longrightarrow> keeps I (let x = t in f x)"
  by simp

lemma keeps_and_then [valid_intros]:
  "keeps I m \<Longrightarrow> (\<And>x. keeps I (f x)) \<Longrightarrow> keeps I (and_then m f)"
  unfolding and_then_def by (intro valid_intros)

lemma keeps_map_res [valid_intros]: "keeps I m \<Longrightarrow> keeps I (map_res f m)"
  unfolding map_res_def by (intro valid_intros)

text \<open>Other processes do not touch the files of a set.\<close>

definition alone :: "'j env \<Rightarrow> string set \<Rightarrow> bool" where
  "alone E ps \<longleftrightarrow> (\<forall>w a. \<forall>p \<in> ps. meddle (os E) w a p = files w p)"

text \<open>An assertion that reads the files of a set only.\<close>

definition about :: "string set \<Rightarrow> (fs \<Rightarrow> bool) \<Rightarrow> bool" where
  "about ps I \<longleftrightarrow> (\<forall>f g. (\<forall>p \<in> ps. f p = g p) \<longrightarrow> I f = I g)"

lemma about_step: "alone E ps \<Longrightarrow> about ps I \<Longrightarrow> I (meddle (os E) w a) = I (files w)"
  by (auto simp: alone_def about_def)

lemma about_upd: "about ps I \<Longrightarrow> p \<notin> ps \<Longrightarrow> I (f(p := v)) = I f"
  by (auto simp: about_def)

lemma keeps_perform: "alone E ps \<Longrightarrow> about ps I \<Longrightarrow> keeps I (perform E a ans)"
  by (simp add: valid_def about_step)

lemma keeps_primitives:
  assumes "alone E ps" and "about ps I"
  shows "keeps I (println E s)" "keeps I (eprintln E s)" "keeps I (sleep E ms)"
    "keeps I (instant_now E)" "keeps I (command_output E argv)" "keeps I (path_exists E p)"
    "keeps I (create_dir_all E p)"
  using keeps_perform [OF assms]
  by (simp_all add: println_def eprintln_def sleep_def instant_now_def command_output_def
      path_exists_def create_dir_all_def)

lemma keeps_fs:
  assumes "alone E ps" and "about ps I" and "p \<notin> ps"
  shows "keeps I (fs_write E p c)" "keeps I (fs_remove E p)"
  using about_step [OF assms(1,2)] about_upd [OF assms(2,3)]
  by (auto simp: valid_def fs_write_def fs_remove_def Let_def split: sum.splits option.splits)

lemma keeps_loop:
  assumes "deadline_loop body loop d p" and "\<And>s. keeps I (body s)"
  shows "keeps I (State (loop s))"
  unfolding valid_def
proof (intro allI impI)
  fix w r w'
  assume I: "I (files w)" and run: "run_state (State (loop s)) w = (r, w')"
  have "\<exists>s1 w1 r w'. I (files w1) \<and> later w w1 \<and> run_state (body s1) w1 = (Inl r, w') \<and>
      loop s w = (r, w')"
    using deadline_loop.stops [OF assms(1), of "\<lambda>_ w. I (files w)", OF I] validD [OF assms(2)]
    by blast
  with run show "I (files w')"
    using validD [OF assms(2)] by fastforce
qed

lemma valid_and_then:
  assumes "valid P m R" and "\<And>e fs. R (Inl e) fs \<Longrightarrow> Q (Inl e) fs"
    and "\<And>x. valid (R (Inr x)) (f x) Q"
  shows "valid P (and_then m f) Q"
  unfolding and_then_def
proof (rule valid_bind [OF assms(1)])
  fix r
  show "valid (R r) (case r of Inl e \<Rightarrow> ret (Inl e) | Inr x \<Rightarrow> f x) Q"
    using assms(2,3) by (cases r) (auto simp: valid_def)
qed

lemma valid_returns: "valid P m Q \<Longrightarrow> returns m S \<Longrightarrow> valid P m (\<lambda>r fs. Q r fs \<and> S r)"
  by (auto simp: valid_def returns_def) (metis fst_conv)

lemma valid_any: "valid P m (\<lambda>_ _. True)"
  by (simp add: valid_def)

section \<open>Scripts of commands\<close>

text \<open>
  A reference interpreter for command scripts. A script is a list of entries: a command that must
  exit with status zero, a command whose outcome does not matter, a file that is written if possible,
  and a command with a fallback, other commands that must succeed when it does not. The script stops
  at the first entry that fails.
\<close>

datatype entry =
    Must "string list"
  | May "string list"
  | Put string string
  | Else "string list" "string list list"

definition exits_zero :: "'j env \<Rightarrow> string list \<Rightarrow> world \<Rightarrow> bool" where
  "exits_zero E argv w \<longleftrightarrow>
     (case ans_output (os E) w (Output argv) of
        Inl _ \<Rightarrow> False
      | Inr out \<Rightarrow> status_code out = Some 0)"

fun weight :: "entry \<Rightarrow> nat" where
  "weight (Else argv alt) = 1 + length alt"
| "weight _ = 1"

function play :: "'j env \<Rightarrow> entry list \<Rightarrow> world \<Rightarrow> bool \<times> world" where
  "play E [] w = (True, w)"
| "play E (Must argv # es) w =
     (if exits_zero E argv w then play E es (step E (Output argv) w)
      else (False, step E (Output argv) w))"
| "play E (May argv # es) w = play E es (step E (Output argv) w)"
| "play E (Put path body # es) w = play E es (snd (run_state (fs_write E path body) w))"
| "play E (Else argv alt # es) w =
     play E ((if exits_zero E argv w then [] else map Must alt) @ es) (step E (Output argv) w)"
  by pat_completeness auto
termination
  by (relation "measure (\<lambda>(E, es, w). sum_list (map weight es))") (auto simp: comp_def sum_list_triv)

lemma play_append:
  "play E (es @ fs) w = (case play E es w of (ok, w1) \<Rightarrow> if ok then play E fs w1 else (False, w1))"
  by (induction E es w rule: play.induct) auto

text \<open>A script that stops early ends with the command that failed.\<close>

lemma play_stops:
  "play E es w = (ok, w') \<Longrightarrow>
   ok \<or> (\<exists>argv w1. later w w1 \<and> \<not> exits_zero E argv w1 \<and> w' = step E (Output argv) w1)"
proof (induction E es w rule: play.induct)
  case (2 E argv es w)
  show ?case
  proof (cases "exits_zero E argv w")
    case True
    with 2 show ?thesis
      by (auto intro: later_trans [OF later_step])
  next
    case False
    with 2 show ?thesis
      by (intro disjI2 exI [of _ argv] exI [of _ w]) simp
  qed
next
  case (4 E path body es w)
  have "later w (snd (run_state (fs_write E path body) w))"
    using steady_fs(1) unfolding steady_def by blast
  with 4 show ?case
    by (auto intro: later_trans)
qed (auto split: if_splits intro: later_trans [OF later_step] later_refl)

text \<open>A program implements a script: same success, same final world.\<close>

definition plays :: "'j env \<Rightarrow> 'a res io \<Rightarrow> entry list \<Rightarrow> bool" where
  "plays E m es \<longleftrightarrow> (\<forall>w. play E es w = (is_ok (fst (run_state m w)), snd (run_state m w)))"

lemma playsD: "plays E m es \<Longrightarrow> play E es w = (is_ok (fst (run_state m w)), snd (run_state m w))"
  by (simp add: plays_def)

lemma plays_seq:
  assumes "plays E m es" and "\<And>x. plays E (f x) fs"
  shows "plays E (and_then m f) (es @ fs)"
  unfolding plays_def
proof
  fix w
  obtain r w1 where m: "run_state m w = (r, w1)"
    by (cases "run_state m w")
  show "play E (es @ fs) w =
      (is_ok (fst (run_state (and_then m f) w)), snd (run_state (and_then m f) w))"
    using playsD [OF assms(1), of w] playsD [OF assms(2)] m
    by (cases r) (auto simp: play_append run_and_then is_ok_def)
qed

lemma plays_ctx: "plays E m es \<Longrightarrow> plays E (ctx msg m) es"
  by (auto simp: plays_def run_map_res with_context_def is_ok_def split: prod.splits sum.splits)

lemma plays_ok: "plays E (ret (Ok x)) []"
  by (simp add: plays_def)

end
