(* ===== verification/EnvSetup.thy ===== *)
theory EnvSetup
  imports FileLogic
begin

text \<open>
  \<open>env.rs\<close>: staging and removing the test environment. The topology is built with \<open>ip\<close> commands, the
  daemon's configuration is backed up and replaced, \<open>fw-verify.conf\<close> is generated, and on Android the
  keystore is derived and the daemon restarted under a deadline.
\<close>

section \<open>Paths and defaults\<close>

definition IDD_ETC :: string where "IDD_ETC = ''/etc/idd''"

definition FW_CONFIG :: string where "FW_CONFIG = ''/etc/idd/idps-fw.yaml''"

definition FW_BACKUP :: string where "FW_BACKUP = ''/etc/idd/idps-fw.yaml.fwv-bak''"

definition FWV_CONF :: string where "FWV_CONF = ''/etc/idd/fw-verify.conf''"

definition KEYSTORE :: string where "KEYSTORE = ''/data/idd/keys/aes.keystore''"

definition DEFAULT_TARGET_IP :: ipv4 where "DEFAULT_TARGET_IP = Ipv4 10 123 0 1"

definition DEFAULT_PEER_IP :: ipv4 where "DEFAULT_PEER_IP = Ipv4 10 123 0 2"

definition DEFAULT_DEBUG_VIN :: string where "DEFAULT_DEBUG_VIN = ''FWVERIFYTEST00001''"

definition DEFAULT_DEBUG_DSN :: string where "DEFAULT_DEBUG_DSN = ''FWVERIFYTESTDSN01''"

definition POLICY_RULE_PREF :: string where "POLICY_RULE_PREF = ''1000''"

section \<open>Topology parameters\<close>

record Topology =
  tp_netns :: string
  tp_target_iface :: string
  tp_peer_iface :: string
  tp_target_ip :: ipaddr
  tp_peer_ip :: ipaddr
  tp_prefix :: u8
  tp_policy_route :: bool

definition topology_from :: "GlobalArgs \<Rightarrow> Topology" where
  "topology_from g =
     \<lparr>tp_netns = ga_peer_netns g, tp_target_iface = ga_target_iface g,
      tp_peer_iface = ga_peer_iface g,
      tp_target_ip = (case ga_target_ip g of Some ip \<Rightarrow> ip | None \<Rightarrow> V4 DEFAULT_TARGET_IP),
      tp_peer_ip = (case ga_peer_ip g of Some ip \<Rightarrow> ip | None \<Rightarrow> V4 DEFAULT_PEER_IP),
      tp_prefix = ga_veth_prefix g, tp_policy_route = (ga_mode g = Android)\<rparr>"

text \<open>\<open>checked_shl\<close> refuses a shift by the width or more; the mask is then zero.\<close>

definition checked_shl :: "'a::len word \<Rightarrow> nat \<Rightarrow> 'a word option" where
  "checked_shl x n = (if n < LENGTH('a) then Some (push_bit n x) else None)"

definition prefix_mask :: "nat \<Rightarrow> 'a::len word" where
  "prefix_mask p = opt_or 0 (checked_shl (- 1) (LENGTH('a) - min p LENGTH('a)))"

definition network :: "ipaddr \<Rightarrow> u8 \<Rightarrow> ipaddr" where
  "network ip p =
     (case ip of
        V4 a \<Rightarrow> V4 (of_bits (to_bits a AND prefix_mask (unat p)))
      | V6 a \<Rightarrow> V6 (a AND prefix_mask (unat p)))"

definition subnet :: "Topology \<Rightarrow> string" where
  "subnet topo = show_ip (network (tp_target_ip topo) (tp_prefix topo)) @ ''/'' @ show_word (tp_prefix topo)"

section \<open>Running commands\<close>

definition run_cmd :: "'j env \<Rightarrow> string \<Rightarrow> string list \<Rightarrow> unit res io" where
  "run_cmd E program args =
     and_then (ctx (''failed to spawn `'' @ program @ '' '' @ join '' '' args @ ''`'')
                 (map_res lift_io (command_output E (program # args)))) (\<lambda>out.
       ret (if \<not> success out
            then Err [''`'' @ program @ '' '' @ join '' '' args @ ''` failed: '' @ trim (stderr out)]
            else Ok ()))"

definition run_ip :: "'j env \<Rightarrow> string list \<Rightarrow> unit res io" where
  "run_ip E args = run_cmd E ''ip'' args"

definition run_ip_netns :: "'j env \<Rightarrow> string \<Rightarrow> string list \<Rightarrow> unit res io" where
  "run_ip_netns E netns args = run_cmd E ''ip'' ([''netns'', ''exec'', netns, ''ip''] @ args)"

definition ignore_ip :: "'j env \<Rightarrow> string list \<Rightarrow> unit io" where
  "ignore_ip E args = do { command_output E (''ip'' # args); ret () }"

section \<open>The topology\<close>

definition rule_args :: "string \<Rightarrow> Topology \<Rightarrow> string list" where
  "rule_args verb topo =
     [''rule'', verb, ''pref'', POLICY_RULE_PREF, ''to'', subnet topo, ''lookup'', ''main'']"

text \<open>At most \<open>n\<close> deletions, up to the first that fails.\<close>

fun delete_rules :: "'j env \<Rightarrow> Topology \<Rightarrow> nat \<Rightarrow> unit io" where
  "delete_rules E topo 0 = ret ()"
| "delete_rules E topo (Suc n) =
     do {
       r \<leftarrow> command_output E (''ip'' # rule_args ''del'' topo);
       if (case r of Inr out \<Rightarrow> success out | Inl _ \<Rightarrow> False) then delete_rules E topo n else ret ()
     }"

definition teardown_topology :: "'j env \<Rightarrow> Topology \<Rightarrow> unit io" where
  "teardown_topology E topo =
     do {
       ignore_ip E [''netns'', ''del'', tp_netns topo];
       ignore_ip E [''link'', ''del'', tp_target_iface topo];
       delete_rules E topo 16
     }"

definition veth_args :: "Topology \<Rightarrow> string list" where
  "veth_args topo =
     [''link'', ''add'', tp_target_iface topo, ''type'', ''veth'', ''peer'', ''name'',
      tp_peer_iface topo]"

definition create_veth :: "'j env \<Rightarrow> Topology \<Rightarrow> unit res io" where
  "create_veth E topo =
     do {
       direct \<leftarrow> run_ip E (veth_args topo @ [''netns'', tp_netns topo]);
       if is_ok direct then ret (Ok ())
       else
         and_then (ctx ''failed to create veth pair'' (run_ip E (veth_args topo))) (\<lambda>_.
           ctx ''failed to move peer veth into the namespace''
             (run_ip E [''link'', ''set'', tp_peer_iface topo, ''netns'', tp_netns topo]))
     }"

definition ipv6_knob :: "string \<Rightarrow> string" where
  "ipv6_knob iface = ''/proc/sys/net/ipv6/conf/'' @ iface @ ''/disable_ipv6''"

definition disable_ipv6 :: "'j env \<Rightarrow> Topology \<Rightarrow> unit io" where
  "disable_ipv6 E topo =
     do {
       fs_write E (ipv6_knob (tp_target_iface topo)) ''1'';
       command_output E [''ip'', ''netns'', ''exec'', tp_netns topo, ''sh'', ''-c'',
         ''echo 1 > '' @ ipv6_knob (tp_peer_iface topo)];
       ret ()
     }"

definition addr_args :: "ipaddr \<Rightarrow> u8 \<Rightarrow> string \<Rightarrow> string list" where
  "addr_args ip p iface = [''addr'', ''add'', show_ip ip @ ''/'' @ show_word p, ''dev'', iface]"

definition create_topology :: "'j env \<Rightarrow> Topology \<Rightarrow> unit res io" where
  "create_topology E topo =
     and_then (run_ip E [''netns'', ''add'', tp_netns topo]) (\<lambda>_.
     and_then (create_veth E topo) (\<lambda>_.
     do {
       disable_ipv6 E topo;
       and_then (run_ip E (addr_args (tp_target_ip topo) (tp_prefix topo) (tp_target_iface topo))) (\<lambda>_.
       and_then (run_ip E [''link'', ''set'', tp_target_iface topo, ''up'']) (\<lambda>_.
       and_then (run_ip_netns E (tp_netns topo) [''link'', ''set'', ''lo'', ''up'']) (\<lambda>_.
       and_then (run_ip_netns E (tp_netns topo)
                   (addr_args (tp_peer_ip topo) (tp_prefix topo) (tp_peer_iface topo))) (\<lambda>_.
       and_then (run_ip_netns E (tp_netns topo) [''link'', ''set'', tp_peer_iface topo, ''up'']) (\<lambda>_.
         if tp_policy_route topo
         then ctx ''failed to add the main-table ip rule for the test subnet''
                (run_ip E (rule_args ''add'' topo))
         else ret (Ok ()))))))
     }))"

section \<open>Configuration files\<close>

definition backup_fw_config :: "'j env \<Rightarrow> unit res io" where
  "backup_fw_config E =
     do {
       here \<leftarrow> path_exists E FW_CONFIG;
       if here then
         do {
           saved \<leftarrow> path_exists E FW_BACKUP;
           if \<not> saved
           then ctx (''failed to back up '' @ FW_CONFIG) (map_res lift_io (fs_copy E FW_CONFIG FW_BACKUP))
           else ret (Ok ())
         }
       else ret (Ok ())
     }"

definition restore_fw_config :: "'j env \<Rightarrow> bool io" where
  "restore_fw_config E =
     do {
       saved \<leftarrow> path_exists E FW_BACKUP;
       if saved then
         do {
           r \<leftarrow> fs_copy E FW_BACKUP FW_CONFIG;
           (case r of
              Inl _ \<Rightarrow> ret False
            | Inr _ \<Rightarrow> do { fs_remove E FW_BACKUP; ret True })
         }
       else ret False
     }"

text \<open>A text file from its lines, each ended by a line feed.\<close>

definition unlines :: "string list \<Rightarrow> string" where
  "unlines ls = concat (map (\<lambda>l. l @ [CHR 0x0A]) ls)"

definition quoted :: "string \<Rightarrow> string" where
  "quoted s = CHR 0x22 # s @ [CHR 0x22]"

definition fw_config_lines :: "GlobalArgs \<Rightarrow> Topology \<Rightarrow> string list" where
  "fw_config_lines g topo =
     [''runtime_config_path: /etc/idd/idps.yaml'',
      ''state_dir: /data/idd/idps-fw'',
      ''state_db_path: '' @ ga_state_db g,
      ''ebpf_object_path: /etc/idd/idps-fw.bpf.o'',
      ''cgroup_path: /sys/fs/cgroup'',
      ''tc_ingress_ifaces:'', ''  - '' @ tp_target_iface topo,
      ''tc_egress_ifaces:'', ''  - '' @ tp_target_iface topo,
      ''rule_poll_interval_secs: 3'',
      ''initial_rule_timeout_secs: 30'',
      ''event_poll_interval_ms: 100'',
      ''identity_refresh_interval_secs: 10'',
      ''report_flush_interval_ms: 500'',
      ''report_ack_timeout_secs: 10'',
      ''traffic_cycle_secs: 5'',
      ''interface_categories:'',
      ''  - exact: '' @ tp_target_iface topo, ''    category: wifi'',
      ''  - prefix: rmnet'', ''    category: mobile'',
      ''  - prefix: ccmni'', ''    category: mobile'',
      ''identity_overrides:'',
      ''  - identity_key: '' @ quoted (ga_app_identity_key g),
      ''    uid: '' @ show_word (ga_app_uid g),
      ''    pkg_name: '' @ quoted (ga_app_pkg g),
      ''    app_name: '' @ quoted (ga_app_name g)]"

definition write_fw_config :: "'j env \<Rightarrow> GlobalArgs \<Rightarrow> Topology \<Rightarrow> unit res io" where
  "write_fw_config E g topo =
     ctx (''failed to write '' @ FW_CONFIG @ '' (is the partition writable?)'')
       (map_res lift_io (fs_write E FW_CONFIG (unlines (fw_config_lines g topo))))"

text \<open>
  \<open>fw-verify.conf\<close>: a line of the file is a setting or a comment. The settings that are always
  written come first, the ones of the VSOC client follow in host mode.
\<close>

definition setting :: "string \<times> string \<Rightarrow> string" where
  "setting kv = fst kv @ '' = '' @ snd kv"

definition fwv_base :: "GlobalArgs \<Rightarrow> Topology \<Rightarrow> (string \<times> string) list" where
  "fwv_base g topo =
     [(''mode'', show_mode (ga_mode g)),
      (''target_iface'', tp_target_iface topo),
      (''peer_iface'', tp_peer_iface topo),
      (''peer_netns'', tp_netns topo),
      (''target_ip'', show_ip (tp_target_ip topo)),
      (''peer_ip'', show_ip (tp_peer_ip topo)),
      (''idps_fw'', ga_idps_fw g),
      (''state_db'', ga_state_db g),
      (''app_uid'', show_word (ga_app_uid g)),
      (''app_identity_key'', ga_app_identity_key g),
      (''app_pkg'', ga_app_pkg g),
      (''app_name'', ga_app_name g)]"

definition conf_banner :: string where
  "conf_banner = ''# fw-verify config (generated by `fw-verify setup-env`).''"

definition conf_hint :: string where
  "conf_hint = ''# set vsoc_cert/vsoc_key to the VSOC mTLS client certificate before running''"

definition fwv_vsoc :: "GlobalArgs \<Rightarrow> string list" where
  "fwv_vsoc g =
     setting (''vsoc_url'', case ga_vsoc_url g of Some u \<Rightarrow> u | None \<Rightarrow> default_vsoc_url) #
     (case (ga_vsoc_cert g, ga_vsoc_key g) of
        (Some cert, Some key) \<Rightarrow>
          [setting (''vsoc_cert'', cert), setting (''vsoc_key'', key)] @
          (case ga_vsoc_cacert g of None \<Rightarrow> [] | Some cacert \<Rightarrow> [setting (''vsoc_cacert'', cacert)])
      | _ \<Rightarrow> [conf_hint])"

definition fwv_conf_lines :: "GlobalArgs \<Rightarrow> Topology \<Rightarrow> string list" where
  "fwv_conf_lines g topo =
     conf_banner #
     map setting (fwv_base g topo) @ (if ga_mode g = Host then fwv_vsoc g else [])"

definition write_fwv_conf :: "'j env \<Rightarrow> GlobalArgs \<Rightarrow> Topology \<Rightarrow> unit res io" where
  "write_fwv_conf E g topo =
     ctx (''failed to write '' @ FWV_CONF)
       (map_res lift_io (fs_write E FWV_CONF (unlines (fwv_conf_lines g topo))))"

section \<open>Services\<close>

definition write_debug_id :: "'j env \<Rightarrow> string \<Rightarrow> string \<Rightarrow> unit res io" where
  "write_debug_id E name value =
     (let path = ''/data/idd/'' @ name in
      and_then (ctx (''failed to write '' @ path) (map_res lift_io (fs_write E path value))) (\<lambda>_.
      do {
        run_cmd E ''chmod'' [''644'', path];
        command_output E [''restorecon'', path];
        ret (Ok ())
      }))"

text \<open>\<open>Command::status\<close> is an \<open>output\<close> whose text nobody reads.\<close>

definition restart_service :: "'j env \<Rightarrow> Mode \<Rightarrow> string \<Rightarrow> unit res io" where
  "restart_service E mode service =
     (case mode of
        Android \<Rightarrow>
          do {
            command_output E [''stop'', service];
            sleep E 500;
            and_then (ctx (''failed to start '' @ service)
                        (map_res lift_io (command_output E [''start'', service]))) (\<lambda>_.
              ret (Ok ()))
          }
      | Host \<Rightarrow>
          do {
            status \<leftarrow> command_output E [''systemctl'', ''try-restart'', service];
            if \<not> (case status of Inr s \<Rightarrow> success s | Inl _ \<Rightarrow> False) then
              do {
                eprintln E (''  note: could not auto-restart '' @ service @
                  ''; restart it manually to apply the config'');
                ret (Ok ())
              }
            else ret (Ok ())
          })"

text \<open>Both waits give the daemon thirty seconds and look once a second.\<close>

definition WAIT_NS :: nat where "WAIT_NS = 30000000000"

definition keystore_missing :: string where
  "keystore_missing =
     ''keystore still missing after injecting VIN/DSN and restarting idps-server; check that idps-server is running and /data/idd is writable''"

definition keystore_round :: "'j env \<Rightarrow> nat \<Rightarrow> unit \<Rightarrow> (unit res + unit) io" where
  "keystore_round E deadline _ =
     do {
       present \<leftarrow> path_exists E KEYSTORE;
       if present then
         do { println E ''  keystore derived by idps-server''; ret (Inl (Ok ())) }
       else do {
         now \<leftarrow> instant_now E;
         if deadline \<le> now then ret (Inl (Err [keystore_missing]))
         else do { sleep E 1000; ret (Inr ()) }
       }
     }"

definition connected :: "'j env \<Rightarrow> io_error + proc_output \<Rightarrow> bool" where
  "connected E r =
     (case r of
        Inl _ \<Rightarrow> False
      | Inr out \<Rightarrow>
          (case j_parse (json E) (stdout out) of
             Inl _ \<Rightarrow> False
           | Inr value \<Rightarrow>
               Option.bind (j_get (json E) value ''connected'') (j_as_bool (json E)) = Some True))"

definition health_argv :: "GlobalArgs \<Rightarrow> string list" where
  "health_argv g = [''sh'', ''-c'', ga_idps_fw g @ '' health'']"

definition healthy_round :: "'j env \<Rightarrow> GlobalArgs \<Rightarrow> nat \<Rightarrow> unit \<Rightarrow> (bool + unit) io" where
  "healthy_round E g deadline _ =
     do {
       r \<leftarrow> command_output E (health_argv g);
       if connected E r then ret (Inl True)
       else do {
         now \<leftarrow> instant_now E;
         if deadline \<le> now then ret (Inl False)
         else do { sleep E 1000; ret (Inr ()) }
       }
     }"

lemma paced_look:
  "paced d (millis 1000)
     (do { now \<leftarrow> instant_now E; if d \<le> now then ret (Inl r) else do { sleep E 1000; ret (Inr s) } })"
  unfolding paced_def by (auto simp: run_io later_def millis_def prefix_def split: if_splits)

lemma paced_keystore: "paced d (millis 1000) (keystore_round E d s)"
  unfolding keystore_round_def by (intro paced_intros later_intros paced_look)

lemma paced_healthy: "paced d (millis 1000) (healthy_round E g d s)"
  unfolding healthy_round_def by (intro paced_intros later_intros paced_look)

lemma second_pos: "0 < millis 1000"
  by (simp add: millis_def)

function keystore_loop :: "'j env \<Rightarrow> nat \<Rightarrow> unit \<Rightarrow> world \<Rightarrow> unit res \<times> world" where
  "keystore_loop E deadline s w =
     (case run_state (keystore_round E deadline s) w of
        (Inl r, w') \<Rightarrow> (r, w')
      | (Inr s', w') \<Rightarrow> keystore_loop E deadline s' w')"
  by pat_completeness auto
termination
  by (relation "measure (\<lambda>(E, deadline, s, w). deadline - clock w)")
    (auto intro: paced_measure [OF sym paced_keystore second_pos])

function healthy_loop :: "'j env \<Rightarrow> GlobalArgs \<Rightarrow> nat \<Rightarrow> unit \<Rightarrow> world \<Rightarrow> bool \<times> world" where
  "healthy_loop E g deadline s w =
     (case run_state (healthy_round E g deadline s) w of
        (Inl r, w') \<Rightarrow> (r, w')
      | (Inr s', w') \<Rightarrow> healthy_loop E g deadline s' w')"
  by pat_completeness auto
termination
  by (relation "measure (\<lambda>(E, g, deadline, s, w). deadline - clock w)")
    (auto intro: paced_measure [OF sym paced_healthy second_pos])

declare keystore_loop.simps [simp del] healthy_loop.simps [simp del]

interpretation wait_keystore: deadline_loop
  "keystore_round E deadline" "keystore_loop E deadline" deadline "millis 1000" for E deadline
  by unfold_locales (rule paced_keystore, rule second_pos, rule keystore_loop.simps)

interpretation wait_health: deadline_loop
  "healthy_round E g deadline" "healthy_loop E g deadline" deadline "millis 1000" for E g deadline
  by unfold_locales (rule paced_healthy, rule second_pos, rule healthy_loop.simps)

definition ensure_keystore_android :: "'j env \<Rightarrow> GlobalArgs \<Rightarrow> unit res io" where
  "ensure_keystore_android E g =
     do {
       present \<leftarrow> path_exists E KEYSTORE;
       if present then do { println E ''  keystore already present''; ret (Ok ()) }
       else
         and_then (write_debug_id E ''vin_debug'' DEFAULT_DEBUG_VIN) (\<lambda>_.
         and_then (write_debug_id E ''dsn_debug'' DEFAULT_DEBUG_DSN) (\<lambda>_.
         do {
           println E ''  injected /data/idd/vin_debug + dsn_debug; restarting idps-server to derive the keystore'';
           and_then (restart_service E (ga_mode g) ''idps-server'') (\<lambda>_.
           do {
             now \<leftarrow> instant_now E;
             State (keystore_loop E (now + WAIT_NS) ())
           })
         }))
     }"

definition wait_healthy :: "'j env \<Rightarrow> GlobalArgs \<Rightarrow> bool io" where
  "wait_healthy E g =
     do { now \<leftarrow> instant_now E; State (healthy_loop E g (now + WAIT_NS) ()) }"

section \<open>Setup and clean\<close>

fun debug_mode :: "Mode \<Rightarrow> string" where
  "debug_mode Android = ''Android''"
| "debug_mode Host = ''Host''"

definition unhealthy :: string where
  "unhealthy = ''idps-fw unhealthy after applying the fast config; restored the previous one''"

definition setup_daemon :: "'j env \<Rightarrow> GlobalArgs \<Rightarrow> unit res io" where
  "setup_daemon E g =
     (case ga_mode g of
        Android \<Rightarrow>
          and_then (ensure_keystore_android E g) (\<lambda>_.
          and_then (restart_service E (ga_mode g) ''idps-fw'') (\<lambda>_.
          do {
            up \<leftarrow> wait_healthy E g;
            if up then do { println E ''  idps-fw restarted and healthy''; ret (Ok ()) }
            else do {
              eprintln E ''  idps-fw did not become healthy; restoring previous config'';
              restore_fw_config E;
              restart_service E (ga_mode g) ''idps-fw'';
              ret (Err [unhealthy])
            }
          }))
      | Host \<Rightarrow>
          do {
            println E (''  next: (re)start idps-fw to apply this config, then: fw-verify --config '' @
              FWV_CONF @ '' run-all'');
            ret (Ok ())
          })"

definition write_configs :: "'j env \<Rightarrow> GlobalArgs \<Rightarrow> Topology \<Rightarrow> unit res io" where
  "write_configs E g topo =
     and_then (write_fw_config E g topo) (\<lambda>_.
     do {
       println E (''  idps-fw config: '' @ FW_CONFIG @ '' (monitors '' @ tp_target_iface topo @ '')'');
       and_then (write_fwv_conf E g topo) (\<lambda>_.
       do { println E (''  fw-verify config: '' @ FWV_CONF); ret (Ok ()) })
     })"

definition setup_configs :: "'j env \<Rightarrow> GlobalArgs \<Rightarrow> Topology \<Rightarrow> unit res io" where
  "setup_configs E g topo =
     and_then (ctx (''failed to create '' @ IDD_ETC @ '' (is the partition writable?)'')
                 (map_res lift_io (create_dir_all E IDD_ETC))) (\<lambda>_.
     and_then (backup_fw_config E) (\<lambda>_. write_configs E g topo))"

definition env_setup :: "'j env \<Rightarrow> GlobalArgs \<Rightarrow> unit res io" where
  "env_setup E g =
     (let topo = topology_from g in
      do {
        println E (''fw-verify: setting up '' @ debug_mode (ga_mode g) @ ''-mode test environment'');
        teardown_topology E topo;
        and_then (create_topology E topo) (\<lambda>_.
        do {
          println E (''  topology: '' @ tp_target_iface topo @ ''('' @ show_ip (tp_target_ip topo) @
            '') <-> netns '' @ tp_netns topo @ '':'' @ tp_peer_iface topo @ ''('' @
            show_ip (tp_peer_ip topo) @ '')'');
          (if tp_policy_route topo
           then println E (''  policy route: ip rule pref '' @ POLICY_RULE_PREF @ '' to '' @ subnet topo @
             '' lookup main'')
           else ret ());
          and_then (setup_configs E g topo) (\<lambda>_. setup_daemon E g)
        })
      })"

definition env_clean :: "'j env \<Rightarrow> GlobalArgs \<Rightarrow> unit res io" where
  "env_clean E g =
     (let topo = topology_from g in
      do {
        teardown_topology E topo;
        restored \<leftarrow> restore_fw_config E;
        (if restored \<and> ga_mode g = Android
         then do { restart_service E (ga_mode g) ''idps-fw''; ret () }
         else ret ());
        fs_remove E FWV_CONF;
        println E (''fw-verify: removed netns '' @ tp_netns topo @ '', veth '' @ tp_target_iface topo @
          '', '' @ FWV_CONF @ (if restored then ''; restored idps-fw config'' else []));
        ret (Ok ())
      })"

section \<open>Lemmas\<close>

lemma steady_env [later_intros]:
  "steady (run_cmd E program args)" "steady (run_ip E args)" "steady (run_ip_netns E ns args)"
  "steady (ignore_ip E args)"
proof -
  show c: "steady (run_cmd E program args)" for program args
    unfolding run_cmd_def by (intro later_intros)
  show "steady (run_ip E args)" "steady (run_ip_netns E ns args)"
    unfolding run_ip_def run_ip_netns_def by (rule c)+
  show "steady (ignore_ip E args)"
    unfolding ignore_ip_def by (intro later_intros)
qed

lemma steady_restart [later_intros]: "steady (restart_service E mode service)"
  unfolding restart_service_def by (cases mode) (auto intro!: later_intros)

lemma steady_wait_healthy [later_intros]: "steady (wait_healthy E g)"
  unfolding wait_healthy_def by (intro later_intros wait_health.steady_loop)

lemma steady_delete_rules [later_intros]: "steady (delete_rules E topo n)"
  by (induction n) (auto intro!: later_intros)

lemma steady_topology [later_intros]:
  "steady (teardown_topology E topo)" "steady (create_topology E topo)"
  unfolding teardown_topology_def create_topology_def create_veth_def disable_ipv6_def
  by (intro later_intros)+

lemma steady_configs [later_intros]:
  "steady (backup_fw_config E)" "steady (restore_fw_config E)" "steady (setup_configs E g topo)"
proof -
  show b: "steady (backup_fw_config E)"
    unfolding backup_fw_config_def by (intro later_intros)
  show "steady (restore_fw_config E)"
    unfolding restore_fw_config_def by (intro later_intros)
  show "steady (setup_configs E g topo)"
    unfolding setup_configs_def write_configs_def write_fw_config_def write_fwv_conf_def by (intro later_intros b)
qed

lemma steady_keystore [later_intros]: "steady (ensure_keystore_android E g)"
  unfolding ensure_keystore_android_def write_debug_id_def Let_def
  by (intro later_intros wait_keystore.steady_loop)

lemma steady_setup [later_intros]: "steady (env_setup E g)" "steady (env_clean E g)"
proof -
  have "steady (setup_daemon E g)"
    unfolding setup_daemon_def by (cases "ga_mode g") (auto intro!: later_intros)
  then show "steady (env_setup E g)"
    unfolding env_setup_def Let_def by (intro later_intros)
  show "steady (env_clean E g)"
    unfolding env_clean_def Let_def by (intro later_intros)
qed

subsection \<open>The operator's configuration\<close>

text \<open>
  The original configuration \<open>c\<close> can still be recovered: it is in the backup, or there is no backup
  and the daemon's configuration is the original.
\<close>

definition recoverable :: "string \<Rightarrow> fs \<Rightarrow> bool" where
  "recoverable c fs \<longleftrightarrow>
     fs FW_BACKUP = Some c \<or> fs FW_BACKUP = None \<and> fs FW_CONFIG = Some c"

definition saved_as :: "string \<Rightarrow> fs \<Rightarrow> bool" where
  "saved_as c fs \<longleftrightarrow> fs FW_BACKUP = Some c"

abbreviation cfg_files :: "string set" where
  "cfg_files \<equiv> {FW_CONFIG, FW_BACKUP}"

lemma about_cfg [simp]:
  "about cfg_files (recoverable c)" "about cfg_files (saved_as c)"
  "about cfg_files (\<lambda>fs. fs FW_CONFIG = Some c)"
  by (auto simp: about_def recoverable_def saved_as_def)

lemma config_ne_backup [simp]: "FW_CONFIG \<noteq> FW_BACKUP" "FW_BACKUP \<noteq> FW_CONFIG"
  by (simp_all add: FW_CONFIG_def FW_BACKUP_def)

lemma other_paths [simp]:
  "ipv6_knob i \<notin> cfg_files" "FWV_CONF \<notin> cfg_files" "''/data/idd/'' @ n \<notin> cfg_files"
  by (simp_all add: FW_CONFIG_def FW_BACKUP_def FWV_CONF_def ipv6_knob_def)

lemma alone_files:
  "alone E ps \<Longrightarrow> p \<in> ps \<Longrightarrow> meddle (os E) w a p = files w p"
  by (simp add: alone_def)

lemma keeps_cmds:
  assumes "alone E cfg_files" and "about cfg_files I"
  shows "keeps I (run_cmd E program args)" "keeps I (run_ip E args)" "keeps I (run_ip_netns E ns args)"
    "keeps I (ignore_ip E args)" "keeps I (restart_service E mode service)"
proof -
  note p = keeps_primitives [OF assms]
  show c: "keeps I (run_cmd E program args)" for program args
    unfolding run_cmd_def by (intro valid_intros p)
  show "keeps I (run_ip E args)" "keeps I (run_ip_netns E ns args)"
    unfolding run_ip_def run_ip_netns_def by (rule c)+
  show "keeps I (ignore_ip E args)"
    unfolding ignore_ip_def by (intro valid_intros p)
  show "keeps I (restart_service E mode service)"
    unfolding restart_service_def by (cases mode) (auto intro!: valid_intros p)
qed

lemma keeps_topology:
  assumes "alone E cfg_files" and "about cfg_files I"
  shows "keeps I (teardown_topology E topo)" "keeps I (create_topology E topo)"
proof -
  note p = keeps_primitives [OF assms] keeps_cmds [OF assms] keeps_fs [OF assms other_paths(1)]
  have "keeps I (delete_rules E topo n)" for n
    by (induction n) (auto intro!: valid_intros p)
  then show "keeps I (teardown_topology E topo)"
    unfolding teardown_topology_def by (intro valid_intros p)
  show "keeps I (create_topology E topo)"
    unfolding create_topology_def create_veth_def disable_ipv6_def by (intro valid_intros p)
qed

lemma keeps_waits:
  assumes "alone E cfg_files" and "about cfg_files I"
  shows "keeps I (ensure_keystore_android E g)" "keeps I (wait_healthy E g)"
proof -
  note p = keeps_primitives [OF assms] keeps_cmds [OF assms] keeps_fs [OF assms other_paths(3)]
  have "keeps I (keystore_round E d s)" for d s
    unfolding keystore_round_def by (intro valid_intros p)
  then have k: "keeps I (State (keystore_loop E d s))" for d s
    by (rule keeps_loop [OF wait_keystore.deadline_loop_axioms])
  have "keeps I (healthy_round E g d s)" for d s
    unfolding healthy_round_def by (intro valid_intros p)
  then have h: "keeps I (State (healthy_loop E g d s))" for d s
    by (rule keeps_loop [OF wait_health.deadline_loop_axioms])
  show "keeps I (ensure_keystore_android E g)"
    unfolding ensure_keystore_android_def write_debug_id_def Let_def by (intro valid_intros p k)
  show "keeps I (wait_healthy E g)"
    unfolding wait_healthy_def by (intro valid_intros p h)
qed

lemma valid_backup:
  assumes "alone E cfg_files"
  shows "valid (recoverable c) (backup_fw_config E)
    (\<lambda>r fs. recoverable c fs \<and> (is_ok r \<longrightarrow> saved_as c fs))"
  using alone_files [OF assms]
  by (auto simp: valid_def backup_fw_config_def recoverable_def saved_as_def run_io fs_copy_def
      Let_def is_ok_def lift_io_def with_context_def split: if_splits option.splits sum.splits)

lemma valid_restore:
  assumes "alone E cfg_files"
  shows "valid (recoverable c) (restore_fw_config E) (\<lambda>r. recoverable c)"
  using alone_files [OF assms]
  by (auto simp: valid_def restore_fw_config_def recoverable_def run_io fs_copy_def fs_remove_def
      Let_def split: if_splits option.splits sum.splits)

lemma valid_restore_back:
  assumes "alone E cfg_files" and "\<And>w. ans_unit (os E) w (FsCopy FW_BACKUP FW_CONFIG) = Inr ()"
  shows "valid (recoverable c) (restore_fw_config E) (\<lambda>r fs. fs FW_CONFIG = Some c)"
  using alone_files [OF assms(1)] assms(2)
  by (auto simp: valid_def restore_fw_config_def recoverable_def run_io fs_copy_def fs_remove_def
      Let_def split: if_splits option.splits sum.splits)

lemma keeps_write_config: "alone E cfg_files \<Longrightarrow> keeps (saved_as c) (fs_write E FW_CONFIG body)"
  by (auto simp: valid_def fs_write_def saved_as_def alone_def Let_def split: sum.splits)

lemma keeps_configs:
  assumes "alone E cfg_files"
  shows "keeps (recoverable c) (setup_configs E g topo)"
proof -
  note p = keeps_primitives [OF assms about_cfg(2)] keeps_fs [OF assms about_cfg(2) other_paths(2)]
    keeps_write_config [OF assms]
  have "keeps (saved_as c) (write_configs E g topo)"
    unfolding write_configs_def write_fw_config_def write_fwv_conf_def by (intro valid_intros p)
  then have rest: "valid (\<lambda>fs. recoverable c fs \<and> (is_ok (Inr x) \<longrightarrow> saved_as c fs))
      (write_configs E g topo) (\<lambda>_. recoverable c)" for x :: unit
    by (rule valid_conseq) (auto simp: saved_as_def recoverable_def)
  show ?thesis
    unfolding setup_configs_def
    by (rule keeps_and_then)
      (intro valid_intros keeps_primitives [OF assms about_cfg(1)],
        rule valid_and_then [OF valid_backup [OF assms] _ rest], simp)
qed

lemma keeps_daemon:
  assumes "alone E cfg_files"
  shows "keeps (recoverable c) (setup_daemon E g)"
proof -
  note p = keeps_primitives [OF assms about_cfg(1)] keeps_cmds [OF assms about_cfg(1)]
    keeps_waits [OF assms about_cfg(1)] valid_restore [OF assms]
  show ?thesis
    unfolding setup_daemon_def by (cases "ga_mode g") (auto intro!: valid_intros p)
qed

lemma keeps_env:
  assumes "alone E cfg_files"
  shows "keeps (recoverable c) (env_setup E g)" "keeps (recoverable c) (env_clean E g)"
proof -
  note p = keeps_primitives [OF assms about_cfg(1)] keeps_cmds [OF assms about_cfg(1)]
    keeps_topology [OF assms about_cfg(1)] keeps_fs [OF assms about_cfg(1) other_paths(2)]
    keeps_configs [OF assms] keeps_daemon [OF assms] valid_restore [OF assms]
  show "keeps (recoverable c) (env_setup E g)" "keeps (recoverable c) (env_clean E g)"
    unfolding env_setup_def env_clean_def Let_def by (intro valid_intros p)+
qed

lemma clean_restores:
  assumes "alone E cfg_files" and "\<And>w. ans_unit (os E) w (FsCopy FW_BACKUP FW_CONFIG) = Inr ()"
  shows "valid (recoverable c) (env_clean E g) (\<lambda>r fs. fs FW_CONFIG = Some c)"
proof -
  note p = keeps_primitives [OF assms(1) about_cfg(3)] keeps_cmds [OF assms(1) about_cfg(3)]
    keeps_fs [OF assms(1) about_cfg(3) other_paths(2)]
  show ?thesis
    unfolding env_clean_def Let_def
    by (rule valid_bind [OF keeps_topology(1) [OF assms(1) about_cfg(1)]],
        rule valid_bind [OF valid_restore_back [OF assms]], intro valid_intros p)
qed

text \<open>
  Without a backup \<open>clean-env\<close> leaves the daemon's configuration as it is, so a configuration that
  setup generated on a device that had none stays behind.
\<close>

lemma clean_without_backup:
  assumes "alone E cfg_files"
  shows "valid (\<lambda>fs. fs FW_BACKUP = None \<and> fs FW_CONFIG = Some c) (env_clean E g)
    (\<lambda>r fs. fs FW_CONFIG = Some c)"
proof -
  let ?I = "\<lambda>fs :: fs. fs FW_BACKUP = None \<and> fs FW_CONFIG = Some c"
  have I: "about cfg_files ?I"
    by (auto simp: about_def)
  note p = keeps_primitives [OF assms I] keeps_cmds [OF assms I] keeps_topology [OF assms I]
    keeps_fs [OF assms I other_paths(2)]
  have "keeps ?I (restore_fw_config E)"
    using alone_files [OF assms] by (auto simp: valid_def restore_fw_config_def run_io)
  then have "keeps ?I (env_clean E g)"
    unfolding env_clean_def Let_def by (intro valid_intros p)
  then show ?thesis
    by (rule valid_conseq) simp_all
qed

text \<open>The message of the failed start is not the message of any other failure.\<close>

definition other_error :: "'a res \<Rightarrow> bool" where
  "other_error r \<longleftrightarrow> r \<noteq> Err [unhealthy]"

lemma other_cmd: "returns (run_cmd E program args) other_error"
  by (auto simp: returns_def other_error_def unhealthy_def run_cmd_def run_io lift_io_def
      split: sum.splits)

lemma other_io: "returns (ctx msg (map_res lift_io m)) other_error"
  by (auto simp: returns_def other_error_def run_io lift_io_def split: sum.splits prod.splits)

lemma other_ctx: "returns m other_error \<Longrightarrow> returns (ctx (CHR ''f'' # msg) m) other_error"
  by (auto simp: returns_def other_error_def unhealthy_def run_io with_context_def
      split: sum.splits prod.splits)

lemma other_and_then:
  "returns m other_error \<Longrightarrow> (\<And>x. returns (f x) other_error) \<Longrightarrow> returns (and_then m f) other_error"
  by (auto simp: returns_def other_error_def run_io split: sum.splits prod.splits) (metis fst_conv)

lemma other_ok: "other_error (Inr x)"
  by (simp add: other_error_def)

lemmas other_intros = other_cmd other_io other_ctx other_and_then other_ok returns_intros

lemma other_topology: "returns (create_topology E topo) other_error"
  unfolding create_topology_def create_veth_def run_ip_def run_ip_netns_def by (intro other_intros)

lemma other_configs: "returns (setup_configs E g topo) other_error"
  unfolding setup_configs_def write_configs_def backup_fw_config_def write_fw_config_def write_fwv_conf_def
  by (intro other_intros)

lemma other_restart: "returns (restart_service E mode service) other_error"
  unfolding restart_service_def by (cases mode) (auto intro!: other_intros)

lemma other_keystore: "returns (ensure_keystore_android E g) other_error"
proof -
  have stop: "other_error r" if "run_state (keystore_round E d s) w = (Inl r, w')" for d s w r w'
    using that by (auto simp: keystore_round_def run_io other_error_def unhealthy_def
        keystore_missing_def split: if_splits)
  have "returns (State (keystore_loop E d ())) other_error" for d
    unfolding returns_def
  proof
    fix w
    show "other_error (fst (run_state (State (keystore_loop E d ())) w))"
      using wait_keystore.last_round [of w E d "()"] stop by fastforce
  qed
  then show ?thesis
    unfolding ensure_keystore_android_def write_debug_id_def Let_def
    by (intro other_intros other_restart)
qed

lemma unhealthy_after:
  assumes "run_state (and_then m f) w = (Err [unhealthy], w')" and "returns m other_error" and "steady m"
  obtains x w1 where "run_state m w = (Ok x, w1)" and "later w w1"
    and "run_state (f x) w1 = (Err [unhealthy], w')"
proof -
  obtain q w1 where m: "run_state m w = (q, w1)"
    by (cases "run_state m w")
  have "later w w1" "other_error q"
    using steadyD [OF assms(3) m] returnsD [OF assms(2) m] by simp_all
  with m assms(1) that show thesis
    by (cases q) (auto simp: run_and_then other_error_def)
qed

lemma setup_shape:
  assumes run: "run_state (do { m1; m2; and_then m3 (\<lambda>_. do { m4; m5; and_then m6 (\<lambda>_. m7) }) }) w =
      (Err [unhealthy], w')"
    and k: "keeps I m1" "keeps I m2" "keeps I m3" "keeps I m4" "keeps I m5" and I: "I (files w)"
    and other: "returns m3 other_error" "returns m6 other_error"
    and st: "steady m1" "steady m2" "steady m3" "steady m4" "steady m5" "steady m6"
  obtains w5 x w6 where "later w w5" and "I (files w5)" and "run_state m6 w5 = (Ok x, w6)"
    and "later w5 w6" and "run_state m7 w6 = (Err [unhealthy], w')"
proof -
  obtain u1 w1 where 1: "run_state m1 w = (u1, w1)"
    by (cases "run_state m1 w")
  obtain u2 w2 where 2: "run_state m2 w1 = (u2, w2)"
    by (cases "run_state m2 w1")
  have "run_state (and_then m3 (\<lambda>_. do { m4; m5; and_then m6 (\<lambda>_. m7) })) w2 = (Err [unhealthy], w')"
    using run 1 2 by simp
  then obtain u3 w3 where 3: "run_state m3 w2 = (Ok u3, w3)" "later w2 w3"
    and r3: "run_state (do { m4; m5; and_then m6 (\<lambda>_. m7) }) w3 = (Err [unhealthy], w')"
    by (rule unhealthy_after [OF _ other(1) st(3)])
  obtain u4 w4 where 4: "run_state m4 w3 = (u4, w4)"
    by (cases "run_state m4 w3")
  obtain u5 w5 where 5: "run_state m5 w4 = (u5, w5)"
    by (cases "run_state m5 w4")
  have r5: "run_state (and_then m6 (\<lambda>_. m7)) w5 = (Err [unhealthy], w')"
    using r3 4 5 by simp
  have "later w w5"
    using steadyD [OF st(1) 1] steadyD [OF st(2) 2] 3(2) steadyD [OF st(4) 4] steadyD [OF st(5) 5]
    by (meson later_trans)
  moreover have "I (files w5)"
    using validD [OF k(5) validD [OF k(4) validD [OF k(3) validD [OF k(2) validD [OF k(1) I 1] 2] 3(1)] 4] 5] .
  ultimately show thesis
    using r5 that by (elim unhealthy_after [OF _ other(2) st(6)]) blast
qed

text \<open>
  What a roll-back can put back: the backup of an earlier setup if there is one, else the
  configuration in place. After the configurations are written it is in the backup.
\<close>

definition previous_config :: "fs \<Rightarrow> string option" where
  "previous_config fs = (case fs FW_BACKUP of Some b \<Rightarrow> Some b | None \<Rightarrow> fs FW_CONFIG)"

definition replaced :: "string \<Rightarrow> string option \<Rightarrow> fs \<Rightarrow> bool" where
  "replaced generated old fs \<longleftrightarrow> fs FW_CONFIG = Some generated \<and> fs FW_BACKUP = old"

lemma about_replaced [simp]: "about cfg_files (replaced c old)"
    "about cfg_files (\<lambda>fs. previous_config fs = old)" "about cfg_files (\<lambda>fs. fs FW_BACKUP = old)"
  by (auto simp: about_def replaced_def previous_config_def split: option.splits)

lemma valid_backup_old:
  assumes "alone E cfg_files"
  shows "valid (\<lambda>fs. previous_config fs = old) (backup_fw_config E)
    (\<lambda>r fs. is_ok r \<longrightarrow> fs FW_BACKUP = old)"
  using alone_files [OF assms]
  by (auto simp: valid_def backup_fw_config_def previous_config_def run_io fs_copy_def
      Let_def is_ok_def lift_io_def with_context_def split: if_splits option.splits sum.splits)

lemma valid_write_replaced:
  assumes "alone E cfg_files"
  shows "valid (\<lambda>fs. fs FW_BACKUP = old) (write_configs E g topo)
    (\<lambda>r fs. is_ok r \<longrightarrow> replaced (unlines (fw_config_lines g topo)) old fs)"
proof -
  let ?R = "replaced (unlines (fw_config_lines g topo)) old"
  have w: "valid (\<lambda>fs. fs FW_BACKUP = old) (write_fw_config E g topo) (\<lambda>r fs. is_ok r \<longrightarrow> ?R fs)"
    using alone_files [OF assms]
    by (auto simp: valid_def write_fw_config_def run_io fs_write_def replaced_def Let_def is_ok_def
        with_context_def split: sum.splits)
  have k: "keeps ?R (do {
      println E (''  idps-fw config: '' @ FW_CONFIG @ '' (monitors '' @ tp_target_iface topo @ '')'');
      and_then (write_fwv_conf E g topo)
        (\<lambda>_. do { println E (''  fw-verify config: '' @ FWV_CONF); ret (Ok ()) }) })"
    unfolding write_fwv_conf_def
    by (intro valid_intros keeps_primitives [OF assms about_replaced(1)]
        keeps_fs [OF assms about_replaced(1) other_paths(2)])
  show ?thesis
    unfolding write_configs_def
    by (rule valid_and_then [OF w], simp) (rule valid_conseq [OF k], simp_all)
qed

lemma valid_setup_configs:
  assumes "alone E cfg_files"
  shows "valid (\<lambda>fs. previous_config fs = old) (setup_configs E g topo)
    (\<lambda>r fs. is_ok r \<longrightarrow> replaced (unlines (fw_config_lines g topo)) old fs)"
proof -
  note p = keeps_primitives [OF assms about_replaced(2)]
  have "valid (\<lambda>fs. previous_config fs = old) (and_then (backup_fw_config E) (\<lambda>_. write_configs E g topo))
      (\<lambda>r fs. is_ok r \<longrightarrow> replaced (unlines (fw_config_lines g topo)) old fs)"
    by (rule valid_and_then [OF valid_backup_old [OF assms]], simp)
      (rule valid_conseq [OF valid_write_replaced [OF assms]], simp_all)
  then show ?thesis
    unfolding setup_configs_def
    by (rule valid_and_then [where R = "\<lambda>_ fs. previous_config fs = old", rotated 2])
      (simp_all add: valid_intros p)
qed

text \<open>The restore itself: it succeeds, is refused, or there is nothing to restore.\<close>

lemma restore_outcome:
  assumes "alone E cfg_files" and "run_state (restore_fw_config E) w = (b, w')"
    and "replaced generated old (files w)"
  shows "case old of
      None \<Rightarrow> replaced generated None (files w')
    | Some c \<Rightarrow> files w' FW_CONFIG = Some c \<or> replaced generated (Some c) (files w') \<and>
        (\<exists>w1 e. later w w1 \<and> later w1 w' \<and> ans_unit (os E) w1 (FsCopy FW_BACKUP FW_CONFIG) = Inl e)"
  using alone_files [OF assms(1)] assms(2,3)
  by (auto simp: restore_fw_config_def replaced_def run_io fs_copy_def fs_remove_def Let_def
      split: if_splits option.splits sum.splits)
    (metis later_step)+

lemma unhealthy_restores:
  assumes "run_state (setup_daemon E g) w = (Err [unhealthy], w')"
    and al: "alone E cfg_files" and rep: "replaced generated old (files w)"
  obtains w1 b w2 r where "later w w1" and "replaced generated old (files w1)"
    and "run_state (restore_fw_config E) w1 = (b, w2)"
    and "run_state (restart_service E (ga_mode g) ''idps-fw'') w2 = (r, w')"
proof -
  have mode: "ga_mode g = Android"
    using assms(1) by (cases "ga_mode g") (auto simp: setup_daemon_def run_io)
  note k = keeps_waits [OF al about_replaced(1)] keeps_cmds(5) [OF al about_replaced(1)]
    keeps_primitives(2) [OF al about_replaced(1)]
  let ?tail = "do { up \<leftarrow> wait_healthy E g;
            if up then do { println E ''  idps-fw restarted and healthy''; ret (Ok ()) }
            else do {
              eprintln E ''  idps-fw did not become healthy; restoring previous config'';
              restore_fw_config E;
              restart_service E Android ''idps-fw'';
              ret (Err [unhealthy]) } }"
  obtain u wa where a: "run_state (ensure_keystore_android E g) w = (Ok u, wa)" "later w wa"
    and ra: "run_state (and_then (restart_service E Android ''idps-fw'') (\<lambda>_. ?tail)) wa = (Err [unhealthy], w')"
    using assms(1) unfolding setup_daemon_def mode Mode.case
    by (rule unhealthy_after [OF _ other_keystore steady_keystore])
  obtain v wb where b: "run_state (restart_service E Android ''idps-fw'') wa = (Ok v, wb)" "later wa wb"
    and rb: "run_state ?tail wb = (Err [unhealthy], w')"
    using ra by (rule unhealthy_after [OF _ other_restart steady_restart])
  obtain up wc where c: "run_state (wait_healthy E g) wb = (up, wc)"
    by (cases "run_state (wait_healthy E g) wb")
  have "\<not> up"
    using rb c by (auto simp: println_def)
  define wd where "wd = step E (Eprintln ''  idps-fw did not become healthy; restoring previous config'') wc"
  have wd: "run_state (eprintln E ''  idps-fw did not become healthy; restoring previous config'') wc = ((), wd)"
    by (simp add: eprintln_def wd_def)
  have "later w wd"
    using a(2) b(2) steadyD [OF steady_wait_healthy c] steadyD [OF steady_primitives(2) wd]
    by (meson later_trans)
  moreover have "replaced generated old (files wd)"
    using validD [OF k(4) validD [OF k(2) validD [OF k(3) validD [OF k(1) rep a(1)] b(1)] c] wd] .
  moreover obtain r1 wx r2 where "run_state (restore_fw_config E) wd = (r1, wx)"
    "run_state (restart_service E Android ''idps-fw'') wx = (r2, w')"
    using rb c wd \<open>\<not> up\<close> by (auto split: prod.splits)
  ultimately show thesis
    using that mode by metis
qed

lemma setup_unhealthy:
  assumes "run_state (env_setup E g) w = (Err [unhealthy], w')" and al: "alone E cfg_files"
  obtains w1 where "later w w1"
    and "replaced (unlines (fw_config_lines g (topology_from g))) (previous_config (files w)) (files w1)"
    and "run_state (setup_daemon E g) w1 = (Err [unhealthy], w')"
proof -
  let ?topo = "topology_from g" and ?old = "previous_config (files w)"
  note k = keeps_primitives(1) [OF al about_replaced(2) [of ?old]] keeps_topology [OF al about_replaced(2) [of ?old]]
  obtain w1 x w2 where w1: "later w w1" "previous_config (files w1) = ?old"
      "run_state (setup_configs E g ?topo) w1 = (Ok x, w2)"
    and w2: "later w1 w2" "run_state (setup_daemon E g) w2 = (Err [unhealthy], w')"
    by (rule setup_shape [OF assms(1) [unfolded env_setup_def Let_def] k(1,2,3,1) keeps_if [OF k(1) keeps_ret]
        refl other_topology other_configs])
      (assumption | intro later_intros)+
  have "replaced (unlines (fw_config_lines g ?topo)) ?old (files w2)"
    using validD [OF valid_setup_configs [OF al] w1(2,3)] by simp
  with that later_trans [OF w1(1) w2(1)] w2(2) show thesis
    by blast
qed

subsection \<open>Subnets and waits\<close>

lemma bit_prefix_mask:
  "bit (prefix_mask p :: 'a::len word) n \<longleftrightarrow> n < LENGTH('a) \<and> LENGTH('a) \<le> n + p"
  by (auto simp: prefix_mask_def checked_shl_def bit_simps)

lemma masked_eq:
  "(x :: 'a::len word) AND prefix_mask p = y AND prefix_mask p \<longleftrightarrow>
   drop_bit (LENGTH('a) - p) x = drop_bit (LENGTH('a) - p) y" (is "?l = ?r")
proof
  assume l: ?l
  show ?r
  proof (rule bit_word_eqI)
    fix n
    assume "n < LENGTH('a)"
    have "bit (x AND prefix_mask p) (LENGTH('a) - p + n) = bit (y AND prefix_mask p) (LENGTH('a) - p + n)"
      using l by simp
    then show "bit (drop_bit (LENGTH('a) - p) x) n = bit (drop_bit (LENGTH('a) - p) y) n"
      by (auto simp: bit_simps bit_prefix_mask dest: bit_imp_le_length)
  qed
next
  assume r: ?r
  show ?l
  proof (rule bit_word_eqI)
    fix n
    assume n: "n < LENGTH('a)"
    have "bit (drop_bit (LENGTH('a) - p) x) (n - (LENGTH('a) - p)) =
        bit (drop_bit (LENGTH('a) - p) y) (n - (LENGTH('a) - p))"
      using r by simp
    with n show "bit (x AND prefix_mask p) n = bit (y AND prefix_mask p) n"
      by (cases "LENGTH('a) \<le> n + p") (auto simp: bit_simps bit_prefix_mask)
  qed
qed

lemma slash_split:
  assumes "xs @ CHR ''/'' # us = ys @ CHR ''/'' # vs" and "CHR ''/'' \<notin> set xs" and "CHR ''/'' \<notin> set ys"
  shows "xs = ys \<and> us = vs"
proof -
  have "takeWhile (\<lambda>c. c \<noteq> CHR ''/'') (xs @ CHR ''/'' # us) = xs"
    using assms(2) by (subst takeWhile_append2) auto
  moreover have "takeWhile (\<lambda>c. c \<noteq> CHR ''/'') (ys @ CHR ''/'' # vs) = ys"
    using assms(3) by (subst takeWhile_append2) auto
  ultimately show ?thesis
    using assms(1) by auto
qed

lemma of_bits_inj: "of_bits x = of_bits y \<longleftrightarrow> x = y"
  by (metis to_bits_of_bits)

lemma wait_healthy_stop:
  assumes "run_state (wait_healthy E g) w = (up, w')"
  shows "\<exists>w1 s. later w w1 \<and> run_state (healthy_round E g (clock w + WAIT_NS) s) w1 = (Inl up, w')"
proof -
  have "healthy_loop E g (clock w + WAIT_NS) () (step E InstantNow w) = (up, w')"
    using assms by (simp add: wait_healthy_def run_io)
  then obtain s w1 where "later (step E InstantNow w) w1"
    and "run_state (healthy_round E g (clock w + WAIT_NS) s) w1 = (Inl up, w')"
    using wait_health.last_round [of "step E InstantNow w" E g "clock w + WAIT_NS" "()"] by auto
  then show ?thesis
    using later_trans [OF later_step] by blast
qed

section \<open>Properties\<close>

text \<open>Any sequence of setups and cleans, with other work in between that leaves both files alone.\<close>

inductive env_run :: "'j env \<Rightarrow> world \<Rightarrow> world \<Rightarrow> bool" for E where
  at_start: "env_run E w w"
| after_setup: "env_run E w w1 \<Longrightarrow> run_state (env_setup E g) w1 = (r, w2) \<Longrightarrow> env_run E w w2"
| after_clean: "env_run E w w1 \<Longrightarrow> run_state (env_clean E g) w1 = (r, w2) \<Longrightarrow> env_run E w w2"
| after_other: "env_run E w w1 \<Longrightarrow> files w2 FW_CONFIG = files w1 FW_CONFIG \<Longrightarrow>
    files w2 FW_BACKUP = files w1 FW_BACKUP \<Longrightarrow> env_run E w w2"

lemma env_run_recoverable:
  assumes "env_run E w w'" and "alone E cfg_files" and "recoverable c (files w)"
  shows "recoverable c (files w')"
  using assms
proof (induction rule: env_run.induct)
  case (after_setup w w1 g r w2)
  then show ?case using validD [OF keeps_env(1)] by blast
next
  case (after_clean w w1 g r w2)
  then show ?case using validD [OF keeps_env(2)] by blast
qed (auto simp: recoverable_def)


definition staged_world :: world where
  "staged_world = demo_world\<lparr>files := [FW_CONFIG \<mapsto> ''original'']\<rparr>"


text \<open>
  C12. What a setup leaves behind that ends because the daemon did not come up with the generated
  configuration. Other processes are assumed to leave the configuration and its backup alone; nothing
  is assumed about the answers of the file system. If an earlier setup had left a backup, that text is
  back in place, else the configuration that was there before; or the copy of the backup was refused
  during the run, and then the generated configuration is still in place and the previous text still
  in the backup. If there was neither a backup nor a configuration, nothing is restored and the
  generated configuration stays. The error message claims a restored configuration in every case.
\<close>

theorem unhealthy_setup_rolls_back:
  assumes "\<forall>w a. meddle (os E) w a FW_CONFIG = files w FW_CONFIG \<and>
      meddle (os E) w a FW_BACKUP = files w FW_BACKUP"
    and "run_state (env_setup E g) w = (Err [unhealthy], w')"
  shows "let generated = unlines (fw_config_lines g (topology_from g)) in
     case (case files w FW_BACKUP of Some b \<Rightarrow> Some b | None \<Rightarrow> files w FW_CONFIG) of
       Some c \<Rightarrow>
         files w' FW_CONFIG = Some c \<or>
         files w' FW_CONFIG = Some generated \<and> files w' FW_BACKUP = Some c \<and>
           (\<exists>w1 e. later w w1 \<and> later w1 w' \<and> ans_unit (os E) w1 (FsCopy FW_BACKUP FW_CONFIG) = Inl e)
     | None \<Rightarrow> files w' FW_CONFIG = Some generated \<and> files w' FW_BACKUP = None"
proof -
  let ?gen = "unlines (fw_config_lines g (topology_from g))" and ?old = "previous_config (files w)"
  have al: "alone E cfg_files"
    using assms(1) by (simp add: alone_def)
  obtain w1 where w1: "later w w1" "replaced ?gen ?old (files w1)"
    "run_state (setup_daemon E g) w1 = (Err [unhealthy], w')"
    using setup_unhealthy [OF assms(2) al] by blast
  obtain w2 b w3 r where w2: "later w1 w2" "replaced ?gen ?old (files w2)"
    and rs: "run_state (restore_fw_config E) w2 = (b, w3)"
    and re: "run_state (restart_service E (ga_mode g) ''idps-fw'') w3 = (r, w')"
    using unhealthy_restores [OF w1(3) al w1(2)] by blast
  have fin: "I (files w')" if "I (files w3)" "about cfg_files I" for I
    using validD [OF keeps_cmds(5) [OF al that(2)] that(1) re] .
  have "later w w2" "later w3 w'"
    using w1(1) w2(1) steadyD [OF steady_restart re] by (auto intro: later_trans)
  with restore_outcome [OF al rs w2(2)] show ?thesis
    unfolding previous_config_def [symmetric] Let_def
    using fin [OF _ about_replaced(1)] fin [OF _ about_cfg(3)]
    by (cases ?old) (auto simp: replaced_def [abs_def] intro: later_trans)
qed

text \<open>
  Waiting for a healthy daemon ends after at most the time it takes to see thirty seconds pass:
  the answer is yes only if the last health query answered with a JSON object whose \<open>connected\<close> is
  true, and no only after thirty seconds.
\<close>

theorem wait_healthy_sound:
  assumes "run_state (wait_healthy E g) w = (up, w')"
  shows "\<exists>w1. later w w1 \<and> (if up then connected E (ans_output (os E) w1 (Output (health_argv g))) \<and>
       w' = step E (Output (health_argv g)) w1 else clock w + 30 * 10 ^ 9 \<le> clock w')"
proof -
  obtain w1 s where "later w w1"
    and "run_state (healthy_round E g (clock w + WAIT_NS) s) w1 = (Inl up, w')"
    using wait_healthy_stop [OF assms] by blast
  then show ?thesis
    by (auto simp: healthy_round_def run_io WAIT_NS_def split: if_splits)
qed

theorem wait_healthy_sound_witness:
  "\<exists>up w'. run_state (wait_healthy demo_env demo_args) demo_world = (up, w') \<and>
     (if up then connected demo_env (Inr \<lparr>status_code = Some 0, stdout = [], stderr = []\<rparr>)
      else 30 * 10 ^ 9 \<le> clock w')"
proof -
  obtain up w' where run: "run_state (wait_healthy demo_env demo_args) demo_world = (up, w')"
    by (cases "run_state (wait_healthy demo_env demo_args) demo_world")
  from wait_healthy_sound [OF run] run show ?thesis
    by (auto simp: demo_defs)
qed

text \<open>
  C35. Two setups share the CIDR text of their policy rule exactly when they use the same prefix
  length and their target addresses are of the same family and agree on that many leading bits; for
  lengths from the width of the address on (32 and 128) that means the same address. The compressed
  text of an IPv6 network, with its run of zeros left out, does not confuse two networks.
\<close>

theorem subnet_exact:
  "subnet s = subnet t \<longleftrightarrow> tp_prefix s = tp_prefix t \<and>
     (case (tp_target_ip s, tp_target_ip t) of
        (V4 a, V4 b) \<Rightarrow>
          drop_bit (32 - unat (tp_prefix s)) (to_bits a) = drop_bit (32 - unat (tp_prefix s)) (to_bits b)
      | (V6 a, V6 b) \<Rightarrow>
          drop_bit (128 - unat (tp_prefix s)) a = drop_bit (128 - unat (tp_prefix s)) b
      | _ \<Rightarrow> False)"
proof -
  let ?p = "tp_prefix s"
  have "subnet s = subnet t \<longleftrightarrow>
      show_ip (network (tp_target_ip s) ?p) = show_ip (network (tp_target_ip t) (tp_prefix t)) \<and>
      show_word ?p = show_word (tp_prefix t)"
    unfolding subnet_def using slash_show_ip by (auto dest!: slash_split)
  also have "\<dots> \<longleftrightarrow> ?p = tp_prefix t \<and> network (tp_target_ip s) ?p = network (tp_target_ip t) ?p"
    by (auto simp: show_ip_inj show_word_def dec_inj simp flip: word_unat_eq_iff)
  also have "\<dots> \<longleftrightarrow> ?p = tp_prefix t \<and>
     (case (tp_target_ip s, tp_target_ip t) of
        (V4 a, V4 b) \<Rightarrow> to_bits a AND prefix_mask (unat ?p) = to_bits b AND prefix_mask (unat ?p)
      | (V6 a, V6 b) \<Rightarrow> a AND prefix_mask (unat ?p) = b AND prefix_mask (unat ?p)
      | _ \<Rightarrow> False)"
    by (auto simp: network_def of_bits_inj split: ipaddr.splits)
  finally show ?thesis
    by (simp add: masked_eq cong: prod.case_cong ipaddr.case_cong)
qed

text \<open>An environment whose keystore is always there and whose daemon never answers.\<close>

definition silent_env :: "jv env" where
  "silent_env = demo_env\<lparr>os := demo_os\<lparr>meddle := \<lambda>w _. (files w)(KEYSTORE \<mapsto> ''k'')\<rparr>\<rparr>"

abbreviation keyed :: "fs \<Rightarrow> bool" where
  "keyed fs \<equiv> fs KEYSTORE \<noteq> None"

definition fine :: "'a res io \<Rightarrow> bool" where
  "fine m \<longleftrightarrow> valid (\<lambda>_. True) m (\<lambda>r fs. is_ok r \<and> keyed fs)"

lemma fine_bind: "(\<And>x. fine (f x)) \<Longrightarrow> fine (State_Monad.bind m f)"
  unfolding fine_def by (rule valid_bind [where R = "\<lambda>_ _. True"]) (simp_all add: valid_def)

lemma fine_and_then: "fine m \<Longrightarrow> (\<And>x. fine (f x)) \<Longrightarrow> fine (and_then m f)"
  unfolding fine_def
  by (rule valid_and_then [where R = "\<lambda>r fs. is_ok r \<and> keyed fs"]) (simp_all add: valid_def)

lemmas silent_defs = fine_def valid_def silent_env_def demo_env_def demo_os_def run_io success_def

lemma silent_ip:
  "fine (run_ip silent_env args)" "fine (run_ip_netns silent_env ns args)"
  by (simp_all add: run_ip_def run_ip_netns_def run_cmd_def silent_defs)

lemma silent_ctx: "fine m \<Longrightarrow> fine (ctx msg m)"
  by (auto simp: fine_def valid_def run_map_res is_ok_def with_context_def split: prod.splits sum.splits)

lemma silent_say: "fine (do { println silent_env s; ret (Ok ()) })"
  by (simp add: silent_defs)

lemma silent_files:
  "fine (map_res lift_io (create_dir_all silent_env p))"
  "fine (map_res lift_io (fs_write silent_env p c))"
  by (simp_all add: silent_defs fs_write_def Let_def)

lemma silent_backup: "fine (backup_fw_config silent_env)"
  by (auto simp: backup_fw_config_def silent_defs fs_copy_def Let_def)

lemma silent_restart: "fine (restart_service silent_env Android service)"
  by (simp add: restart_service_def silent_defs)

lemmas silent_fine = silent_ip silent_ctx silent_say silent_files silent_backup silent_restart

lemma silent_create: "fine (create_topology silent_env (topology_from demo_args))"
proof -
  have "fine (create_veth silent_env topo)" for topo
    by (auto simp: create_veth_def fine_def valid_def run_ip_def run_cmd_def run_io success_def
        silent_env_def demo_env_def demo_os_def)
  then show ?thesis
    unfolding create_topology_def topology_from_def demo_args_def disable_ipv6_def
    by (simp add: fine_and_then fine_bind silent_fine)
qed

lemma silent_configs: "fine (setup_configs silent_env g topo)"
  unfolding setup_configs_def write_configs_def write_fw_config_def write_fwv_conf_def
  by (intro fine_and_then silent_fine fine_bind)

lemma silent_keystore: "valid keyed (ensure_keystore_android silent_env g) (\<lambda>r fs. is_ok r)"
  by (auto simp: ensure_keystore_android_def valid_def run_io)

lemma silent_unhealthy:
  assumes "run_state (wait_healthy silent_env g) w = (up, w')"
  shows "\<not> up"
proof -
  have "\<not> connected silent_env (Inr \<lparr>status_code = Some 0, stdout = [], stderr = []\<rparr>)"
    by (simp add: connected_def silent_env_def demo_defs)
  then show ?thesis
    using wait_healthy_stop [OF assms]
    by (auto simp: healthy_round_def run_io silent_env_def demo_env_def demo_os_def split: if_splits)
qed

lemma silent_daemon:
  "valid keyed (setup_daemon silent_env demo_args) (\<lambda>r fs. r = Err [unhealthy])"
proof -
  have up: "valid P (wait_healthy silent_env demo_args) (\<lambda>up fs. \<not> up)" for P
    by (auto simp: valid_def dest: silent_unhealthy)
  have ok: "valid P (restart_service silent_env Android ''idps-fw'') (\<lambda>r fs. is_ok r)" for P
    by (rule valid_conseq [OF silent_restart [unfolded fine_def]]) simp_all
  have stop: "valid (\<lambda>_. \<not> x) (if x then a else do { m1; m2; m3; ret r }) (\<lambda>q fs. q = r)" for x a m1 m2 m3 r
    by (auto simp: valid_def split: prod.splits)
  have mode: "ga_mode demo_args = Android"
    by (simp add: demo_args_def)
  show ?thesis
    unfolding setup_daemon_def mode Mode.case
    by (rule valid_and_then [OF silent_keystore], simp, rule valid_and_then [OF ok], simp,
        rule valid_bind [OF up], rule stop)
qed

lemma fine_pre: "fine m \<Longrightarrow> valid P m (\<lambda>r fs. is_ok r \<and> keyed fs)"
  unfolding fine_def by (rule valid_conseq) simp_all

lemma silent_setup: "fst (run_state (env_setup silent_env demo_args) w) = Err [unhealthy]"
proof -
  have rest: "valid P (and_then (setup_configs silent_env demo_args topo)
      (\<lambda>_. setup_daemon silent_env demo_args)) (\<lambda>r fs. r = Err [unhealthy])" for P topo
    by (rule valid_and_then [OF fine_pre [OF silent_configs]], simp)
      (rule valid_conseq [OF silent_daemon], simp_all)
  have "valid (\<lambda>_. True) (env_setup silent_env demo_args) (\<lambda>r fs. r = Err [unhealthy])"
    unfolding env_setup_def Let_def
    by (rule valid_bind [OF valid_any], rule valid_bind [OF valid_any],
        rule valid_and_then [OF fine_pre [OF silent_create]], simp,
        rule valid_bind [OF valid_any], rule valid_bind [OF valid_any], rule rest)
  then show ?thesis
    by (cases "run_state (env_setup silent_env demo_args) w") (auto simp: valid_def)
qed

theorem unhealthy_setup_rolls_back_witness:
  "files (snd (run_state (env_setup silent_env demo_args) staged_world)) FW_CONFIG = Some ''original''"
proof -
  obtain w' where run: "run_state (env_setup silent_env demo_args) staged_world = (Err [unhealthy], w')"
    using silent_setup [of staged_world] by (metis prod.collapse)
  have "KEYSTORE \<noteq> FW_CONFIG" "KEYSTORE \<noteq> FW_BACKUP"
    by (simp_all add: KEYSTORE_def FW_CONFIG_def FW_BACKUP_def)
  then show ?thesis
    using unhealthy_setup_rolls_back [OF _ run] run
    by (simp add: silent_env_def demo_env_def demo_os_def staged_world_def demo_world_def)
qed

text \<open>The topology as a script: the pair is placed directly, or created and then moved.\<close>

definition topology_script :: "Topology \<Rightarrow> entry list" where
  "topology_script topo =
     [Must [''ip'', ''netns'', ''add'', tp_netns topo],
      Else (''ip'' # veth_args topo @ [''netns'', tp_netns topo])
        [''ip'' # veth_args topo,
         [''ip'', ''link'', ''set'', tp_peer_iface topo, ''netns'', tp_netns topo]],
      Put (ipv6_knob (tp_target_iface topo)) ''1'',
      May [''ip'', ''netns'', ''exec'', tp_netns topo, ''sh'', ''-c'',
        ''echo 1 > '' @ ipv6_knob (tp_peer_iface topo)],
      Must (''ip'' # addr_args (tp_target_ip topo) (tp_prefix topo) (tp_target_iface topo)),
      Must [''ip'', ''link'', ''set'', tp_target_iface topo, ''up''],
      Must [''ip'', ''netns'', ''exec'', tp_netns topo, ''ip'', ''link'', ''set'', ''lo'', ''up''],
      Must ([''ip'', ''netns'', ''exec'', tp_netns topo, ''ip''] @
        addr_args (tp_peer_ip topo) (tp_prefix topo) (tp_peer_iface topo)),
      Must [''ip'', ''netns'', ''exec'', tp_netns topo, ''ip'', ''link'', ''set'', tp_peer_iface topo, ''up'']] @
     (if tp_policy_route topo then [Must (''ip'' # rule_args ''add'' topo)] else [])"

lemma plays_cmd: "plays E (run_cmd E program args) [Must (program # args)]"
  by (auto simp: plays_def run_cmd_def run_io exits_zero_def success_def is_ok_def split: sum.splits)

lemma plays_ip:
  "plays E (run_ip E args) [Must (''ip'' # args)]"
  "plays E (run_ip_netns E ns args) [Must ([''ip'', ''netns'', ''exec'', ns, ''ip''] @ args)]"
  unfolding run_ip_def run_ip_netns_def using plays_cmd [of E "''ip''"] by simp_all

lemma plays_else:
  assumes "plays E m [Must argv]" and "plays E n (map Must alt)"
  shows "plays E (do { r \<leftarrow> m; if is_ok r then ret (Ok ()) else n }) [Else argv alt]"
  unfolding plays_def
proof
  fix w
  obtain r w1 where m: "run_state m w = (r, w1)"
    by (cases "run_state m w")
  have "exits_zero E argv w = is_ok r" "step E (Output argv) w = w1"
    using playsD [OF assms(1), of w] m by (auto split: if_splits)
  with m show "play E [Else argv alt] w =
      (is_ok (fst (run_state (do { r \<leftarrow> m; if is_ok r then ret (Ok ()) else n }) w)),
       snd (run_state (do { r \<leftarrow> m; if is_ok r then ret (Ok ()) else n }) w))"
    using playsD [OF assms(2), of w1] by simp
qed

lemma plays_veth:
  "plays E (create_veth E topo) [Else (''ip'' # veth_args topo @ [''netns'', tp_netns topo])
     [''ip'' # veth_args topo,
      [''ip'', ''link'', ''set'', tp_peer_iface topo, ''netns'', tp_netns topo]]]"
  unfolding create_veth_def
  by (rule plays_else [OF plays_ip(1)])
    (use plays_seq [OF plays_ctx [OF plays_ip(1)] plays_ctx [OF plays_ip(1)]] in simp)

lemma plays_disable:
  assumes "plays E m es"
  shows "plays E (do { disable_ipv6 E topo; m })
    ([Put (ipv6_knob (tp_target_iface topo)) ''1'',
      May [''ip'', ''netns'', ''exec'', tp_netns topo, ''sh'', ''-c'',
        ''echo 1 > '' @ ipv6_knob (tp_peer_iface topo)]] @ es)"
  using assms unfolding plays_def disable_ipv6_def
  by (auto simp: run_io split: prod.splits)

lemma plays_policy:
  "plays E (if tp_policy_route topo
      then ctx ''failed to add the main-table ip rule for the test subnet'' (run_ip E (rule_args ''add'' topo))
      else ret (Ok ()))
    (if tp_policy_route topo then [Must (''ip'' # rule_args ''add'' topo)] else [])"
  by (simp add: plays_ok plays_ctx plays_ip)

lemma plays_topology: "plays E (create_topology E topo) (topology_script topo)"
  apply (rule back_subst [where P = "plays E (create_topology E topo)"])
   apply (unfold create_topology_def)
   apply (rule plays_seq [OF plays_ip(1)], rule plays_seq [OF plays_veth], rule plays_disable)
   apply ((rule plays_seq [OF plays_ip(1)] plays_seq [OF plays_ip(2)])+, rule plays_policy)
  apply (simp add: topology_script_def)
  done

text \<open>
  C25. Building the topology is its script: it succeeds exactly when every mandatory command of the
  script was spawned and exited with status zero, it leaves the world as the script does, and unless
  it succeeds its very last action is a command that was not spawned or did not exit with zero. The second way to place the PEER's end of the pair is taken
  exactly when the direct command did not exit with zero; the two IPv6 switches are optional. The
  PEER's address, its loopback and its link are only ever configured inside the namespace.
\<close>

theorem topology_in_order:
  "play E (topology_script topo) w =
     (is_ok (fst (run_state (create_topology E topo) w)), snd (run_state (create_topology E topo) w)) \<and>
   (is_ok (fst (run_state (create_topology E topo) w)) \<or>
    (\<exists>argv w1. later w w1 \<and> \<not> exits_zero E argv w1 \<and>
       snd (run_state (create_topology E topo) w) = step E (Output argv) w1))"
  using playsD [OF plays_topology] play_stops by blast

end
