(* ===== verification/App.thy ===== *)
theory App
  imports Suite EnvSetup
begin

text \<open>
  \<open>main.rs\<close>: configuration file, command dispatch, the case listing, the preflight checks and the
  exit code. The command line parser (\<open>clap\<close>) is a parameter of \<open>main\<close>: it sees the arguments and the
  environment variables and either ends the process itself or returns the parsed command.
\<close>

section \<open>Commands\<close>

datatype (plugins only: code size) Command =
    SetupEnv
  | CleanEnv
  | Preflight
  | ListCases
  | Run string
  | RunGroup string
  | RunAll
  | ProvisionFile string "u64 option"
  | ResetRules
  | Health
  | Stats
  | Agent AgentCommand

record Cli =
  cli_global :: GlobalArgs
  cli_command :: Command

section \<open>The configuration file\<close>

definition config_keys :: "(string \<times> string) list" where
  "config_keys =
     [(''mode'', ''FWV_MODE''), (''peer_netns'', ''FWV_PEER_NETNS''), (''vsoc_cert'', ''FWV_VSOC_CERT''),
      (''vsoc_key'', ''FWV_VSOC_KEY''), (''vsoc_cacert'', ''FWV_VSOC_CACERT''),
      (''target_iface'', ''FWV_TARGET_IFACE''), (''peer_iface'', ''FWV_PEER_IFACE''),
      (''target_ip'', ''FWV_TARGET_IP''), (''peer_ip'', ''FWV_PEER_IP''),
      (''veth_prefix'', ''FWV_VETH_PREFIX''), (''acd'', ''FWV_ACD''), (''fun_fw'', ''FWV_FUN_FW''),
      (''fun_traffic'', ''FWV_FUN_TRAFFIC''), (''reload_timeout_secs'', ''FWV_RELOAD_TIMEOUT_SECS''),
      (''event_settle_ms'', ''FWV_EVENT_SETTLE_MS''), (''report_confirm'', ''FWV_REPORT_CONFIRM''),
      (''vsoc_url'', ''FWV_VSOC_URL''), (''idps_fw'', ''FWV_IDPS_FW''), (''state_db'', ''FWV_STATE_DB''),
      (''app_uid'', ''FWV_APP_UID''), (''app_identity_key'', ''FWV_APP_IDENTITY_KEY''),
      (''app_pkg'', ''FWV_APP_PKG''), (''app_name'', ''FWV_APP_NAME'')]"

definition config_key_to_env :: "string \<Rightarrow> string option" where
  "config_key_to_env = map_of config_keys"

text \<open>The last \<open>--config\<close> wins; a trailing one without a value takes the choice back.\<close>

fun config_path :: "string option \<Rightarrow> string list \<Rightarrow> string option" where
  "config_path path [] = path"
| "config_path path (arg # rest) =
     config_path
       (if arg = ''--config'' then (case rest of [] \<Rightarrow> None | v # _ \<Rightarrow> Some v)
        else (case strip_prefix arg ''--config='' of Some v \<Rightarrow> Some v | None \<Rightarrow> path)) rest"

definition config_line :: "string \<Rightarrow> (string \<times> string) option" where
  "config_line l =
     (let line = trim l in
      if line = [] \<or> starts_with line ''#'' \<or> starts_with line '';'' then None
      else
        (case split_once (CHR ''='') line of
           None \<Rightarrow> None
         | Some (key, value) \<Rightarrow>
             map_option (\<lambda>var. (var, trim_matches (CHR 0x22) (trim value)))
               (config_key_to_env (to_ascii_lowercase (trim key)))))"

text \<open>\<open>set_var\<close> panics on a value with a NUL byte; that is the answer \<open>None\<close>.\<close>

fun apply_lines :: "string list \<Rightarrow> (string \<rightharpoonup> string) \<Rightarrow> (string \<rightharpoonup> string) option" where
  "apply_lines [] vs = Some vs"
| "apply_lines (l # ls) vs =
     (case config_line l of
        None \<Rightarrow> apply_lines ls vs
      | Some (var, value) \<Rightarrow>
          if vs var = None
          then (if CHR 0x00 \<in> set value then None else apply_lines ls (vs(var \<mapsto> value)))
          else apply_lines ls vs)"

text \<open>The answer tells whether the process goes on.\<close>

definition apply_config_env :: "'j env \<Rightarrow> string list \<Rightarrow> bool io" where
  "apply_config_env E args =
     (case config_path None args of
        None \<Rightarrow> ret True
      | Some path \<Rightarrow>
          do {
            r \<leftarrow> read_to_string E path;
            (case r of
               Inl error \<Rightarrow>
                 do {
                   eprintln E (''fw-verify: cannot read config '' @ path @ '': '' @ io_msg error);
                   ret True
                 }
             | Inr content \<Rightarrow>
                 State (\<lambda>w. case apply_lines (lines content) (vars w) of
                              None \<Rightarrow> (False, w)
                            | Some vs \<Rightarrow> (True, w\<lparr>vars := vs\<rparr>)))
          })"

section \<open>Listing the catalog\<close>

definition list_line :: "string \<Rightarrow> string \<Rightarrow> string \<Rightarrow> string \<Rightarrow> string \<Rightarrow> string" where
  "list_line a b c d rest = pad 26 a @ '' '' @ pad 9 b @ '' '' @ pad 14 c @ '' '' @ pad 8 d @ '' '' @ rest"

text \<open>The derived \<open>Debug\<close> name of a bundle, in lower case.\<close>

fun debug_bundle :: "Bundle \<Rightarrow> string" where
  "debug_bundle IngressTuple = ''ingresstuple''"
| "debug_bundle DefaultDeny = ''defaultdeny''"
| "debug_bundle DefaultAllow = ''defaultallow''"
| "debug_bundle EgressTuple = ''egresstuple''"
| "debug_bundle AppDeny = ''appdeny''"
| "debug_bundle AppAllow = ''appallow''"
| "debug_bundle MatchFields = ''matchfields''"
| "debug_bundle Detection = ''detection''"
| "debug_bundle Traffic = ''traffic''"
| "debug_bundle Priority = ''priority''"

definition list_case :: "FwCase \<Rightarrow> string" where
  "list_case c =
     list_line (fc_id c) (group_as_str (fc_group c)) (debug_bundle (fc_bundle c))
       (enforce_str (fc_expect_enforce c))
       (case fc_expect_event c of None \<Rightarrow> ''none'' | Some e \<Rightarrow> x_kind e @ ''/'' @ x_action e)"

definition list_monitor :: "MonitorCase \<Rightarrow> string" where
  "list_monitor c = list_line (mc_id c) ''monitor'' ''monitor'' ''report'' (mc_notes c)"

definition list_lines :: "string list" where
  "list_lines =
     [list_line ''CASE'' ''GROUP'' ''BUNDLE'' ''ENFORCE'' ''EVENT'', replicate 80 (CHR ''-'')] @
     map list_case all_cases @ map list_monitor monitor_cases"

section \<open>Preflight\<close>

type_synonym check = "string \<times> bool \<times> string"

definition health_check :: "'j env \<Rightarrow> RunConfig \<Rightarrow> check io" where
  "health_check E cfg =
     do {
       h \<leftarrow> health E cfg;
       ret (''idps-fw health'', is_ok h,
         case h of
           Inr v \<Rightarrow> ''phase='' @ opt_or ''?'' (Option.bind (j_get (json E) v ''phase'') (j_as_str (json E)))
         | Inl error \<Rightarrow> show_err error)
     }"

definition depot_check :: "'j env \<Rightarrow> RunConfig \<Rightarrow> check io" where
  "depot_check E cfg =
     do {
       r \<leftarrow> shell E (rc_target cfg) ''[ -d /data/idd/rule/depot ] && echo yes || echo no'';
       let depot = unwrap_or [] r;
       ret (''target depot dir'', contains depot ''yes'', depot)
     }"

definition worker_check :: "'j env \<Rightarrow> RunConfig \<Rightarrow> check io" where
  "worker_check E cfg =
     do {
       r \<leftarrow> agent_json E (rc_peer cfg) [''now''];
       ret (''peer worker re-exec'', is_ok r,
         case r of Inr _ \<Rightarrow> ''responds'' | Inl error \<Rightarrow> show_err error)
     }"

definition link_check :: "'j env \<Rightarrow> RunConfig \<Rightarrow> check io" where
  "link_check E cfg =
     do {
       r \<leftarrow> shell E (rc_peer cfg)
              (''ping -c1 -W2 '' @ show_ip (rc_target_ip cfg) @ '' >/dev/null 2>&1 && echo ok'');
       let reachable = unwrap_or [] r;
       ret (''peer->target link'', contains reachable ''ok'', reachable)
     }"

definition vsoc_check :: "'j env \<Rightarrow> RunConfig \<Rightarrow> check list io" where
  "vsoc_check E cfg =
     (if rc_mode cfg = Host then
        do {
          r \<leftarrow> events_mention E cfg [];
          ret [(''vsoc api'', is_ok r, if is_ok r then ''reachable'' else ''unreachable'')]
        }
      else ret [])"

definition check_line :: "check \<Rightarrow> string" where
  "check_line c =
     (case c of (lab, pass, info) \<Rightarrow>
        ''['' @ (if pass then ''ok'' else ''FAIL'') @ ''] '' @ lab @ '': '' @ info)"

definition preflight_checks :: "'j env \<Rightarrow> RunConfig \<Rightarrow> check list io" where
  "preflight_checks E cfg =
     do {
       h \<leftarrow> health_check E cfg;
       d \<leftarrow> depot_check E cfg;
       p \<leftarrow> worker_check E cfg;
       l \<leftarrow> link_check E cfg;
       v \<leftarrow> vsoc_check E cfg;
       ret ([h, d, p, l] @ v)
     }"

definition preflight_failed :: string where
  "preflight_failed = ''preflight checks failed''"

definition preflight :: "'j env \<Rightarrow> RunConfig \<Rightarrow> unit res io" where
  "preflight E cfg =
     do {
       checks \<leftarrow> preflight_checks E cfg;
       print_lines E (map check_line checks);
       k \<leftarrow> shell E (rc_target cfg) ''[ -e /data/idd/keys/aes.keystore ] && echo yes || echo no'';
       let keystore = unwrap_or [] k;
       println E (''['' @ (if contains keystore ''yes'' then ''ok'' else ''warn'') @ ''] target keystore: '' @
         keystore);
       println E (''\<newline>mode='' @ debug_mode (rc_mode cfg) @ ''  TARGET='' @ label (rc_target cfg) @ '' ('' @
         show_ip (rc_target_ip cfg) @ '')  PEER='' @ label (rc_peer cfg) @ '' ('' @
         show_ip (rc_peer_ip cfg) @ '')'');
       ret (if list_all (\<lambda>c. fst (snd c)) checks then Ok () else Err [preflight_failed])
     }"

section \<open>Dispatch\<close>

definition run_provision :: "'j env \<Rightarrow> RunConfig \<Rightarrow> string \<Rightarrow> u64 option \<Rightarrow> nat res io" where
  "run_provision E cfg rules_file cycle_opt =
     and_then (ctx (''failed to read '' @ rules_file) (map_res lift_io (read_to_string E rules_file))) (\<lambda>text.
     and_then (provision_firewall E cfg text) (\<lambda>ver.
     do {
       println E (''provisioned firewall rule version '' @ dec_int ver);
       (case cycle_opt of
          None \<Rightarrow> ret (Ok 0)
        | Some cycle \<Rightarrow>
            and_then (provision_traffic_cycle E cfg (unat cycle)) (\<lambda>_.
            do {
              println E (''provisioned traffic cycle '' @ show_word cycle @ ''s'');
              ret (Ok 0)
            }))
     }))"

definition print_json :: "'j env \<Rightarrow> 'j res io \<Rightarrow> nat res io" where
  "print_json E m =
     and_then m (\<lambda>v. and_then (ret (j_pretty (json E) v)) (\<lambda>text.
     do { println E text; ret (Ok 0) }))"

definition run_cases ::
  "'j env \<Rightarrow> GlobalArgs \<Rightarrow> RunConfig \<Rightarrow> CaseResult list io \<Rightarrow> nat res io" where
  "run_cases E g cfg m = do { results \<leftarrow> m; emit_report E g cfg results }"

text \<open>
  A command answers with the number of failed cases. Every command ends except possibly the worker,
  whose listener may run for ever; that is the answer \<open>None\<close>.
\<close>

definition run :: "'j env \<Rightarrow> Cli \<Rightarrow> world \<Rightarrow> (nat res \<times> world) option" where
  "run E cli w =
     (let g = cli_global cli; finish = (\<lambda>m. Some (run_state m w)) in
      case cli_command cli of
        Agent command \<Rightarrow> map_option (\<lambda>(r, w'). (map_sum (\<lambda>e. e) (\<lambda>_. 0) r, w')) (dispatch E command w)
      | SetupEnv \<Rightarrow> finish (and_then (env_setup E g) (\<lambda>_. ret (Ok 0)))
      | CleanEnv \<Rightarrow> finish (and_then (env_clean E g) (\<lambda>_. ret (Ok 0)))
      | ListCases \<Rightarrow> finish (do { print_lines E list_lines; ret (Ok 0) })
      | Preflight \<Rightarrow>
          finish (and_then (resolve E g) (\<lambda>cfg. and_then (preflight E cfg) (\<lambda>_. ret (Ok 0))))
      | Health \<Rightarrow> finish (and_then (resolve E g) (\<lambda>cfg. print_json E (health E cfg)))
      | Stats \<Rightarrow> finish (and_then (resolve E g) (\<lambda>cfg. print_json E (statistics E cfg)))
      | ProvisionFile rules_file cycle \<Rightarrow>
          finish (and_then (resolve E g) (\<lambda>cfg. run_provision E cfg rules_file cycle))
      | ResetRules \<Rightarrow>
          finish (and_then (resolve E g) (\<lambda>cfg.
            and_then (reset_rules E cfg) (\<lambda>_.
            do { println E ''reset depot rules to a permissive baseline''; ret (Ok 0) })))
      | Run cid \<Rightarrow> finish (and_then (resolve E g) (\<lambda>cfg. run_cases E g cfg (run_one E cfg cid)))
      | RunGroup name \<Rightarrow>
          finish (and_then (resolve E g) (\<lambda>cfg.
            and_then (ret (group_parse name)) (\<lambda>grp. run_cases E g cfg (run_group E cfg grp))))
      | RunAll \<Rightarrow> finish (and_then (resolve E g) (\<lambda>cfg. run_cases E g cfg (run_all E cfg))))"

definition EXIT_SUCCESS :: int where "EXIT_SUCCESS = 0"

definition EXIT_FAILURE :: int where "EXIT_FAILURE = 1"

definition EXIT_PANIC :: int where "EXIT_PANIC = 101"

definition exit_code :: "'j env \<Rightarrow> nat res \<times> world \<Rightarrow> int \<times> world" where
  "exit_code E rw =
     (case rw of
        (Inr failures, w) \<Rightarrow> (if failures > 0 then EXIT_FAILURE else EXIT_SUCCESS, w)
      | (Inl error, w) \<Rightarrow>
          (EXIT_FAILURE, snd (run_state (eprintln E (''fw-verify error: '' @ show_err error)) w)))"

definition main ::
  "'j env \<Rightarrow> (string list \<Rightarrow> (string \<rightharpoonup> string) \<Rightarrow> int + Cli) \<Rightarrow> string list \<Rightarrow> world \<Rightarrow>
   (int \<times> world) option" where
  "main E clap args w =
     (case run_state (apply_config_env E args) w of
        (False, w1) \<Rightarrow> Some (EXIT_PANIC, w1)
      | (True, w1) \<Rightarrow>
          (case clap args (vars w1) of
             Inl code \<Rightarrow> Some (code, w1)
           | Inr cli \<Rightarrow> map_option (exit_code E) (run E cli w1)))"

section \<open>Lemmas\<close>

subsection \<open>Configuration lines\<close>

lemma apply_lines_exact:
  "apply_lines ls vs = Some vs' \<Longrightarrow> vs' = map_of (List.map_filter config_line ls) ++ vs"
proof (induction ls arbitrary: vs)
  case (Cons l ls)
  show ?case
  proof (cases "config_line l")
    case None
    with Cons show ?thesis by (simp add: map_filter_simps)
  next
    case (Some p)
    obtain var val where p: "p = (var, val)"
      by (cases p)
    show ?thesis
    proof (cases "vs var")
      case None
      then have "apply_lines ls (vs(var \<mapsto> val)) = Some vs'"
        using Cons.prems Some p by (simp split: if_splits)
      from Cons.IH [OF this] have "vs' = map_of (List.map_filter config_line ls) ++ vs(var \<mapsto> val)" .
      with None show ?thesis
        by (simp add: map_filter_simps Some p map_add_def fun_eq_iff split: option.split)
    next
      case (Some x)
      then have "vs' = map_of (List.map_filter config_line ls) ++ vs"
        using Cons.prems \<open>config_line l = Some p\<close> p by (auto intro: Cons.IH)
      with Some show ?thesis
        by (simp add: map_filter_simps \<open>config_line l = Some p\<close> p map_add_def fun_eq_iff
            split: option.split)
    qed
  qed
qed (simp add: map_filter_simps)

lemma apply_lines_runs:
  "list_all (\<lambda>l. case config_line l of None \<Rightarrow> True | Some (_, v) \<Rightarrow> CHR 0x00 \<notin> set v) ls \<Longrightarrow>
   \<exists>vs'. apply_lines ls vs = Some vs'"
  by (induction ls arbitrary: vs) (auto split: option.splits prod.splits)

lemma lines_unlines:
  assumes "list_all (\<lambda>l. CHR 0x0A \<notin> set l \<and> strip_cr l = l) ls"
  shows "lines (unlines ls) = ls"
  using assms by (induction ls) (auto simp: unlines_def lines_Cons)

text \<open>A value that survives the file: one line, no blanks or quotes around it.\<close>

definition plain :: "string \<Rightarrow> bool" where
  "plain v \<longleftrightarrow> v \<noteq> [] \<and> \<not> is_ws (hd v) \<and> \<not> is_ws (last v) \<and> hd v \<noteq> CHR 0x22 \<and> last v \<noteq> CHR 0x22 \<and>
     CHR 0x0A \<notin> set v \<and> CHR 0x00 \<notin> set v"

definition key_char :: "char \<Rightarrow> bool" where
  "key_char c \<longleftrightarrow> c = CHR ''_'' \<or> 97 \<le> (of_char c :: nat) \<and> (of_char c :: nat) \<le> 122"

lemma config_keys_chars: "list_all (\<lambda>(k, e). k \<noteq> [] \<and> list_all key_char k) config_keys"
  by (simp add: config_keys_def key_char_def)

lemma trim_by_id:
  "s \<noteq> [] \<Longrightarrow> \<not> p (hd s) \<Longrightarrow> \<not> p (last s) \<Longrightarrow> trim_by p s = s"
proof -
  assume ne: "s \<noteq> []" and h: "\<not> p (hd s)" and l: "\<not> p (last s)"
  have "dropWhile p s = s"
    using ne h by (cases s) auto
  moreover have "dropWhile p (rev s) = rev s"
    using ne l by (cases s rule: rev_cases) auto
  ultimately show ?thesis
    by (simp add: trim_by_def)
qed

lemma key_char_facts:
  assumes "key_char c"
  shows "\<not> is_ws c" "c \<noteq> CHR ''=''" "c \<noteq> CHR ''#''" "c \<noteq> CHR '';''" "c \<noteq> CHR 0x0A" "ascii_lower c = c"
  using assms by (auto simp: key_char_def is_ws_def ascii_lower_def)

lemma config_line_setting:
  assumes key: "config_key_to_env k = Some e" and v: "plain v"
  shows "config_line (setting (k, v)) = Some (e, v)"
proof -
  have "(k, e) \<in> set config_keys"
    using key by (simp add: config_key_to_env_def map_of_SomeD)
  then have k: "k \<noteq> []" "list_all key_char k"
    using config_keys_chars by (auto simp: list_all_iff)
  have hd: "key_char (hd k)" and lst: "key_char (last k)"
    using k by (auto simp: list_all_iff)
  have line: "trim (setting (k, v)) = k @ '' = '' @ v"
    unfolding trim_def setting_def using k v key_char_facts(1) [OF hd]
    by (subst trim_by_id) (auto simp: plain_def)
  have no: "\<forall>c \<in> set (k @ '' ''). c \<noteq> CHR ''=''"
    using k by (auto simp: list_all_iff dest: key_char_facts(2))
  then have "takeWhile (\<lambda>c. c \<noteq> CHR ''='') ((k @ '' '') @ CHR ''='' # CHR '' '' # v) = k @ '' ''"
    "dropWhile (\<lambda>c. c \<noteq> CHR ''='') ((k @ '' '') @ CHR ''='' # CHR '' '' # v) = CHR ''='' # CHR '' '' # v"
    by (subst takeWhile_append2 dropWhile_append2; auto)+
  then have split: "split_once (CHR ''='') (k @ CHR '' '' # CHR ''='' # CHR '' '' # v) = Some (k @ '' '', CHR '' '' # v)"
    by (simp add: split_once_def)
  have tk: "trim (k @ '' '') = k"
    using trim_by_id [of k is_ws] k key_char_facts(1) [OF hd] key_char_facts(1) [OF lst]
    by (cases k) (auto simp: trim_def trim_by_def is_ws_def)
  have tv: "trim (CHR '' '' # v) = v"
    using trim_by_id [of v is_ws] v by (auto simp: trim_def trim_by_def plain_def is_ws_def)
  have low: "to_ascii_lowercase k = k"
    using k by (auto simp: to_ascii_lowercase_def list_all_iff key_char_facts(6) intro: map_idI)
  have q: "trim_matches (CHR 0x22) v = v"
    using v by (auto simp: trim_matches_def plain_def intro!: trim_by_id)
  have start: "\<not> starts_with (k @ s) ''#''" "\<not> starts_with (k @ s) '';''" for s
    using k hd key_char_facts(3,4) [OF hd] by (cases k; simp add: starts_with_def)+
  show ?thesis
    using k by (simp add: config_line_def line split tk tv low q start key)
qed

subsection \<open>The generated file\<close>

definition fwv_settings :: "GlobalArgs \<Rightarrow> Topology \<Rightarrow> (string \<times> string) list" where
  "fwv_settings g topo =
     fwv_base g topo @
     (if ga_mode g = Host then
        (''vsoc_url'', case ga_vsoc_url g of Some u \<Rightarrow> u | None \<Rightarrow> default_vsoc_url) #
        (case (ga_vsoc_cert g, ga_vsoc_key g) of
           (Some cert, Some key) \<Rightarrow>
             [(''vsoc_cert'', cert), (''vsoc_key'', key)] @
             (case ga_vsoc_cacert g of None \<Rightarrow> [] | Some cacert \<Rightarrow> [(''vsoc_cacert'', cacert)])
         | _ \<Rightarrow> [])
      else [])"

definition env_of :: "string \<Rightarrow> string" where
  "env_of k = (case config_key_to_env k of Some e \<Rightarrow> e | None \<Rightarrow> [])"

lemma settings_known: "list_all (\<lambda>k. config_key_to_env k = Some (env_of k)) (map fst (fwv_settings g topo))"
  by (auto simp: fwv_settings_def fwv_base_def config_key_to_env_def config_keys_def env_of_def
      split: option.splits)

lemma map_filter_settings:
  assumes "list_all (\<lambda>kv. config_key_to_env (fst kv) = Some (env_of (fst kv)) \<and> plain (snd kv)) kvs"
  shows "List.map_filter config_line (map setting kvs) = map (\<lambda>(k, v). (env_of k, v)) kvs"
  using assms by (induction kvs) (auto simp: map_filter_simps config_line_setting)

text \<open>The lines of the file are the settings and at most two comments.\<close>

lemma remarks [simp]:
  "config_line conf_banner = None"
  "config_line conf_hint = None"
  by (simp_all add: conf_banner_def conf_hint_def config_line_def Let_def trim_def trim_by_def is_ws_def
      starts_with_def)

lemma map_filter_append: "List.map_filter f (xs @ ys) = List.map_filter f xs @ List.map_filter f ys"
  by (simp add: List.map_filter_def)

lemma conf_settings:
  "List.map_filter config_line (fwv_conf_lines g topo) =
   List.map_filter config_line (map setting (fwv_settings g topo))"
  by (auto simp: fwv_conf_lines_def fwv_vsoc_def fwv_settings_def map_filter_simps map_filter_append
      simp del: append.simps split: option.split)

lemma strip_cr_id: "l \<noteq> [] \<Longrightarrow> \<not> is_ws (last l) \<Longrightarrow> strip_cr l = l"
  by (auto simp: strip_cr_def is_ws_def)

lemma setting_line:
  assumes "config_key_to_env k = Some e" and "plain v"
  shows "CHR 0x0A \<notin> set (setting (k, v)) \<and> strip_cr (setting (k, v)) = setting (k, v)"
proof -
  have "(k, e) \<in> set config_keys"
    using assms(1) by (simp add: config_key_to_env_def map_of_SomeD)
  then have "list_all key_char k"
    using config_keys_chars by (auto simp: list_all_iff)
  moreover have "\<not> key_char (CHR 0x0A)"
    by (simp add: key_char_def)
  ultimately have "CHR 0x0A \<notin> set k"
    unfolding list_all_iff by blast
  moreover have "strip_cr (setting (k, v)) = setting (k, v)"
    using assms(2) by (intro strip_cr_id) (simp_all add: setting_def plain_def)
  ultimately show ?thesis
    using assms(2) by (simp add: setting_def plain_def)
qed

lemma conf_lines_back:
  assumes "list_all plain (map snd (fwv_settings g topo))"
  shows "lines (unlines (fwv_conf_lines g topo)) = fwv_conf_lines g topo"
proof (rule lines_unlines)
  let ?ok = "\<lambda>l. CHR 0x0A \<notin> set l \<and> strip_cr l = l"
  have ok: "?ok (setting kv)" if "kv \<in> set (fwv_settings g topo)" for kv
    using that assms settings_known [of g topo] setting_line [of "fst kv" "env_of (fst kv)" "snd kv"]
    by (simp add: list_all_iff)
  have rm: "?ok conf_banner" "?ok conf_hint"
    by (simp_all add: strip_cr_def conf_banner_def conf_hint_def)
  have "set (fwv_conf_lines g topo) \<subseteq> setting ` set (fwv_settings g topo) \<union> {conf_banner, conf_hint}"
    by (auto simp: fwv_conf_lines_def fwv_vsoc_def fwv_settings_def split: option.splits if_splits)
  then show "list_all ?ok (fwv_conf_lines g topo)"
    using ok rm unfolding list_all_iff by blast
qed

lemma apply_conf:
  assumes "list_all plain (map snd (fwv_settings g topo))"
  shows "apply_lines (lines (unlines (fwv_conf_lines g topo))) vs =
    Some (map_of (map (\<lambda>(k, v). (env_of k, v)) (fwv_settings g topo)) ++ vs)"
proof -
  let ?ls = "fwv_conf_lines g topo"
  have "list_all (\<lambda>kv. config_key_to_env (fst kv) = Some (env_of (fst kv)) \<and> plain (snd kv)) (fwv_settings g topo)"
    using assms settings_known [of g topo] by (simp add: list_all_iff)
  then have mf: "List.map_filter config_line ?ls = map (\<lambda>(k, v). (env_of k, v)) (fwv_settings g topo)"
    by (simp add: conf_settings map_filter_settings)
  have "CHR 0x00 \<notin> set v" if "l \<in> set ?ls" and "config_line l = Some (e, v)" for l e v
  proof -
    have "(e, v) \<in> set (List.map_filter config_line ?ls)"
      using that by (force simp: List.map_filter_def)
    then show ?thesis
      using assms by (auto simp: mf list_all_iff plain_def)
  qed
  then have "list_all (\<lambda>l. case config_line l of None \<Rightarrow> True | Some (_, v) \<Rightarrow> CHR 0x00 \<notin> set v) ?ls"
    by (auto simp: list_all_iff split: option.split)
  then obtain vs' where ap: "apply_lines ?ls vs = Some vs'"
    using apply_lines_runs by blast
  then show ?thesis
    using apply_lines_exact [OF ap] by (simp add: conf_lines_back [OF assms] mf)
qed

subsection \<open>Commands\<close>

lemma steady_apply_config [later_intros]: "steady (apply_config_env E args)"
proof -
  have "steady (State (\<lambda>w. case apply_lines ls (vars w) of None \<Rightarrow> (False, w) | Some vs \<Rightarrow> (True, w\<lparr>vars := vs\<rparr>)))"
    for ls
    by (auto simp: steady_def split: option.split)
  then show ?thesis
    unfolding apply_config_env_def by (intro later_intros)
qed

lemma steady_checks [later_intros]: "steady (preflight_checks E cfg)" "steady (preflight E cfg)"
proof -
  show p: "steady (preflight_checks E cfg)"
    unfolding preflight_checks_def health_check_def depot_check_def worker_check_def link_check_def
      vsoc_check_def Let_def
    by (intro later_intros)
  show "steady (preflight E cfg)"
    unfolding preflight_def Let_def by (intro later_intros p)
qed

lemma steady_commands [later_intros]:
  "steady (run_provision E cfg f c)" "steady m \<Longrightarrow> steady (print_json E m)"
  "steady rs \<Longrightarrow> steady (run_cases E g cfg rs)"
  unfolding run_provision_def print_json_def run_cases_def
  by (intro later_intros) (auto intro!: later_intros)

lemma steady_queries [later_intros]:
  "steady (provision_run E pa)" "steady (agent_dump_events E ea)" "steady (report_status E ea)"
  "steady (agent_dump_reports E ra)"
  unfolding provision_run_def agent_dump_events_def report_status_def agent_dump_reports_def
    print_rows_def
  by (intro later_intros)+

lemma steady_workers [later_intros]:
  "steady (traffic_run E ta)" "steady (connflood_run E ca)" "steady (arp_run E aa)"
proof -
  show "steady (traffic_run E ta)"
    unfolding traffic_run_def emit_def drop_to_uid_def by (intro later_intros)
  have "steady (flood_connect E ca n acc)" for n acc
    by (induction n arbitrary: acc) (auto intro!: later_intros split: sum.split)
  then show "steady (connflood_run E ca)"
    unfolding connflood_run_def by (intro later_intros)
  have "steady (arp_send E f i n k)" for f i n k
    by (induction n arbitrary: k) (auto intro!: later_intros)
  then show "steady (arp_run E aa)"
    unfolding arp_run_def interface_mac_def by (intro later_intros)
qed

lemma apply_config_run:
  assumes "config_path None args = Some path" and "ans_unit (os E) w (FsRead path) = Inr ()"
    and "files w path = Some content" and "apply_lines (lines content) (vars w) = Some vs"
  shows "\<exists>w'. run_state (apply_config_env E args) w = (True, w') \<and> vars w' = vs"
  using assms by (simp add: apply_config_env_def read_to_string_def)

lemma run_exit:
  assumes "run_state (apply_config_env E args) w = (True, w1)" and "clap args (vars w1) = Inr cli"
    and "run E cli w1 = Some (r, w2)"
  shows "map_option fst (main E clap args w) =
    Some (case r of Inr 0 \<Rightarrow> EXIT_SUCCESS | _ \<Rightarrow> EXIT_FAILURE)"
  using assms by (auto simp: main_def exit_code_def split: sum.split nat.split)

section \<open>Properties\<close>

text \<open>
  C29. The documented precedence of the configuration file: after reading it, a variable that was set
  before keeps its value, every other variable has the value of the first line of the file that
  sets its key, and nothing else changes.
\<close>

theorem config_env_precedence:
  assumes "config_path None args = Some path" and "ans_unit (os E) w (FsRead path) = Inr ()"
    and "files w path = Some content" and "run_state (apply_config_env E args) w = (True, w')"
  shows "vars w' = map_of (List.map_filter config_line (lines content)) ++ vars w"
proof -
  have "apply_lines (lines content) (vars w) = Some (vars w')"
    using assms by (auto simp: apply_config_env_def read_to_string_def split: option.splits)
  then show ?thesis
    by (rule apply_lines_exact)
qed

definition conf_world :: world where
  "conf_world =
     demo_world\<lparr>files := [''c'' \<mapsto> unlines [''# comment'', ''acd = 3'', '' ACD = 4'', ''app_uid = 7'']],
       vars := [''FWV_APP_UID'' \<mapsto> ''1000'']\<rparr>"

theorem config_env_precedence_witness:
  "\<exists>w'. run_state (apply_config_env demo_env [''fw-verify'', ''--config=c'', ''list'']) conf_world = (True, w') \<and>
     vars w' ''FWV_ACD'' = Some ''3'' \<and> vars w' ''FWV_APP_UID'' = Some ''1000''"
proof -
  let ?args = "[''fw-verify'', ''--config=c'', ''list'']"
  let ?ls = "[''# comment'', ''acd = 3'', '' ACD = 4'', ''app_uid = 7'']"
  have path: "config_path None ?args = Some ''c''"
    by (simp add: strip_prefix_def starts_with_def)
  have ls: "lines (unlines ?ls) = ?ls"
    by (rule lines_unlines) (simp add: strip_cr_def)
  have mf: "List.map_filter config_line ?ls =
      [(''FWV_ACD'', ''3''), (''FWV_ACD'', ''4''), (''FWV_APP_UID'', ''7'')]"
    by code_simp
  have conf: "files conf_world ''c'' = Some (unlines ?ls)"
    "ans_unit (os demo_env) conf_world (FsRead ''c'') = Inr ()"
    by (simp_all add: conf_world_def demo_env_def demo_os_def)
  have "list_all (\<lambda>l. case config_line l of None \<Rightarrow> True | Some (_, v) \<Rightarrow> CHR 0x00 \<notin> set v) ?ls"
    by code_simp
  from apply_lines_runs [OF this, of "vars conf_world"]
  obtain vs where "apply_lines (lines (unlines ?ls)) (vars conf_world) = Some vs"
    unfolding ls by blast
  from apply_config_run [OF path conf(2,1) this] obtain w' where
    run: "run_state (apply_config_env demo_env ?args) conf_world = (True, w')"
    by blast
  have "vars w' = map_of (List.map_filter config_line ?ls) ++ vars conf_world"
    using config_env_precedence [OF path conf(2,1) run] unfolding ls .
  then have "vars w' ''FWV_ACD'' = Some ''3'' \<and> vars w' ''FWV_APP_UID'' = Some ''1000''"
    unfolding mf by (simp add: conf_world_def)
  with run show ?thesis
    by blast
qed

text \<open>
  C28. What \<open>setup-env\<close> writes is what a later run reads: after \<open>--config /etc/idd/fw-verify.conf\<close> the
  variables of the command line parser hold exactly the settings of the staged environment, for
  values without surrounding blanks or quotes, and variables set before keep their values.
\<close>

theorem generated_config_roundtrip:
  assumes "list_all plain (map snd (fwv_settings g topo))"
    and "run_state (write_fwv_conf E g topo) w = (Ok (), w1)"
    and "config_path None args = Some FWV_CONF" and "ans_unit (os E) w1 (FsRead FWV_CONF) = Inr ()"
  shows "\<exists>w2. run_state (apply_config_env E args) w1 = (True, w2) \<and>
     vars w2 = map_of (map (\<lambda>(k, v). (env_of k, v)) (fwv_settings g topo)) ++ vars w1"
proof -
  have "files w1 FWV_CONF = Some (unlines (fwv_conf_lines g topo))"
    using assms(2)
    by (auto simp: write_fwv_conf_def run_io fs_write_def Let_def split: sum.splits)
  from apply_config_run [OF assms(3,4) this apply_conf [OF assms(1)]] show ?thesis .
qed

theorem generated_config_roundtrip_witness:
  "\<exists>w1 w2. run_state (write_fwv_conf demo_env demo_args (topology_from demo_args)) demo_world = (Ok (), w1) \<and>
     run_state (apply_config_env demo_env [''fw-verify'', ''--config'', FWV_CONF, ''run-all'']) w1 = (True, w2) \<and>
     vars w2 ''FWV_PEER_IP'' = Some ''10.123.0.2'' \<and> vars w2 ''FWV_APP_UID'' = Some ''2000''"
proof -
  have plain: "list_all plain (map snd (fwv_settings demo_args (topology_from demo_args)))"
    by code_simp
  have kv: "map (\<lambda>(k, v). (env_of k, v)) (fwv_settings demo_args (topology_from demo_args)) =
      [(''FWV_MODE'', ''android''), (''FWV_TARGET_IFACE'', ''fwt0''), (''FWV_PEER_IFACE'', ''fwp0''),
       (''FWV_PEER_NETNS'', ''fwpeer''), (''FWV_TARGET_IP'', ''10.123.0.1''), (''FWV_PEER_IP'', ''10.123.0.2''),
       (''FWV_IDPS_FW'', ''idps-fw''), (''FWV_STATE_DB'', ''/data/idd/idps-fw/state.sqlite3''),
       (''FWV_APP_UID'', ''2000''), (''FWV_APP_IDENTITY_KEY'', ''com.demo.browser''),
       (''FWV_APP_PKG'', ''com.demo.browser''), (''FWV_APP_NAME'', ''Browser'')]"
    by code_simp
  obtain w1 where w1: "run_state (write_fwv_conf demo_env demo_args (topology_from demo_args)) demo_world = (Ok (), w1)"
    and vs: "vars w1 = Map.empty"
    by (auto simp: write_fwv_conf_def run_io fs_write_def Let_def demo_defs)
  have path: "config_path None [''fw-verify'', ''--config'', FWV_CONF, ''run-all''] = Some FWV_CONF"
    by code_simp
  have "ans_unit (os demo_env) w1 (FsRead FWV_CONF) = Inr ()"
    by (simp add: demo_env_def demo_os_def)
  from generated_config_roundtrip [OF plain w1 path this] show ?thesis
    using w1 by (auto simp: kv vs)
qed

text \<open>
  C31. Preflight reports OK exactly when every mandatory check passed; the checks are the daemon, the
  depot, the re-executed worker in the peer namespace and the link, plus the VSOC API in host mode,
  and each is printed with its own verdict before the summary.
\<close>

theorem preflight_exact:
  assumes "run_state (preflight_checks E cfg) w = (checks, w1)"
    and "run_state (preflight E cfg) w = (r, w')"
  shows "(r = Ok () \<longleftrightarrow> list_all (\<lambda>c. fst (snd c)) checks) \<and>
     (r = Err [preflight_failed] \<longleftrightarrow> list_ex (\<lambda>c. \<not> fst (snd c)) checks) \<and>
     map fst checks = [''idps-fw health'', ''target depot dir'', ''peer worker re-exec'', ''peer->target link''] @
       (if rc_mode cfg = Host then [''vsoc api''] else []) \<and>
     prefix (trace w1 @ map (Println \<circ> check_line) checks) (trace w')"
proof -
  have names: "returns (preflight_checks E cfg) (\<lambda>cs. map fst cs =
      [''idps-fw health'', ''target depot dir'', ''peer worker re-exec'', ''peer->target link''] @
       (if rc_mode cfg = Host then [''vsoc api''] else []))"
    unfolding preflight_checks_def health_check_def depot_check_def worker_check_def link_check_def
      vsoc_check_def Let_def
    by (cases "rc_mode cfg = Host") (auto intro!: returns_intros)
  obtain u w2 where pl: "run_state (print_lines E (map check_line checks)) w1 = (u, w2)"
    by (cases "run_state (print_lines E (map check_line checks)) w1")
  let ?rest = "do {
       k \<leftarrow> shell E (rc_target cfg) ''[ -e /data/idd/keys/aes.keystore ] && echo yes || echo no'';
       println E (''['' @ (if contains (unwrap_or [] k) ''yes'' then ''ok'' else ''warn'') @ ''] target keystore: '' @
         unwrap_or [] k);
       println E (''\<newline>mode='' @ debug_mode (rc_mode cfg) @ ''  TARGET='' @ label (rc_target cfg) @ '' ('' @
         show_ip (rc_target_ip cfg) @ '')  PEER='' @ label (rc_peer cfg) @ '' ('' @
         show_ip (rc_peer_ip cfg) @ '')'');
       ret (if list_all (\<lambda>c. fst (snd c)) checks then Ok () else Err [preflight_failed]) } :: unit res io"
  have run: "run_state ?rest w2 = (r, w')"
    using assms pl unfolding preflight_def Let_def by (simp del: append.simps)
  have "steady ?rest"
    by (intro later_intros)
  then have "later w2 w'"
    using run by (rule steadyD)
  moreover have "trace w2 = trace w1 @ map (Println \<circ> check_line) checks"
    using run_print_lines [of E "map check_line checks" w1] pl by simp
  moreover have "returns ?rest (\<lambda>r. r = (if list_all (\<lambda>c. fst (snd c)) checks then Ok () else Err [preflight_failed]))"
    by (intro returns_intros refl)
  then have "r = (if list_all (\<lambda>c. fst (snd c)) checks then Ok () else Err [preflight_failed])"
    using run by (rule returnsD)
  ultimately show ?thesis
    using returnsD [OF names assms(1)]
    by (auto simp: later_def list_all_iff list_ex_iff split: if_splits)
qed

theorem preflight_exact_witness:
  "map fst (fst (run_state (preflight_checks demo_env demo_cfg) demo_world)) =
     [''idps-fw health'', ''target depot dir'', ''peer worker re-exec'', ''peer->target link''] \<and>
   (fst (run_state (preflight demo_env demo_cfg) demo_world) = Ok () \<longleftrightarrow>
      list_all (\<lambda>c. fst (snd c)) (fst (run_state (preflight_checks demo_env demo_cfg) demo_world)))"
  using preflight_exact [of demo_env demo_cfg demo_world,
      OF prod.collapse [symmetric] prod.collapse [symmetric]]
  by (simp add: demo_cfg_def)

end
