(* ===== verification/Burst.thy ===== *)
theory Burst
  imports Worker
begin

text \<open>
  The parallel burst of the traffic worker (\<open>agent/traffic.rs\<close>, the scoped threads of \<open>run\<close>): one
  thread per port, interleaved at the level of socket calls. A thread is a tree of socket calls; a
  step of the system lets any unfinished thread make its next call, whose answer may depend on
  everything that all threads did before. The threads are shown to be the sequential attempts of the
  worker theory cut at their calls, every interleaving to end, and what each thread reports in any
  interleaving. Calls are taken in the order in which they are answered; that two calls wait at the
  same time is not visible in the model.
\<close>

section \<open>Threads\<close>

datatype thread = Done Outcome | Call sys_call "world \<Rightarrow> thread"

abbreviation on_unit :: "'j env \<Rightarrow> sys_call \<Rightarrow> thread \<Rightarrow> thread" where
  "on_unit E c k \<equiv>
     Call c (\<lambda>w. case ans_unit (os E) w (Sys c) of Inl _ \<Rightarrow> Done O_Other | Inr _ \<Rightarrow> k)"

text \<open>\<open>tcp_attempt(..).unwrap_or(Outcome::Other)\<close> call by call.\<close>

definition connect_thread :: "'j env \<Rightarrow> ipaddr \<Rightarrow> u16 \<Rightarrow> u64 \<Rightarrow> thread" where
  "connect_thread E to dport timeout_ms =
     Call (ConnectTimeout to dport (unat timeout_ms)) (\<lambda>w.
       Done (case ans_unit (os E) w (Sys (ConnectTimeout to dport (unat timeout_ms))) of
               Inr _ \<Rightarrow> O_Success
             | Inl error \<Rightarrow> classify_io error))"

definition tcp_thread :: "'j env \<Rightarrow> ipaddr \<Rightarrow> u16 \<Rightarrow> u16 option \<Rightarrow> u64 \<Rightarrow> thread" where
  "tcp_thread E to dport sport timeout_ms =
     on_unit E (TcpSocket (is_ipv4 to))
       (case sport of
          None \<Rightarrow> connect_thread E to dport timeout_ms
        | Some port \<Rightarrow>
            on_unit E SetReuseAddress
              (on_unit E (TcpBind (unspecified (is_ipv4 to)) port)
                 (connect_thread E to dport timeout_ms)))"

text \<open>\<open>fin_attempt(..).unwrap_or(Outcome::Other)\<close>, with the route lookup of \<open>local_src_ipv4\<close>.\<close>

definition fin_thread :: "'j env \<Rightarrow> ipaddr \<Rightarrow> u16 \<Rightarrow> u16 \<Rightarrow> u32 \<Rightarrow> thread" where
  "fin_thread E to dport sport seq =
     (case to of
        V6 _ \<Rightarrow> Done O_Other
      | V4 dst_v4 \<Rightarrow>
          on_unit E (UdpBind (V4 (Ipv4 0 0 0 0)) 0)
            (on_unit E (UdpConnect to 9)
               (Call LocalAddr (\<lambda>w.
                  case ans_addr (os E) w (Sys LocalAddr) of
                    Inr (V4 src_v4) \<Rightarrow>
                      on_unit E RawTcpSocket
                        (on_unit E (RawSendTo (build_fin src_v4 dst_v4 sport dport seq) to) (Done O_Sent))
                  | _ \<Rightarrow> Done O_Other))))"

definition burst_thread :: "'j env \<Rightarrow> TrafficArgs \<Rightarrow> nat \<times> u16 \<Rightarrow> thread" where
  "burst_thread E args = (\<lambda>(index, port).
     if ta_fin_only args then
       fin_thread E (ta_to args) port
         (sport_or (ta_sport args) (fin_sport (fin_sport_base (process_id (os E))) (of_nat index)))
         (of_nat index + 1)
     else tcp_thread E (ta_to args) port (ta_sport args) (ta_timeout_ms args))"

definition burst_threads :: "'j env \<Rightarrow> TrafficArgs \<Rightarrow> u16 list \<Rightarrow> thread list" where
  "burst_threads E args ports = map (burst_thread E args) (List.enumerate 0 ports)"

text \<open>The joins deliver the outcomes in index order; all of them are recorded.\<close>

definition burst_tally :: "Outcome list \<Rightarrow> Tally" where
  "burst_tally outs = fold tally_record outs tally_default"

section \<open>Interleavings\<close>

text \<open>One step: thread \<open>i\<close> makes its next call. A schedule lists the threads in that order.\<close>

inductive interleave ::
  "'j env \<Rightarrow> nat list \<Rightarrow> thread list \<times> world \<Rightarrow> thread list \<times> world \<Rightarrow> bool" for E where
  halt: "interleave E [] s s"
| pick: "i < length ts \<Longrightarrow> ts ! i = Call c k \<Longrightarrow>
    interleave E js (ts[i := k w], step E (Sys c) w) s \<Longrightarrow> interleave E (i # js) (ts, w) s"

inductive_cases interleave_NilE: "interleave E [] s s'"
inductive_cases interleave_ConsE: "interleave E (i # js) (ts, w) s'"

section \<open>Threads are the sequential attempts\<close>

primrec run_thread :: "'j env \<Rightarrow> thread \<Rightarrow> Outcome io" where
  "run_thread E (Done out) = ret out"
| "run_thread E (Call c k) = State (\<lambda>w. run_state (run_thread E (k w)) (step E (Sys c) w))"

lemma run_tcp_thread:
  "run_thread E (tcp_thread E to dport sport tmo) =
   map_res (unwrap_or O_Other) (tcp_attempt E to dport sport tmo)"
proof (rule state.expand, rule ext)
  fix w
  show "run_state (run_thread E (tcp_thread E to dport sport tmo)) w =
      run_state (map_res (unwrap_or O_Other) (tcp_attempt E to dport sport tmo)) w"
    by (cases sport) (auto simp: tcp_thread_def connect_thread_def tcp_attempt_def run_io unwrap_or_def
        split: sum.splits)
qed

lemma run_fin_thread:
  "run_thread E (fin_thread E to dport sport seq) =
   map_res (unwrap_or O_Other) (fin_attempt E to dport (Some sport) seq)"
proof (rule state.expand, rule ext)
  fix w
  show "run_state (run_thread E (fin_thread E to dport sport seq)) w =
      run_state (map_res (unwrap_or O_Other) (fin_attempt E to dport (Some sport) seq)) w"
    by (cases to) (auto simp: fin_thread_def fin_attempt_def local_src_ipv4_def run_io unwrap_or_def
        split: sum.splits ipaddr.splits)
qed

lemma run_burst_thread: "run_thread E (burst_thread E args ip) = burst_probe E args ip"
  by (cases ip) (simp add: burst_thread_def burst_probe_def run_tcp_thread run_fin_thread)

section \<open>What a thread does in an interleaving\<close>

text \<open>
  A run of one thread between the worlds \<open>w\<close> and \<open>w'\<close>: it makes its calls in its own order, each
  answered in some later world, after whatever the other threads did in between.
\<close>

inductive own :: "'j env \<Rightarrow> world \<Rightarrow> world \<Rightarrow> thread \<Rightarrow> sys_call list \<Rightarrow> thread \<Rightarrow> bool" for E w' where
  own_none: "later w w' \<Longrightarrow> own E w' w t [] t"
| own_call: "later w v \<Longrightarrow> own E w' (step E (Sys c) v) (k v) cs t \<Longrightarrow> own E w' w (Call c k) (c # cs) t"

inductive_cases own_CallE: "own E w' w (Call c k) cs (Done out)"
inductive_cases own_DoneE: "own E w' w (Done out) cs t"

lemma own_later: "own E w' w t cs t' \<Longrightarrow> later w w'"
  by (induction rule: own.induct) (auto intro: later_trans [OF later_trans [OF _ later_step]])

lemma own_earlier: "own E w' w t cs t' \<Longrightarrow> later u w \<Longrightarrow> own E w' u t cs t'"
  by (cases rule: own.cases) (auto intro: own.intros later_trans)

lemma mset_concat_update:
  "i < length xss \<Longrightarrow> mset (concat (xss[i := x # xss ! i])) = add_mset x (mset (concat xss))"
proof (induction xss arbitrary: i)
  case (Cons xs xss)
  then show ?case by (cases i) simp_all
qed simp

lemma interleave_own:
  assumes "interleave E js (ts, w) (ts', w')"
  obtains css acts where "length ts' = length ts" and "length css = length ts"
    and "\<forall>i < length ts. own E w' w (ts ! i) (css ! i) (ts' ! i)"
    and "trace w' = trace w @ map Sys acts" and "mset acts = mset (concat css)"
    and "length js = length acts"
proof -
  have "\<exists>css acts. length ts' = length ts \<and> length css = length ts \<and>
      (\<forall>i < length ts. own E w' w (ts ! i) (css ! i) (ts' ! i)) \<and>
      trace w' = trace w @ map Sys acts \<and> mset acts = mset (concat css) \<and> length js = length acts"
    using assms
  proof (induction js arbitrary: ts w)
    case Nil
    then have "ts' = ts" "w' = w"
      by (auto elim: interleave_NilE)
    then show ?case
      by (intro exI [of _ "replicate (length ts) []"] exI [of _ "[]"]) (auto intro: own_none)
  next
    case (Cons i js)
    then obtain c k where i: "i < length ts" "ts ! i = Call c k"
      and run: "interleave E js (ts[i := k w], step E (Sys c) w) (ts', w')"
      by (auto elim: interleave_ConsE)
    from Cons.IH [OF run] obtain css acts where
      len: "length ts' = length ts" "length css = length ts" "length js = length acts"
      and o: "\<forall>j < length ts. own E w' (step E (Sys c) w) (ts[i := k w] ! j) (css ! j) (ts' ! j)"
      and tr: "trace w' = trace w @ map Sys (c # acts)" and ms: "mset acts = mset (concat css)"
      by auto
    have "own E w' w (ts ! j) (css[i := c # css ! i] ! j) (ts' ! j)" if "j < length ts" for j
    proof (cases "j = i")
      case True
      with o i that len show ?thesis
        by (auto intro!: own_call [of w w])
    next
      case False
      with o that have "own E w' (step E (Sys c) w) (ts ! j) (css ! j) (ts' ! j)"
        by (metis nth_list_update_neq)
      with False show ?thesis
        using own_earlier [OF _ later_step] by simp blast
    qed
    with len ms i tr show ?case
      by (intro exI [of _ "css[i := c # css ! i]"] exI [of _ "c # acts"]) (simp add: mset_concat_update)
  qed
  then show thesis
    using that by blast
qed

text \<open>The number of calls a thread can make.\<close>

primrec within :: "thread \<Rightarrow> nat \<Rightarrow> bool" where
  "within (Done out) n \<longleftrightarrow> True"
| "within (Call c k) n \<longleftrightarrow> (case n of 0 \<Rightarrow> False | Suc m \<Rightarrow> \<forall>w. within (k w) m)"

lemma own_within: "own E w' w t cs t' \<Longrightarrow> within t n \<Longrightarrow> length cs \<le> n"
  by (induction arbitrary: n rule: own.induct) (auto split: nat.splits)

lemma burst_thread_within: "within (burst_thread E args ip) 5"
  by (cases ip) (auto simp: burst_thread_def fin_thread_def tcp_thread_def connect_thread_def numeral_eq_Suc
      split: ipaddr.splits option.splits sum.splits)

lemma length_burst_threads [simp]: "length (burst_threads E args ports) = length ports"
  by (simp add: burst_threads_def)

lemma nth_burst_threads:
  "i < length ports \<Longrightarrow> burst_threads E args ports ! i = burst_thread E args (i, ports ! i)"
  by (simp add: burst_threads_def nth_enumerate_eq)

text \<open>Every state can be run to the end, thread by thread.\<close>

lemma interleave_append:
  "interleave E js s s1 \<Longrightarrow> interleave E ks s1 s2 \<Longrightarrow> interleave E (js @ ks) s s2"
  by (induction rule: interleave.induct) (auto intro: interleave.intros)

lemma finish_thread:
  assumes "i < length ts" and "ts ! i = t" and "run_state (run_thread E t) w = (out, w')"
  shows "\<exists>js. interleave E js (ts, w) (ts[i := Done out], w')"
  using assms
proof (induction t arbitrary: ts w)
  case (Done o1)
  then have "ts[i := Done out] = ts" "w' = w"
    by (auto simp: list_update_same_conv)
  then show ?case
    by (metis interleave.halt)
next
  case (Call c k)
  have "\<exists>js. interleave E js (ts[i := k w], step E (Sys c) w) (ts[i := k w, i := Done out], w')"
    by (rule Call.IH) (use Call.prems in simp_all)
  then obtain js where "interleave E js (ts[i := k w], step E (Sys c) w) (ts[i := Done out], w')"
    by auto
  then have "interleave E (i # js) (ts, w) (ts[i := Done out], w')"
    by (rule interleave.pick [OF Call.prems(1,2)])
  then show ?case
    by blast
qed

lemma finish_threads:
  assumes "run_state (State_Monad.traverse_list (run_thread E) ts) w = (outs, w')"
  shows "(\<exists>js. interleave E js (map Done done @ ts, w) (map Done (done @ outs), w')) \<and>
    length outs = length ts"
  using assms
proof (induction ts arbitrary: w outs "done")
  case Nil
  then show ?case
    by (auto intro: interleave.halt)
next
  case (Cons t ts)
  obtain out w1 where t: "run_state (run_thread E t) w = (out, w1)"
    by (cases "run_state (run_thread E t) w")
  then obtain os where ts: "run_state (State_Monad.traverse_list (run_thread E) ts) w1 = (os, w')"
    and outs: "outs = out # os"
    using Cons.prems by (auto split: prod.splits)
  have "\<exists>js. interleave E js (map Done done @ t # ts, w)
      ((map Done done @ t # ts)[length done := Done out], w1)"
    by (rule finish_thread [OF _ _ t]) (simp_all add: nth_append)
  moreover have "(map Done done @ t # ts)[length done := Done out] = map Done (done @ [out]) @ ts"
    by (simp add: list_update_append)
  ultimately obtain js where js: "interleave E js (map Done done @ t # ts, w) (map Done (done @ [out]) @ ts, w1)"
    by metis
  obtain ks where ks: "interleave E ks (map Done (done @ [out]) @ ts, w1)
      (map Done ((done @ [out]) @ os), w')" "length os = length ts"
    using Cons.IH [OF ts] by blast
  from interleave_append [OF js ks(1)] ks(2) show ?case
    by (auto simp: outs)
qed

lemma burst_interleaving:
  "\<exists>ks outs. interleave E ks (burst_threads E args ports, w)
       (map Done outs, snd (run_state (burst E args ports) w)) \<and>
     fst (run_state (burst E args ports) w) = Ok (burst_tally outs)"
proof -
  have same: "State_Monad.traverse_list (run_thread E) (map (burst_thread E args) ips) =
      State_Monad.traverse_list (burst_probe E args) ips" for ips
    by (induction ips) (simp_all add: run_burst_thread)
  obtain outs w' where "run_state (State_Monad.traverse_list (run_thread E) (burst_threads E args ports)) w = (outs, w')"
    by (cases "run_state (State_Monad.traverse_list (run_thread E) (burst_threads E args ports)) w")
  moreover from this obtain ks where "interleave E ks (burst_threads E args ports, w) (map Done outs, w')"
    using finish_threads [of E _ w outs w' "[]"] by auto
  ultimately show ?thesis
    by (auto simp: burst_def burst_tally_def burst_threads_def same intro!: exI [of _ outs] exI [of _ ks])
qed

text \<open>The answers behind the outcome of a thread.\<close>

lemma own_on_unit:
  assumes "own E w' w (on_unit E c k) cs (Done out)"
  obtains (refused) v e where "later w v" "later (step E (Sys c) v) w'"
      "ans_unit (os E) v (Sys c) = Inl e" "out = O_Other" "cs = [c]"
  | (granted) v ds where "later w v" "ans_unit (os E) v (Sys c) = Inr ()" "cs = c # ds"
      "own E w' (step E (Sys c) v) k ds (Done out)"
proof -
  from assms obtain v ds where v: "later w v" "cs = c # ds" and
    o: "own E w' (step E (Sys c) v) (case ans_unit (os E) v (Sys c) of Inl _ \<Rightarrow> Done O_Other | Inr _ \<Rightarrow> k) ds (Done out)"
    by (auto elim: own_CallE)
  show thesis
  proof (cases "ans_unit (os E) v (Sys c)")
    case (Inl e)
    with o have "ds = []" "out = O_Other" "later (step E (Sys c) v) w'"
      by (auto elim: own_DoneE)
    with v Inl refused show thesis by blast
  next
    case (Inr u)
    with o v granted show thesis by simp
  qed
qed

text \<open>The ports of the connects among some calls.\<close>

definition connects :: "sys_call list \<Rightarrow> u16 list" where
  "connects = List.map_filter (\<lambda>c. case c of ConnectTimeout _ p _ \<Rightarrow> Some p | _ \<Rightarrow> None)"

lemma connects_simps [simp]:
  "connects [] = []"
  "connects (c # cs) = (case c of ConnectTimeout _ p _ \<Rightarrow> [p] | _ \<Rightarrow> []) @ connects cs"
  by (cases c; simp add: connects_def List.map_filter_def)+

lemma connects_append [simp]: "connects (cs @ ds) = connects cs @ connects ds"
  by (induction cs) simp_all

lemma connects_concat: "connects (concat css) = concat (map connects css)"
  by (induction css) simp_all

lemma connects_mset: "mset cs = mset ds \<Longrightarrow> mset (connects cs) = mset (connects ds)"
  by (simp add: connects_def List.map_filter_def)

lemma connects_once:
  "list_all2 (\<lambda>cs p. connects cs = [] \<or> connects cs = [p]) css ports \<Longrightarrow>
   mset (concat (map connects css)) \<subseteq># mset ports"
proof (induction rule: list_all2_induct)
  case (Cons cs css p ports)
  have "mset ports \<subseteq># add_mset p (mset ports)"
    by (simp add: subset_mset.le_iff_add)
  with Cons show ?case
    by (auto intro: subset_mset.order_trans)
qed simp

text \<open>The calls that prepare a connect, and where the outcome of a port comes from.\<close>

definition prepares :: "ipaddr \<Rightarrow> u16 option \<Rightarrow> sys_call list" where
  "prepares to sport =
     TcpSocket (is_ipv4 to) #
     (case sport of None \<Rightarrow> [] | Some p \<Rightarrow> [SetReuseAddress, TcpBind (unspecified (is_ipv4 to)) p])"

definition scanned ::
  "'j env \<Rightarrow> TrafficArgs \<Rightarrow> world \<Rightarrow> world \<Rightarrow> u16 \<Rightarrow> Outcome \<Rightarrow> bool" where
  "scanned E args w w' port out \<longleftrightarrow>
     (let conn = ConnectTimeout (ta_to args) port (unat (ta_timeout_ms args)) in
      (\<exists>v. later w v \<and> later (step E (Sys conn) v) w' \<and>
         out = (case ans_unit (os E) v (Sys conn) of Inr _ \<Rightarrow> O_Success | Inl e \<Rightarrow> classify_io e)) \<or>
      out = O_Other \<and>
      (\<exists>v c e. later w v \<and> later (step E (Sys c) v) w' \<and>
         c \<in> set (prepares (ta_to args) (ta_sport args)) \<and> ans_unit (os E) v (Sys c) = Inl e))"

lemma scanned_earlier: "scanned E args v w' port out \<Longrightarrow> later u v \<Longrightarrow> scanned E args u w' port out"
  unfolding scanned_def Let_def by (blast intro: later_trans)

text \<open>A thread that scans a port, whatever it is interleaved with.\<close>

definition scans :: "'j env \<Rightarrow> TrafficArgs \<Rightarrow> world \<Rightarrow> u16 \<Rightarrow> thread \<Rightarrow> bool" where
  "scans E args w' port t \<longleftrightarrow>
     (\<forall>w cs out. own E w' w t cs (Done out) \<longrightarrow>
        scanned E args w w' port out \<and> (connects cs = [] \<or> connects cs = [port]) \<and>
        set cs \<subseteq> set (prepares (ta_to args) (ta_sport args)) \<union>
          {ConnectTimeout (ta_to args) port (unat (ta_timeout_ms args))})"

lemma scans_connect: "scans E args w' port (connect_thread E (ta_to args) port (ta_timeout_ms args))"
  unfolding scans_def connect_thread_def
  by (auto simp: scanned_def Let_def elim!: own_CallE own_DoneE)

lemma scans_on_unit:
  assumes "scans E args w' port t" and c: "c \<in> set (prepares (ta_to args) (ta_sport args))"
  shows "scans E args w' port (on_unit E c t)"
  unfolding scans_def
proof (intro allI impI)
  fix w cs out
  have none: "connects (c # ds) = connects ds" for ds
    using c by (auto simp: prepares_def split: option.splits)
  assume "own E w' w (on_unit E c t) cs (Done out)"
  then show "scanned E args w w' port out \<and> (connects cs = [] \<or> connects cs = [port]) \<and>
        set cs \<subseteq> set (prepares (ta_to args) (ta_sport args)) \<union>
          {ConnectTimeout (ta_to args) port (unat (ta_timeout_ms args))}"
  proof (cases rule: own_on_unit)
    case (refused v e)
    then have "scanned E args w w' port out"
      using c unfolding scanned_def Let_def by blast
    then show ?thesis
      using refused(5) c none [of "[]"] by simp
  next
    case (granted v ds)
    have "later w (step E (Sys c) v)"
      using granted(1) later_step by (rule later_trans)
    moreover have "scanned E args (step E (Sys c) v) w' port out \<and>
        (connects ds = [] \<or> connects ds = [port]) \<and>
        set ds \<subseteq> set (prepares (ta_to args) (ta_sport args)) \<union>
          {ConnectTimeout (ta_to args) port (unat (ta_timeout_ms args))}"
      using assms(1) granted(4) unfolding scans_def by blast
    ultimately show ?thesis
      using granted(3) c none scanned_earlier by auto
  qed
qed

lemma scans_tcp: "scans E args w' port (tcp_thread E (ta_to args) port (ta_sport args) (ta_timeout_ms args))"
  unfolding tcp_thread_def
  by (cases "ta_sport args") (auto simp: prepares_def intro!: scans_on_unit scans_connect)

section \<open>Properties\<close>

text \<open>
  C13. Whatever the interleaving of the threads of a SYN scan, and whatever the answers depend on: when
  all threads have finished there is one outcome per port in the order of the ports, and the outcome
  of a port is the classification of the answer that the connect to that very port got during the
  scan, or other when a call that prepares the connect was refused. The scan makes no calls but these;
  every port is connected to at most as often as it is listed.
\<close>

theorem syn_scan_interleavings:
  assumes "\<not> ta_fin_only args"
    and "interleave E js (burst_threads E args ports, w) (map Done outs, w')"
  shows "length outs = length ports \<and>
     (\<forall>i < length ports. scanned E args w w' (ports ! i) (outs ! i)) \<and>
     (\<exists>acts. trace w' = trace w @ map Sys acts \<and> mset (connects acts) \<subseteq># mset ports \<and>
        set acts \<subseteq> set (prepares (ta_to args) (ta_sport args)) \<union>
          (\<lambda>p. ConnectTimeout (ta_to args) p (unat (ta_timeout_ms args))) ` set ports)"
proof -
  obtain css acts where len: "length outs = length ports" "length css = length ports"
    and o: "\<forall>i < length ports. own E w' w (burst_threads E args ports ! i) (css ! i) (map Done outs ! i)"
    and acts: "trace w' = trace w @ map Sys acts" "mset acts = mset (concat css)"
    using interleave_own [OF assms(2)] by (metis length_burst_threads length_map)
  have each: "scanned E args w w' (ports ! i) (outs ! i) \<and>
      (connects (css ! i) = [] \<or> connects (css ! i) = [ports ! i]) \<and>
      set (css ! i) \<subseteq> set (prepares (ta_to args) (ta_sport args)) \<union>
        {ConnectTimeout (ta_to args) (ports ! i) (unat (ta_timeout_ms args))}" if "i < length ports" for i
  proof -
    have "own E w' w (tcp_thread E (ta_to args) (ports ! i) (ta_sport args) (ta_timeout_ms args))
        (css ! i) (Done (outs ! i))"
      using o that assms(1) len by (simp add: nth_burst_threads burst_thread_def)
    then show ?thesis
      using scans_tcp [of E args w' "ports ! i"] unfolding scans_def by blast
  qed
  have "mset (connects acts) \<subseteq># mset ports"
    using each len connects_once [of css ports] connects_mset [OF acts(2)]
    by (simp add: connects_concat list_all2_conv_all_nth)
  moreover have "set acts = \<Union> (set ` set css)"
    using mset_eq_setD [OF acts(2)] by simp
  then have "set acts \<subseteq> set (prepares (ta_to args) (ta_sport args)) \<union>
          (\<lambda>p. ConnectTimeout (ta_to args) p (unat (ta_timeout_ms args))) ` set ports"
  proof -
    have "set cs \<subseteq> set (prepares (ta_to args) (ta_sport args)) \<union>
          (\<lambda>p. ConnectTimeout (ta_to args) p (unat (ta_timeout_ms args))) ` set ports" if cs: "cs \<in> set css" for cs
    proof -
      obtain i where "i < length ports" "cs = css ! i"
        using cs len by (auto simp: in_set_conv_nth)
      with each [of i] show ?thesis by auto
    qed
    then show ?thesis
      unfolding \<open>set acts = \<Union> (set ` set css)\<close> by blast
  qed
  ultimately show ?thesis
    using each len acts(1) by blast
qed

inductive_simps interleave_Nil: "interleave E [] s s'"
inductive_simps interleave_Cons: "interleave E (i # js) (ts, w) s'"

lemma demo_interleaving:
  "\<exists>w'. interleave demo_env [0, 1, 2, 2, 0, 1] (burst_threads demo_env demo_scan [9001, 9002, 9003], demo_world)
     (map Done [O_Success, O_Success, O_Success], w')"
  by (simp add: interleave_Nil interleave_Cons burst_threads_def burst_thread_def tcp_thread_def
      connect_thread_def demo_scan_def demo_env_def demo_os_def)

theorem syn_scan_interleavings_witness:
  "\<exists>w' acts. interleave demo_env [0, 1, 2, 2, 0, 1]
       (burst_threads demo_env demo_scan [9001, 9002, 9003], demo_world)
       (map Done [O_Success, O_Success, O_Success], w') \<and>
     scanned demo_env demo_scan demo_world w' 9003 O_Success \<and>
     trace w' = map Sys acts \<and> mset (connects acts) \<subseteq># {#9001, 9002, 9003#}"
proof -
  obtain w' where run: "interleave demo_env [0, 1, 2, 2, 0, 1]
      (burst_threads demo_env demo_scan [9001, 9002, 9003], demo_world)
      (map Done [O_Success, O_Success, O_Success], w')"
    using demo_interleaving by blast
  have "\<not> ta_fin_only demo_scan" "trace demo_world = []"
    by (simp_all add: demo_scan_def demo_world_def)
  with syn_scan_interleavings [OF _ run] run show ?thesis
    by (force simp: numeral_3_eq_3 All_less_Suc)
qed

text \<open>
  C14. Every interleaving of a scan's threads ends: no schedule has more than five socket calls per
  port, from every state that is reached all threads can be run to their end within that bound, and
  the outcomes are then one per port, all counted. The sequential \<open>burst\<close> that the traffic run of the
  worker theory uses is one of these interleavings, with its tally and its final world.
\<close>

theorem interleavings_end:
  assumes "interleave E js (burst_threads E args ports, w) (ts, w')"
  shows "length js \<le> 5 * length ports \<and>
     (\<exists>ks outs w''. interleave E ks (ts, w') (map Done outs, w'') \<and>
        length (js @ ks) \<le> 5 * length ports \<and> length outs = length ports \<and>
        tally_attempts (burst_tally outs) = of_nat (length ports)) \<and>
     (\<exists>ks outs. interleave E ks (burst_threads E args ports, w)
          (map Done outs, snd (run_state (burst E args ports) w)) \<and>
        fst (run_state (burst E args ports) w) = Ok (burst_tally outs))"
proof -
  have bound: "length js \<le> 5 * length ports" "length ts = length ports"
    if run: "interleave E js (burst_threads E args ports, w) (ts, w')" for js ts w'
  proof -
    obtain css acts where css: "length ts = length ports" "length css = length ports"
      and o: "\<forall>i < length ports. own E w' w (burst_threads E args ports ! i) (css ! i) (ts ! i)"
      and acts: "mset acts = mset (concat css)" "length js = length acts"
      using interleave_own [OF run] by (metis length_burst_threads)
    have "length (css ! i) \<le> 5" if "i < length ports" for i
      using o that own_within burst_thread_within by (metis nth_burst_threads)
    then have "\<forall>cs \<in> set css. length cs \<le> 5"
      using css(2) by (auto simp: in_set_conv_nth)
    then have "length (concat css) \<le> 5 * length css"
      by (induction css) auto
    then show "length js \<le> 5 * length ports" "length ts = length ports"
      using css acts mset_eq_length [OF acts(1)] by simp_all
  qed
  obtain ks outs w'' where ks: "interleave E ks (ts, w') (map Done outs, w'')" "length outs = length ts"
    using finish_threads [of E ts w' _ _ "[]", OF prod.collapse [symmetric]] by auto
  moreover have "interleave E (js @ ks) (burst_threads E args ports, w) (map Done outs, w'')"
    using assms ks(1) by (rule interleave_append)
  ultimately show ?thesis
    using bound [OF assms] bound [of "js @ ks"] attempts_fold [of outs tally_default]
      burst_interleaving [of E args ports w]
    by (auto simp: burst_tally_def)
qed

theorem interleavings_end_witness:
  "\<exists>ts w' ks outs w''. interleave demo_env [0, 2, 2]
       (burst_threads demo_env demo_scan [9001, 9002, 9003], demo_world) (ts, w') \<and>
     interleave demo_env ks (ts, w') (map Done outs, w'') \<and> length ([0, 2, 2] @ ks) \<le> 15 \<and>
     tally_attempts (burst_tally outs) = 3"
proof -
  obtain ts w' where "interleave demo_env [0, 2, 2]
      (burst_threads demo_env demo_scan [9001, 9002, 9003], demo_world) (ts, w')"
    by (simp add: interleave_Nil interleave_Cons burst_threads_def burst_thread_def tcp_thread_def
        connect_thread_def demo_scan_def demo_env_def demo_os_def)
  with interleavings_end [OF this] show ?thesis
    by fastforce
qed

text \<open>The segments among some calls, and where the outcome of a FIN probe comes from.\<close>

definition sends :: "sys_call list \<Rightarrow> sys_call list" where
  "sends = filter (\<lambda>c. case c of RawSendTo _ _ \<Rightarrow> True | _ \<Rightarrow> False)"

definition fin_call :: "ipv4 \<Rightarrow> u16 \<Rightarrow> u16 \<Rightarrow> u32 \<Rightarrow> ipv4 \<Rightarrow> sys_call" where
  "fin_call dst port sport seq src = RawSendTo (build_fin src dst sport port seq) (V4 dst)"

definition fin_scanned ::
  "'j env \<Rightarrow> world \<Rightarrow> world \<Rightarrow> ipv4 \<Rightarrow> u16 \<Rightarrow> u16 \<Rightarrow> u32 \<Rightarrow> Outcome \<Rightarrow> bool" where
  "fin_scanned E w w' dst port sport seq out \<longleftrightarrow>
     (\<exists>v u src. later w v \<and> later (step E (Sys LocalAddr) v) u \<and>
        later (step E (Sys (fin_call dst port sport seq src)) u) w' \<and>
        ans_addr (os E) v (Sys LocalAddr) = Inr (V4 src) \<and>
        ans_unit (os E) u (Sys (fin_call dst port sport seq src)) = Inr () \<and> out = O_Sent) \<or>
     (\<exists>v c e. later w v \<and> later (step E (Sys c) v) w' \<and> ans_unit (os E) v (Sys c) = Inl e \<and>
        c \<in> {UdpBind (V4 (Ipv4 0 0 0 0)) 0, UdpConnect (V4 dst) 9, RawTcpSocket} \<union>
          range (fin_call dst port sport seq) \<and> out = O_Other) \<or>
     (\<exists>v. later w v \<and> later (step E (Sys LocalAddr) v) w' \<and>
        (\<forall>src. ans_addr (os E) v (Sys LocalAddr) \<noteq> Inr (V4 src)) \<and> out = O_Other)"

lemma fin_scanned_earlier:
  "fin_scanned E v w' dst port sport seq out \<Longrightarrow> later u v \<Longrightarrow> fin_scanned E u w' dst port sport seq out"
  unfolding fin_scanned_def by (elim disjE exE conjE) (blast intro: later_trans)+

definition fin_scans :: "'j env \<Rightarrow> world \<Rightarrow> ipv4 \<Rightarrow> u16 \<Rightarrow> u16 \<Rightarrow> u32 \<Rightarrow> world \<Rightarrow> thread \<Rightarrow> bool" where
  "fin_scans E w' dst port sport seq w t \<longleftrightarrow>
     (\<forall>cs out. own E w' w t cs (Done out) \<longrightarrow>
        fin_scanned E w w' dst port sport seq out \<and> connects cs = [] \<and>
        (sends cs = [] \<or> (\<exists>src. sends cs = [fin_call dst port sport seq src])))"

lemma fin_scans_on_unit:
  assumes "\<And>v. later w v \<Longrightarrow> fin_scans E w' dst port sport seq (step E (Sys c) v) t"
    and c: "c \<in> {UdpBind (V4 (Ipv4 0 0 0 0)) 0, UdpConnect (V4 dst) 9}"
  shows "fin_scans E w' dst port sport seq w (on_unit E c t)"
  unfolding fin_scans_def
proof (intro allI impI)
  fix cs out
  have none: "connects (c # ds) = connects ds" "sends (c # ds) = sends ds" for ds
    using c by (auto simp: sends_def)
  assume "own E w' w (on_unit E c t) cs (Done out)"
  then show "fin_scanned E w w' dst port sport seq out \<and> connects cs = [] \<and>
      (sends cs = [] \<or> (\<exists>src. sends cs = [fin_call dst port sport seq src]))"
  proof (cases rule: own_on_unit)
    case (refused v e)
    then have "fin_scanned E w w' dst port sport seq out"
      using c unfolding fin_scanned_def by blast
    then show ?thesis
      using refused(5) none [of "[]"] by (simp add: sends_def)
  next
    case (granted v ds)
    have "later w (step E (Sys c) v)"
      using granted(1) later_step by (rule later_trans)
    with assms(1) [OF granted(1)] granted(3,4) none fin_scanned_earlier show ?thesis
      unfolding fin_scans_def by metis
  qed
qed

text \<open>The last two calls, once the source address is known.\<close>

lemma own_send:
  assumes "own E w' w (on_unit E RawTcpSocket (on_unit E c (Done O_Sent))) cs (Done out)"
  obtains (sent) u where "later w u" "later (step E (Sys c) u) w'" "ans_unit (os E) u (Sys c) = Inr ()"
      "out = O_Sent" "cs = [RawTcpSocket, c]"
  | (refused) u d e where "later w u" "later (step E (Sys d) u) w'" "ans_unit (os E) u (Sys d) = Inl e"
      "d \<in> {RawTcpSocket, c}" "out = O_Other" "cs = [RawTcpSocket] \<or> cs = [RawTcpSocket, c]"
  using assms
proof (cases rule: own_on_unit)
  case (granted v ds)
  have v: "later w (step E (Sys RawTcpSocket) v)"
    using granted(1) later_step by (rule later_trans)
  from granted(4) show ?thesis
  proof (cases rule: own_on_unit)
    case (refused u e)
    with granted(3) v show ?thesis
      by (intro that(2) [of u c e]) (auto intro: later_trans)
  next
    case (granted u es)
    then have "later (step E (Sys c) u) w'" "es = []" "out = O_Sent"
      by (auto elim: own_DoneE)
    with granted \<open>cs = RawTcpSocket # ds\<close> v show ?thesis
      by (intro that(1) [of u]) (auto intro: later_trans)
  qed
qed (blast intro: that(2))

lemma fin_scans_send:
  "fin_scans E w' dst port sport seq w (Call LocalAddr (\<lambda>v.
     case ans_addr (os E) v (Sys LocalAddr) of
       Inr (V4 src) \<Rightarrow>
         on_unit E RawTcpSocket
           (on_unit E (RawSendTo (build_fin src dst sport port seq) (V4 dst)) (Done O_Sent))
     | _ \<Rightarrow> Done O_Other))"
  unfolding fin_scans_def fin_call_def [symmetric]
proof (intro allI impI)
  fix cs out
  let ?rest = "\<lambda>v. case ans_addr (os E) v (Sys LocalAddr) of
       Inr (V4 src) \<Rightarrow>
         on_unit E RawTcpSocket (on_unit E (fin_call dst port sport seq src) (Done O_Sent))
     | _ \<Rightarrow> Done O_Other"
  assume "own E w' w (Call LocalAddr ?rest) cs (Done out)"
  then obtain v ds where v: "later w v" "cs = LocalAddr # ds"
    and o: "own E w' (step E (Sys LocalAddr) v) (?rest v) ds (Done out)"
    by (auto elim: own_CallE)
  have w: "later w (step E (Sys LocalAddr) v)"
    using v(1) later_step by (rule later_trans)
  show "fin_scanned E w w' dst port sport seq out \<and> connects cs = [] \<and>
      (sends cs = [] \<or> (\<exists>src. sends cs = [fin_call dst port sport seq src]))"
  proof (cases "\<exists>src. ans_addr (os E) v (Sys LocalAddr) = Inr (V4 src)")
    case False
    then have "?rest v = Done O_Other"
      by (auto split: sum.splits ipaddr.splits)
    with o have "ds = []" "out = O_Other" "later (step E (Sys LocalAddr) v) w'"
      by (auto elim: own_DoneE)
    with v False show ?thesis
      by (auto simp: fin_scanned_def sends_def)
  next
    case True
    then obtain src where src: "ans_addr (os E) v (Sys LocalAddr) = Inr (V4 src)"
      by blast
    from o have "own E w' (step E (Sys LocalAddr) v)
        (on_unit E RawTcpSocket (on_unit E (fin_call dst port sport seq src) (Done O_Sent))) ds (Done out)"
      by (simp add: src)
    then show ?thesis
    proof (cases rule: own_send)
      case (sent u)
      then have "fin_scanned E w w' dst port sport seq out"
        using v(1) src unfolding fin_scanned_def by blast
      with v(2) sent(5) show ?thesis
        by (auto simp: sends_def fin_call_def)
    next
      case (refused u d e)
      have "later w u"
        using w refused(1) by (rule later_trans)
      then have "fin_scanned E w w' dst port sport seq out"
        using refused(2-5) unfolding fin_scanned_def by blast
      with v(2) refused(6) show ?thesis
        by (auto simp: sends_def fin_call_def)
    qed
  qed
qed

lemma fin_scans_thread: "fin_scans E w' dst port sport seq w (fin_thread E (V4 dst) port sport seq)"
  unfolding fin_thread_def ipaddr.case
  by (intro fin_scans_on_unit fin_scans_send) simp_all

lemma sends_concat: "sends (concat css) = concat (map sends css)"
  by (simp add: sends_def filter_concat)

text \<open>
  C23. Whatever the interleaving of the threads of a bare-FIN scan: when all threads have finished, the
  port with index \<open>i\<close> is reported as sent only if, during the scan, the kernel named an IPv4 source
  address to this thread and then accepted from it the FIN segment from that address to this port,
  with the source port and the sequence number that belong to the index; every other port is reported
  as other, and then one of the calls was refused or no IPv4 source address was named. The scan makes
  no connection and sends at most one packet per port, each of them such a segment.
\<close>

theorem fin_scan_interleavings:
  assumes "ta_fin_only args" and "ta_to args = V4 dst"
    and "interleave E js (burst_threads E args ports, w) (map Done outs, w')"
    and "sport = (\<lambda>i. sport_or (ta_sport args) (fin_sport (fin_sport_base (process_id (os E))) (of_nat i)))"
  shows "length outs = length ports \<and>
     (\<forall>i < length ports. fin_scanned E w w' dst (ports ! i) (sport i) (of_nat i + 1) (outs ! i)) \<and>
     (\<exists>acts. trace w' = trace w @ map Sys acts \<and> connects acts = [] \<and>
        length (sends acts) \<le> length ports \<and>
        (\<forall>c \<in> set (sends acts). \<exists>i src. i < length ports \<and>
           c = RawSendTo (build_fin src dst (sport i) (ports ! i) (of_nat i + 1)) (V4 dst)))"
proof -
  obtain css acts where len: "length outs = length ports" "length css = length ports"
    and o: "\<forall>i < length ports. own E w' w (burst_threads E args ports ! i) (css ! i) (map Done outs ! i)"
    and acts: "trace w' = trace w @ map Sys acts" "mset acts = mset (concat css)"
    using interleave_own [OF assms(3)] by (metis length_burst_threads length_map)
  have each: "fin_scanned E w w' dst (ports ! i) (sport i) (of_nat i + 1) (outs ! i) \<and>
      connects (css ! i) = [] \<and> (sends (css ! i) = [] \<or>
        (\<exists>src. sends (css ! i) = [fin_call dst (ports ! i) (sport i) (of_nat i + 1) src]))"
    if i: "i < length ports" for i
  proof -
    have "own E w' w (fin_thread E (V4 dst) (ports ! i) (sport i) (of_nat i + 1)) (css ! i) (Done (outs ! i))"
      using o i assms(1,2,4) len by (simp add: nth_burst_threads burst_thread_def)
    then show ?thesis
      using fin_scans_thread unfolding fin_scans_def by blast
  qed
  have "\<forall>cs \<in> set css. connects cs = []"
    using each len by (metis in_set_conv_nth)
  then have "concat (map connects css) = []"
    by simp
  then have "connects acts = []"
    using connects_mset [OF acts(2)] by (simp only: connects_concat mset_zero_iff mset.simps(1))
  moreover have ms: "mset (sends acts) = mset (concat (map sends css))"
    using acts(2) unfolding sends_concat [symmetric] by (simp add: sends_def)
  have "\<forall>cs \<in> set css. length (sends cs) \<le> 1"
    using each len by (fastforce simp: in_set_conv_nth)
  then have "length (concat (map sends css)) \<le> length css"
    by (induction css) auto
  then have "length (sends acts) \<le> length ports"
    using mset_eq_length [OF ms] len by simp
  moreover have "\<exists>i src. i < length ports \<and>
      c = RawSendTo (build_fin src dst (sport i) (ports ! i) (of_nat i + 1)) (V4 dst)"
    if c: "c \<in> set (sends acts)" for c
  proof -
    obtain i where "i < length ports" "c \<in> set (sends (css ! i))"
      using c mset_eq_setD [OF ms] len by (auto simp: in_set_conv_nth [of _ css])
    with each [of i] obtain src where "c = fin_call dst (ports ! i) (sport i) (of_nat i + 1) src"
      by auto
    with \<open>i < length ports\<close> show ?thesis
      unfolding fin_call_def by blast
  qed
  ultimately show ?thesis
    using each len acts(1) by blast
qed

theorem fin_scan_interleavings_witness:
  "\<exists>js outs w'. interleave demo_env js
      (burst_threads demo_env (demo_scan\<lparr>ta_fin_only := True\<rparr>) [9001, 9002], demo_world) (map Done outs, w') \<and>
    fin_scanned demo_env demo_world w' (Ipv4 10 123 0 1) 9002
      (fin_sport (fin_sport_base 4242) 1) 2 (outs ! 1)"
proof -
  let ?scan = "demo_scan\<lparr>ta_fin_only := True\<rparr>"
  obtain js outs w' where run: "interleave demo_env js (burst_threads demo_env ?scan [9001, 9002], demo_world)
      (map Done outs, w')"
    using burst_interleaving by blast
  have "ta_fin_only ?scan" "ta_to ?scan = V4 (Ipv4 10 123 0 1)" "ta_sport ?scan = None"
      "process_id (os demo_env) = 4242"
    by (simp_all add: demo_scan_def demo_env_def demo_os_def)
  with fin_scan_interleavings [OF _ _ run refl] run show ?thesis
    by (force simp: sport_or_def numeral_2_eq_2 All_less_Suc)
qed

end
