(* ===== verification/Spec2Isabelle.thy ===== *)
theory Spec2Isabelle
  imports App Burst
begin

text \<open>
  \<^bold>\<open>fw-verify\<close> is the functional test tool of the idps-fw firewall daemon (\<open>src/fw-verify/src\<close>). One binary
  has two roles. The \<^emph>\<open>orchestrator\<close> runs on the device under test: it stages a veth pair whose peer end
  lives in a network namespace, delivers firewall rules to the daemon, makes traffic flow across the
  link, and judges each case by what the traffic saw, by the events the daemon stored and by whether
  those events were reported. The \<^emph>\<open>worker\<close> is the same binary re-executed with the subcommand \<open>agent\<close>,
  inside the peer namespace or under another uid; it sends packets, listens, writes the rule depot
  and queries the daemon's database, and answers with one line of JSON.

  \<^bold>\<open>How effects are modelled.\<close> A program is a state transformer (\<open>State_Monad\<close>) over \<^typ>\<open>world\<close>: clock, files,
  environment variables and the trace of all external actions. The record \<open>env\<close> decides what each
  action answers, as an arbitrary function of the history: processes, sockets, SQLite
  (\<open>rusqlite\<close>), the \<open>idps-core\<close>/\<open>idps-server\<close> crates and \<open>serde_json\<close> are parameters and nothing is
  assumed about them except where a property says so. Other processes may change files and let time
  pass at every action. Fallible code returns \<open>err + 'a\<close>, the chain of \<open>anyhow\<close> messages on the left,
  and \<open>and_then\<close> is the question mark operator, so every early return of the source is a branch.

  \<^bold>\<open>The theories\<close>, in the order of their dependencies:

  \<^item> \<open>Prelude\<close>: results and errors, the parts of Rust's string library in use, decimal text, the
    locale \<open>text_codec\<close> for values that travel as text (interpreted for ports and address octets).
  \<^item> \<open>Net\<close>: IP addresses as \<open>std::net\<close> prints and parses them; an address of either family is
    determined by its text, the compressed form of IPv6 included.
  \<^item> \<open>Effects\<close>: actions, world, environment, primitive operations; the calculus of programs that
    move forward (\<open>steady\<close>) and of returned values (\<open>returns\<close>); the environment used by witnesses.
  \<^item> \<open>Exec\<close> (\<open>exec.rs\<close>): endpoints, namespace entry with its fallback, re-execution, reading answers.
  \<^item> \<open>Config\<close> (\<open>cli.rs\<close>, \<open>config.rs\<close>): options and the resolved configuration.
  \<^item> \<open>Catalog\<close> (\<open>catalog.rs\<close>): groups, bundles, rule texts and the thirty data-plane cases.
  \<^item> \<open>Packet\<close> (packet builders of \<open>agent/traffic.rs\<close> and \<open>agent/arp.rs\<close>): checksums at machine width
    against the RFC 1071 sum, with the RFC 793 pseudo-header for TCP, in the locale
    \<open>internet_checksum\<close>.
  \<^item> \<open>Worker\<close> (\<open>agent/traffic.rs\<close>, \<open>arp.rs\<close>, \<open>connflood.rs\<close>, \<open>listen.rs\<close>, \<open>mod.rs\<close>): attempts, tallies,
    loops, listeners, credential dropping. \<open>Burst\<close>: the threads of a parallel scan as trees of socket
    calls under an interleaving step relation; run alone, a tree is the attempt of \<open>Worker\<close>.
  \<^item> \<open>Store\<close> (\<open>agent/events.rs\<close>, \<open>agent/provision.rs\<close>, \<open>agent/mod.rs\<close>, \<open>target.rs\<close>): database queries,
    depot writer, dispatch of the worker, observations of the daemon.
  \<^item> \<open>Provision\<close> (\<open>provision.rs\<close>, \<open>vsoc.rs\<close>): delivery of rules and the waits for the daemon, with the
    locale \<open>deadline_loop\<close> that all poll loops of the program interpret.
  \<^item> \<open>Peer\<close> (\<open>peer.rs\<close>): traffic requests and listeners as command lines of the worker.
  \<^item> \<open>Verify\<close> (\<open>verify.rs\<close>): one case from listeners to verdict, the judgement, the bundle runner; the
    locale \<open>case_runner\<close> is the contract of a batch of cases.
  \<^item> \<open>Monitor\<close> (\<open>monitor.rs\<close>): the four side-channel cases. \<open>Suite\<close> (\<open>verify.rs\<close> entry points,
    \<open>report.rs\<close>): whole runs and their report.
  \<^item> \<open>EnvSetup\<close> (\<open>env.rs\<close>): topology, configuration files, keystore, services. It rests on \<open>FileLogic\<close>, a
    small Hoare logic of files (\<open>valid\<close>) and a reference interpreter of command scripts (\<open>play\<close>).
  \<^item> \<open>App\<close> (\<open>main.rs\<close>): configuration file, listing, preflight, command dispatch, exit code.

  \<^bold>\<open>What the theorems show.\<close> A case reported as PASS was observed as expected (\<open>Verify\<close>, \<open>Monitor\<close>), the
  judgement is characterised exactly, and every planned case is reported once whatever happens, up
  to the exit status of the process (\<open>Suite\<close>, this theory). Rules are provisioned before cases run,
  stored by the depot or accepted by the VSOC service, under a version the daemon has confirmed
  (\<open>Provision\<close>, \<open>Store\<close>). The worker's verdicts follow from
  its sockets' answers, its packets carry valid checksums, its counters do not wrap in use, and in
  every interleaving of a parallel scan each port is judged by the answer to its own probe (\<open>Worker\<close>,
  \<open>Packet\<close>, \<open>Burst\<close>). The topology is built command by command up to the first failure. The operator's
  configuration of the daemon survives every sequence of setups and cleans, failed ones included,
  and generated configuration is read back (\<open>EnvSetup\<close>, \<open>App\<close>).

  \<^bold>\<open>Loops.\<close> No fuel is used. Poll loops with a deadline are total functions: a round that goes on has
  slept for a positive time before the deadline, which is the measure of the recursion. The
  listeners have no such pause on every path; they are \<open>partial_function (option)\<close>, \<open>None\<close> meaning that
  they run for ever, and are shown to end when every look at the clock takes time.

  \<^bold>\<open>Limits of the model.\<close> Parsing of command lines (\<open>clap\<close>) is a parameter of \<open>main\<close>. Every external action
  answers: a child process or command that hangs (the source waits for both without a timeout) is
  outside the model, so totality of a command is no claim about hanging children. Calls of
  concurrent threads are taken in the order of their answers. Time is unbounded: \<open>Instant + Duration\<close>
  panics in Rust when the sum overflows (\<open>provision.rs\<close> and \<open>listen.rs\<close>, for time limits of billions of
  years), which is not represented. The sequential \<open>burst\<close> of \<open>Worker\<close> stands for one interleaving only;
  what all of them share is proved in \<open>Burst\<close>. Strings are byte lists and white space is ASCII white
  space; files and process output are taken to be valid UTF-8. A failing file operation leaves its
  own target as other processes leave it, so a torn write or copy counts as interference, and the
  properties that assume no interference with the daemon's configuration exclude it. The compiled-in
  unit tests, the build files and the documentation have no model.
\<close>

section \<open>Properties\<close>

text \<open>
  C3. The exit status of \<open>fw-verify run-all\<close> tells the truth about the whole test plan: the results
  it is computed from name each of the 34 planned cases exactly once, and the process exits with
  success exactly when none of them failed and the report could be written.
\<close>

theorem run_all_exit_status:
  assumes "run_state (apply_config_env E args) w = (True, w1)"
    and "clap args (vars w1) = Inr cli" and "cli_command cli = RunAll"
    and "run_state (resolve E (cli_global cli)) w1 = (Ok cfg, w2)"
    and "run_state (run_all E cfg) w2 = (rs, w3)"
    and "run_state (emit_report E (cli_global cli) cfg rs) w3 = (r, w4)"
  shows "mset (map cr_id rs) = mset (map fc_id all_cases @ map mc_id monitor_cases) \<and>
     map_option fst (main E clap args w) =
       Some (if is_ok r \<and> list_all (\<lambda>r. cr_result r \<noteq> ''FAIL'') rs then EXIT_SUCCESS else EXIT_FAILURE)"
proof -
  have "run E cli w1 = Some (r, w4)"
    using assms(3-6) by (simp add: run_def run_cases_def run_and_then Let_def)
  from run_exit [where clap = clap, OF assms(1,2) this]
  have m: "map_option fst (main E clap args w) = Some (case r of Inr 0 \<Rightarrow> EXIT_SUCCESS | _ \<Rightarrow> EXIT_FAILURE)" .
  have "if_ok (\<lambda>n. n = count_status ''FAIL'' rs) r"
    using returnsD [OF returns_emit_report assms(6)] .
  moreover have "count_status ''FAIL'' rs = 0 \<longleftrightarrow> list_all (\<lambda>r. cr_result r \<noteq> ''FAIL'') rs"
    by (induction rs) (simp_all add: count_status_def)
  ultimately have "(case r of Inr 0 \<Rightarrow> EXIT_SUCCESS | _ \<Rightarrow> EXIT_FAILURE) =
      (if is_ok r \<and> list_all (\<lambda>r. cr_result r \<noteq> ''FAIL'') rs then EXIT_SUCCESS else EXIT_FAILURE)"
    by (cases r) (auto simp: is_ok_def split: nat.split)
  with m show ?thesis
    using returnsD [OF returns_run_all assms(5)] suite_ids_mset by simp
qed

theorem run_all_exit_status_witness:
  "\<exists>rs :: CaseResult list. mset (map cr_id rs) = mset (map fc_id all_cases @ map mc_id monitor_cases) \<and>
     map_option fst (main demo_env (\<lambda>_ _. Inr \<lparr>cli_global = demo_args\<lparr>ga_target_ip := Some (V4 (Ipv4 10 123 0 1)),
         ga_peer_ip := Some (V4 (Ipv4 10 123 0 2))\<rparr>, cli_command = RunAll\<rparr>) [''fw-verify'', ''run-all''] demo_world) =
       Some (if list_all (\<lambda>r. cr_result r \<noteq> ''FAIL'') rs then EXIT_SUCCESS else EXIT_FAILURE)"
proof -
  let ?g = "demo_args\<lparr>ga_target_ip := Some (V4 (Ipv4 10 123 0 1)), ga_peer_ip := Some (V4 (Ipv4 10 123 0 2))\<rparr>"
  let ?cli = "\<lparr>cli_global = ?g, cli_command = RunAll\<rparr>"
  have conf: "run_state (apply_config_env demo_env [''fw-verify'', ''run-all'']) demo_world = (True, demo_world)"
    by (simp add: apply_config_env_def strip_prefix_def starts_with_def)
  obtain cfg where res: "run_state (resolve demo_env (cli_global ?cli)) demo_world = (Ok cfg, demo_world)"
    by (simp add: resolve_def resolve_ip_def run_and_then Let_def)
  obtain rs w3 where all: "run_state (run_all demo_env cfg) demo_world = (rs, w3)"
    by (cases "run_state (run_all demo_env cfg) demo_world")
  obtain r w4 where rep: "run_state (emit_report demo_env (cli_global ?cli) cfg rs) w3 = (r, w4)"
    by (cases "run_state (emit_report demo_env (cli_global ?cli) cfg rs) w3")
  have cmd: "cli_command ?cli = RunAll"
    by simp
  have "is_ok r"
    using rep by (auto simp: emit_report_def write_report_def demo_args_def Let_def run_io split: prod.splits)
  then show ?thesis
    using run_all_exit_status [where clap = "\<lambda>_ _. Inr ?cli", OF conf refl cmd res all rep]
    by - (rule exI [of _ rs], simp)
qed

end
